(* ===== verification/PyVal.thy ===== *)
theory PyVal
  imports Prelude
begin

text \<open>
  The Python values a request carries, as \<open>json.loads\<close> builds them, and the exceptions the
  worker raises. \<open>py\<close> is the value type; the functions on it are the operations of the
  language the worker applies to request data: \<open>d.get(k)\<close>, \<open>d[k]\<close>, \<open>==\<close>, truth, \<open>isinstance(v, int)\<close>
  (which a \<open>bool\<close> satisfies) and the hashability a set or dictionary lookup needs. A string is the list
  of bytes of its UTF-8 form. A float is a sign, a decimal mantissa and a decimal exponent (the
  shortest decimal that denotes it) or one of the three special values.
  An exception is a structured \<open>WorkerError\<close> with class, message and details
  (\<open>errors.py\<close>) or a built-in exception with its type name. A message is the source's template
  for it: the values an f-string interpolates are not rendered.
\<close>

subsection \<open>Values\<close>

datatype flt = FDec bool nat int | FInf bool | FNaN

datatype py =
    PNone
  | PBool bool
  | PInt int
  | PFloat flt
  | PStr string
  | PList "py list"
  | PDict "(string \<times> py) list"

fun flt_val :: "flt \<Rightarrow> rat option" where
  "flt_val (FDec neg m e) =
     Some ((if neg then -1 else 1) * of_nat m * (if 0 \<le> e then 10 ^ nat e else 1 / 10 ^ nat (- e)))"
| "flt_val (FInf _) = None"
| "flt_val FNaN = None"

fun py_num :: "py \<Rightarrow> rat option" where
  "py_num (PBool b) = Some (if b then 1 else 0)"
| "py_num (PInt i) = Some (of_int i)"
| "py_num (PFloat f) = flt_val f"
| "py_num _ = None"

text \<open>Python's \<open>==\<close>: numbers of any type by value, containers elementwise.\<close>

primrec py_eq :: "py \<Rightarrow> py \<Rightarrow> bool" where
  "py_eq PNone b = (b = PNone)"
| "py_eq (PBool x) b = (py_num b = Some (if x then 1 else 0))"
| "py_eq (PInt x) b = (py_num b = Some (of_int x))"
| "py_eq (PFloat x) b =
     (case x of FDec _ _ _ \<Rightarrow> py_num b = flt_val x | FInf _ \<Rightarrow> b = PFloat x | FNaN \<Rightarrow> False)"
| "py_eq (PStr x) b = (b = PStr x)"
| "py_eq (PList xs) b =
     (case b of PList ys \<Rightarrow> list_all2 (\<lambda>f y. f y) (map py_eq xs) ys | _ \<Rightarrow> False)"
| "py_eq (PDict kvs) b =
     (case b of PDict kws \<Rightarrow> length kvs = length kws \<and>
          list_all (\<lambda>(k, f). case map_of kws k of None \<Rightarrow> False | Some w \<Rightarrow> f w)
            (map (map_prod id py_eq) kvs)
      | _ \<Rightarrow> False)"

text \<open>Truth value (\<open>if v\<close>, \<open>v or d\<close>).\<close>

fun py_truth :: "py \<Rightarrow> bool" where
  "py_truth PNone = False"
| "py_truth (PBool b) = b"
| "py_truth (PInt i) = (i \<noteq> 0)"
| "py_truth (PFloat f) = (flt_val f \<noteq> Some 0)"
| "py_truth (PStr s) = (s \<noteq> [])"
| "py_truth (PList xs) = (xs \<noteq> [])"
| "py_truth (PDict kvs) = (kvs \<noteq> [])"

text \<open>\<open>isinstance(v, int)\<close> and the integer it then stands for: \<open>True\<close> is 1.\<close>

fun as_int :: "py \<Rightarrow> int option" where
  "as_int (PBool b) = Some (if b then 1 else 0)"
| "as_int (PInt i) = Some i"
| "as_int _ = None"

definition is_int :: "py \<Rightarrow> bool" where
  "is_int v = (as_int v \<noteq> None)"

fun is_list :: "py \<Rightarrow> bool" where
  "is_list (PList _) = True"
| "is_list _ = False"

fun is_dict :: "py \<Rightarrow> bool" where
  "is_dict (PDict _) = True"
| "is_dict _ = False"

fun list_of :: "py \<Rightarrow> py list" where
  "list_of (PList xs) = xs"
| "list_of _ = []"

text \<open>Lists and dictionaries cannot be looked up in a set or a dictionary.\<close>

fun hashable :: "py \<Rightarrow> bool" where
  "hashable (PList _) = False"
| "hashable (PDict _) = False"
| "hashable _ = True"

text \<open>The integer a hashable value is equal to, if any: \<open>1.0\<close> and \<open>True\<close> find the key 1.\<close>

definition int_key :: "py \<Rightarrow> int option" where
  "int_key v = (case py_num v of None \<Rightarrow> None
     | Some q \<Rightarrow> if q = of_int (floor q) then Some (floor q) else None)"

subsection \<open>Exceptions (\<open>errors.py\<close>)\<close>

datatype wclass =
    WorkerErrorC
  | ProtocolErrorC
  | UnsupportedOperationC
  | UnsupportedDtypeC
  | GraphValidationErrorC
  | DeviceUnavailableC
  | StaleReferenceC
  | CompileErrorC

fun error_class :: "wclass \<Rightarrow> string" where
  "error_class WorkerErrorC = ''WorkerError''"
| "error_class ProtocolErrorC = ''ProtocolError''"
| "error_class UnsupportedOperationC = ''UnsupportedOperation''"
| "error_class UnsupportedDtypeC = ''UnsupportedDtype''"
| "error_class GraphValidationErrorC = ''GraphValidationError''"
| "error_class DeviceUnavailableC = ''DeviceUnavailable''"
| "error_class StaleReferenceC = ''StaleReference''"
| "error_class CompileErrorC = ''CompileError''"

datatype exn =
    WorkerErr wclass string "(string \<times> py) list"
  | PyErr string string

definition protocol_error :: "string \<Rightarrow> exn" where
  "protocol_error msg = WorkerErr ProtocolErrorC msg []"

definition key_error :: "string \<Rightarrow> exn" where
  "key_error k = PyErr ''KeyError'' k"

definition type_error :: "string \<Rightarrow> exn" where
  "type_error m = PyErr ''TypeError'' m"

definition attribute_error :: "string \<Rightarrow> exn" where
  "attribute_error m = PyErr ''AttributeError'' m"

subsection \<open>Reading dictionaries\<close>

definition py_get :: "py \<Rightarrow> string \<Rightarrow> py \<Rightarrow> exn + py" where
  "py_get v k d = (case v of
     PDict kvs \<Rightarrow> Inr (case map_of kvs k of None \<Rightarrow> d | Some w \<Rightarrow> w)
   | _ \<Rightarrow> Inl (attribute_error ''get''))"

definition py_item :: "py \<Rightarrow> string \<Rightarrow> exn + py" where
  "py_item v k = (case v of
     PDict kvs \<Rightarrow> (case map_of kvs k of None \<Rightarrow> Inl (key_error k) | Some w \<Rightarrow> Inr w)
   | _ \<Rightarrow> Inl (type_error ''not subscriptable by a string''))"

definition has_key :: "py \<Rightarrow> string \<Rightarrow> bool" where
  "has_key v k = (case v of PDict kvs \<Rightarrow> map_of kvs k \<noteq> None | _ \<Rightarrow> False)"

definition py_or :: "py \<Rightarrow> py \<Rightarrow> py" where
  "py_or a b = (if py_truth a then a else b)"

text \<open>The dictionary field a successful \<open>get\<close> or subscript reads.\<close>

definition field :: "py \<Rightarrow> string \<Rightarrow> py" where
  "field v k = (case v of PDict kvs \<Rightarrow> (case map_of kvs k of None \<Rightarrow> PNone | Some w \<Rightarrow> w) | _ \<Rightarrow> PNone)"

lemma py_get_dict: "is_dict v \<Longrightarrow> py_get v k PNone = Inr (field v k)"
  by (cases v) (auto simp: py_get_def field_def)

lemma py_get_eq_Inr [raises]: "py_get v k PNone = Inr w \<longleftrightarrow> is_dict v \<and> w = field v k"
  by (cases v) (auto simp: py_get_def field_def)

lemma py_item_eq_Inr [raises]: "py_item v k = Inr w \<longleftrightarrow> has_key v k \<and> w = field v k"
  by (cases v) (auto simp: py_item_def field_def has_key_def split: option.splits)

lemma has_key_is_dict: "has_key v k \<Longrightarrow> is_dict v"
  by (cases v) (auto simp: has_key_def)

lemma map_of_size: "map_of kvs k = Some v \<Longrightarrow> size v < Suc (size_list (size_prod (\<lambda>_. 0) size) kvs)"
  by (induction kvs) (auto split: if_splits)

lemma size_field: "is_dict v \<Longrightarrow> size (field v k) \<le> size v"
  by (cases v) (auto simp: field_def split: option.splits dest: map_of_size)

lemma size_py_item: "py_item v k = Inr w \<Longrightarrow> size w < size v"
  by (cases v) (auto simp: py_item_def split: option.splits dest: map_of_size)

lemma size_py_get: "py_get v k PNone = Inr w \<Longrightarrow> w = PNone \<or> size w < size v"
  by (cases v) (auto simp: py_get_def split: option.splits dest: map_of_size)

lemma size_list_of: "x \<in> set (list_of v) \<Longrightarrow> size x < size v"
  by (cases v) (auto dest: size_list_estimation' intro: size_list_estimation'[THEN le_imp_less_Suc])

lemma int_key_as_int: "as_int v = Some i \<Longrightarrow> int_key v = Some i"
  by (cases v) (auto simp: int_key_def split: if_splits)

lemma is_int_hashable: "is_int v \<Longrightarrow> hashable v"
  by (cases v) (auto simp: is_int_def)

lemma py_eq_str [simp]: "py_eq v (PStr s) \<longleftrightarrow> v = PStr s"
proof (cases v)
  case (PFloat f)
  then show ?thesis by (cases f) auto
qed auto

end
