(* ===== verification/Dtype.thy ===== *)
theory Dtype
  imports PyVal
begin

text \<open>
  Dtype names (\<open>priv/worker/dtype.py\<close>): the table from the stable names to numpy dtypes, the one to
  tinygrad dtypes and the complex component table. A name comes from a request, so it is a Python
  value: an unhashable one raises \<open>TypeError\<close> at the table lookup, an unknown one
  \<open>UnsupportedDtype\<close>. The numpy dtypes are numpy's own; \<open>np_itemsize\<close> is their documented width.
\<close>

datatype npdtype =
    Float16 | Float32 | Float64 | Complex64 | Complex128
  | Int8 | Int16 | Int32 | Int64 | UInt8 | UInt16 | UInt32 | UInt64

datatype tgdtype =
    TgFloat16 | TgFloat32 | TgFloat64 | TgBFloat16
  | TgInt8 | TgInt16 | TgInt32 | TgInt64 | TgUInt8 | TgUInt16 | TgUInt32 | TgUInt64 | TgBool

fun np_itemsize :: "npdtype \<Rightarrow> nat" where
  "np_itemsize Float16 = 2"
| "np_itemsize Float32 = 4"
| "np_itemsize Float64 = 8"
| "np_itemsize Complex64 = 8"
| "np_itemsize Complex128 = 16"
| "np_itemsize Int8 = 1"
| "np_itemsize Int16 = 2"
| "np_itemsize Int32 = 4"
| "np_itemsize Int64 = 8"
| "np_itemsize UInt8 = 1"
| "np_itemsize UInt16 = 2"
| "np_itemsize UInt32 = 4"
| "np_itemsize UInt64 = 8"

definition NUMPY :: "(string \<times> npdtype) list" where
  "NUMPY =
    [(''f32'', Float32), (''f16'', Float16), (''f64'', Float64), (''bf16'', UInt16),
     (''c64'', Complex64), (''c128'', Complex128),
     (''s8'', Int8), (''s16'', Int16), (''s32'', Int32), (''s64'', Int64),
     (''u8'', UInt8), (''u16'', UInt16), (''u32'', UInt32), (''u64'', UInt64)]"

definition TINYGRAD :: "(string \<times> tgdtype) list" where
  "TINYGRAD =
    [(''f32'', TgFloat32), (''f16'', TgFloat16), (''f64'', TgFloat64), (''bf16'', TgBFloat16),
     (''s8'', TgInt8), (''s16'', TgInt16), (''s32'', TgInt32), (''s64'', TgInt64),
     (''u8'', TgUInt8), (''u16'', TgUInt16), (''u32'', TgUInt32), (''u64'', TgUInt64)]"

definition COMPLEX_COMPONENT :: "(string \<times> string) list" where
  "COMPLEX_COMPONENT = [(''c64'', ''f32''), (''c128'', ''f64'')]"

definition REQUIRED :: "string list" where
  "REQUIRED = [''f32'', ''s32'', ''u8'']"

text \<open>\<open>table[name]\<close> for a name that may be any Python value.\<close>

definition table_find :: "(string \<times> 'a) list \<Rightarrow> py \<Rightarrow> exn + 'a option" where
  "table_find tab name =
     (if hashable name then Inr (case name of PStr s \<Rightarrow> map_of tab s | _ \<Rightarrow> None)
      else Inl (type_error ''unhashable type''))"

definition unsupported_dtype :: exn where
  "unsupported_dtype = WorkerErr UnsupportedDtypeC ''unsupported dtype: {name!r}'' []"

definition numpy_dtype :: "py \<Rightarrow> exn + npdtype" where
  "numpy_dtype name = rbind (table_find NUMPY name) (\<lambda>r.
     case r of None \<Rightarrow> Inl unsupported_dtype | Some d \<Rightarrow> Inr d)"

definition tinygrad_dtype :: "py \<Rightarrow> exn + tgdtype" where
  "tinygrad_dtype name = rbind (table_find TINYGRAD name) (\<lambda>r.
     case r of None \<Rightarrow> Inl unsupported_dtype | Some d \<Rightarrow> Inr d)"

definition is_complex :: "py \<Rightarrow> exn + bool" where
  "is_complex name = rbind (table_find COMPLEX_COMPONENT name) (\<lambda>r. Inr (r \<noteq> None))"

definition component_dtype :: "py \<Rightarrow> exn + string" where
  "component_dtype name = rbind (table_find COMPLEX_COMPONENT name) (\<lambda>r.
     case r of None \<Rightarrow> Inl (key_error ''name'') | Some d \<Rightarrow> Inr d)"

definition itemsize :: "py \<Rightarrow> exn + nat" where
  "itemsize name = rbind (numpy_dtype name) (\<lambda>d. Inr (np_itemsize d))"

definition is_supported :: "py \<Rightarrow> exn + bool" where
  "is_supported name = rbind (table_find NUMPY name) (\<lambda>r. Inr (r \<noteq> None))"

subsection \<open>The same on names\<close>

text \<open>The supported names, and what the tables say of one; a validated graph carries nothing else.\<close>

definition dtype_name :: "string \<Rightarrow> bool" where
  "dtype_name s = (map_of NUMPY s \<noteq> None)"

definition complex_name :: "string \<Rightarrow> bool" where
  "complex_name s = (map_of COMPLEX_COMPONENT s \<noteq> None)"

definition name_itemsize :: "string \<Rightarrow> nat" where
  "name_itemsize s = (case map_of NUMPY s of None \<Rightarrow> 0 | Some d \<Rightarrow> np_itemsize d)"

lemma is_supported_eq_Inr [raises]:
  "is_supported v = Inr b \<longleftrightarrow> hashable v \<and> b = (\<exists>s. v = PStr s \<and> dtype_name s)"
  by (cases v) (auto simp: is_supported_def table_find_def dtype_name_def)

lemma is_complex_str [simp]: "is_complex (PStr s) = Inr (complex_name s)"
  by (simp add: is_complex_def table_find_def complex_name_def)

lemma itemsize_str: "dtype_name s \<Longrightarrow> itemsize (PStr s) = Inr (name_itemsize s)"
  by (auto simp: itemsize_def numpy_dtype_def table_find_def dtype_name_def name_itemsize_def)

lemma NUMPY_fst: "dtype_name s \<longleftrightarrow> s \<in> set (map fst NUMPY)"
  by (simp add: dtype_name_def map_of_eq_None_iff)

text \<open>
  C13. The three tables agree. A name is supported exactly when its item size is defined; a supported
  name has a tinygrad dtype exactly when it is not complex; and a complex name's component is a
  supported real name of half its item size, so a complex tensor stored with a trailing
  [real, imag] axis occupies the bytes its wire form does.
\<close>
theorem dtype_tables_agree:
  "is_supported (PStr s) = Inr (\<exists>n. itemsize (PStr s) = Inr n) \<and>
   (dtype_name s \<longrightarrow> ((\<exists>d. tinygrad_dtype (PStr s) = Inr d) \<longleftrightarrow> is_complex (PStr s) = Inr False)) \<and>
   (is_complex (PStr s) = Inr True \<longrightarrow>
      (\<exists>c n. component_dtype (PStr s) = Inr c \<and> is_complex (PStr c) = Inr False \<and>
         is_supported (PStr c) = Inr True \<and> itemsize (PStr c) = Inr n \<and> itemsize (PStr s) = Inr (2 * n)))"
proof (intro conjI)
  show "is_supported (PStr s) = Inr (\<exists>n. itemsize (PStr s) = Inr n)"
    by (auto simp: is_supported_def itemsize_def numpy_dtype_def table_find_def split: option.splits)
  show "dtype_name s \<longrightarrow> ((\<exists>d. tinygrad_dtype (PStr s) = Inr d) \<longleftrightarrow> is_complex (PStr s) = Inr False)"
    by (simp add: NUMPY_fst NUMPY_def tinygrad_dtype_def table_find_def TINYGRAD_def complex_name_def
        COMPLEX_COMPONENT_def)
  show "is_complex (PStr s) = Inr True \<longrightarrow> (\<exists>c n. component_dtype (PStr s) = Inr c \<and> is_complex (PStr c) = Inr False
          \<and> is_supported (PStr c) = Inr True \<and> itemsize (PStr c) = Inr n \<and> itemsize (PStr s) = Inr (2 * n))"
    by (auto simp: complex_name_def COMPLEX_COMPONENT_def component_dtype_def table_find_def
        is_supported_def itemsize_def numpy_dtype_def NUMPY_def split: if_splits)
qed

theorem dtype_tables_agree_witness:
  "(\<exists>d. tinygrad_dtype (PStr ''f32'') = Inr d) \<and> itemsize (PStr ''c64'') = Inr 8"
  using dtype_tables_agree [of "''f32''"] dtype_tables_agree [of "''c64''"]
  by (simp add: dtype_name_def NUMPY_def complex_name_def COMPLEX_COMPONENT_def component_dtype_def
      table_find_def itemsize_def numpy_dtype_def)

end
