(* ===== verification/Tensor.thy ===== *)
theory Tensor
  imports Dtype
begin

text \<open>
  The vocabulary in which the worker drives tinygrad and numpy. Neither library is part of the
  repository, so both are parameters: a record \<open>tg\<close> of functions for tinygrad (one function for all
  the \<open>Tensor\<close> methods and operators, selected by the constructors of \<open>tgcall\<close>, and the observations
  \<open>shape\<close>, \<open>dtype\<close>, \<open>item()\<close>, \<open>uop.base.realized\<close>,
  \<open>id(uop.base)\<close> and \<open>a.uop is b.uop\<close>), a record \<open>host\<close> for the numpy arrays on the
  wire. A tensor is a value of the parameter type \<open>'t\<close>. What each call computes is left open here; the
  theories that prove something of a result name the laws they rely on.
  The rest is the Python the translation is written in: list indexing with negative positions,
  integers and lists read from a node's attributes, and the wire conversions of
  \<open>priv/worker/dtype.py\<close>.
\<close>

subsection \<open>Scalars, symbolic integers and indices\<close>

text \<open>
  A Python number used in a tensor expression: an integer, a float written as the rational its
  expression denotes (\<open>1 / 6\<close>, \<open>2.81022636e-08\<close>), a rational multiple of \<open>math.pi\<close>, an infinity or NaN.
\<close>

datatype scalar = SInt int | SRat rat | SPi rat | SInf bool | SNaN

text \<open>
  A size or position: a number, or \<open>k * v + c\<close> for a tinygrad \<open>Variable\<close> of that name and upper bound,
  bound to \<open>v\<close>.
\<close>

datatype sint = Lit int | Var string int int int int

fun sint_val :: "sint \<Rightarrow> int" where
  "sint_val (Lit i) = i"
| "sint_val (Var _ _ v k c) = k * v + c"

fun sint_add :: "sint \<Rightarrow> int \<Rightarrow> sint" where
  "sint_add (Lit i) j = Lit (i + j)"
| "sint_add (Var x hi v k c) j = Var x hi v k (c + j)"

fun sint_rsub :: "int \<Rightarrow> sint \<Rightarrow> sint" where
  "sint_rsub j (Lit i) = Lit (j - i)"
| "sint_rsub j (Var x hi v k c) = Var x hi v (- k) (j - c)"

lemma sint_val_add [simp]: "sint_val (sint_add s j) = sint_val s + j"
  by (cases s) auto

lemma sint_val_rsub [simp]: "sint_val (sint_rsub j s) = j - sint_val s"
  by (cases s) (auto simp: algebra_simps)

text \<open>One position of \<open>t[...]\<close>: an integer, \<open>slice(start, stop, step)\<close>, or \<open>...\<close>.\<close>

datatype index = At int | Slice "int option" "int option" "int option" | Dots

subsection \<open>tinygrad\<close>

text \<open>
  The methods and operators, with the arguments that are not tensors. \<open>Unary\<close> and \<open>Binary\<close> carry the
  method or operator name; \<open>BinaryR\<close> and \<open>BinaryL\<close> are \<open>t op s\<close> and \<open>s op t\<close> for a number \<open>s\<close>;
  \<open>Where\<close> names the branches that are numbers; \<open>Gather\<close> is indexing by a tensor. A \<open>dilation=1\<close> of \<open>Pool\<close> is the list of that one number.
\<close>

datatype tgcall =
    Unary string
  | Binary string
  | BinaryR string scalar
  | BinaryL string scalar
  | Where "scalar option" "scalar option"
  | Cast tgdtype
  | Bitcast tgdtype
  | Reshape "int list"
  | Expand "int list"
  | Permute "int list"
  | Transpose int int
  | Flip "int list"
  | Pad "(sint \<times> sint) list" scalar
  | Shrink "(sint \<times> sint) list"
  | Index "index list"
  | Gather
  | Cat int
  | Reduce string "int list" bool
  | ArgReduce string "int option" bool
  | Sort int bool
  | Argsort int bool
  | Pool "int list" "int list" "int list"
  | Conv2d int "int list" "int list"
  | Einsum string
  | Matmul
  | Scatter int
  | ScatterSum int
  | Arange int
  | Zeros int tgdtype
  | Full "int list" scalar tgdtype string
  | Const scalar tgdtype string
  | Clone
  | Contiguous
  | Realize

record 't tg =
  call :: "tgcall \<Rightarrow> 't list \<Rightarrow> exn + 't"
  shp :: "'t \<Rightarrow> int list"
  dt :: "'t \<Rightarrow> tgdtype"
  item :: "'t \<Rightarrow> exn + py"
  realized :: "'t \<Rightarrow> bool"
  base_id :: "'t \<Rightarrow> nat"
  same_uop :: "'t \<Rightarrow> 't \<Rightarrow> bool"

subsection \<open>Python lists and numbers\<close>

definition index_error :: "'a \<Rightarrow> exn" where
  "index_error _ = PyErr ''IndexError'' ''list index out of range''"

definition py_index :: "nat \<Rightarrow> int \<Rightarrow> nat option" where
  "py_index n i = (if 0 \<le> i \<and> i < int n then Some (nat i)
     else if - int n \<le> i \<and> i < 0 then Some (nat (int n + i)) else None)"

definition lget :: "'a list \<Rightarrow> int \<Rightarrow> exn + 'a" where
  "lget xs i = (case py_index (length xs) i of None \<Rightarrow> Inl (index_error ()) | Some k \<Rightarrow> Inr (xs ! k))"

definition lset :: "'a list \<Rightarrow> int \<Rightarrow> 'a \<Rightarrow> exn + 'a list" where
  "lset xs i v = (case py_index (length xs) i of None \<Rightarrow> Inl (index_error ()) | Some k \<Rightarrow> Inr (xs[k := v]))"

text \<open>\<open>for pos, a in enumerate(perm): inv[a] = pos\<close>\<close>

definition inverse_perm :: "nat \<Rightarrow> int list \<Rightarrow> exn + int list" where
  "inverse_perm n perm =
     rfold (\<lambda>inv (pos, a). lset inv a (int pos)) (replicate n 0) (enumerate 0 perm)"

text \<open>\<open>int(v)\<close>\<close>

definition py_int :: "py \<Rightarrow> exn + int" where
  "py_int v = (case v of
       PBool b \<Rightarrow> Inr (if b then 1 else 0)
     | PInt i \<Rightarrow> Inr i
     | PFloat f \<Rightarrow> (case flt_val f of
           Some q \<Rightarrow> Inr (if 0 \<le> q then floor q else - floor (- q))
         | None \<Rightarrow> Inl (if f = FNaN then PyErr ''ValueError'' ''cannot convert float NaN to integer''
                        else PyErr ''OverflowError'' ''cannot convert float infinity to integer''))
     | _ \<Rightarrow> Inl (type_error ''int() argument''))"

text \<open>A number of the request as an operand.\<close>

definition py_scalar :: "py \<Rightarrow> exn + scalar" where
  "py_scalar v = (case v of
       PBool b \<Rightarrow> Inr (SInt (if b then 1 else 0))
     | PInt i \<Rightarrow> Inr (SInt i)
     | PFloat (FInf neg) \<Rightarrow> Inr (SInf neg)
     | PFloat FNaN \<Rightarrow> Inr SNaN
     | PFloat f \<Rightarrow> (case flt_val f of Some q \<Rightarrow> Inr (SRat q) | None \<Rightarrow> Inr SNaN)
     | _ \<Rightarrow> Inl (type_error ''must be a real number''))"

text \<open>\<open>float(s)\<close> for a number.\<close>

fun as_float :: "scalar \<Rightarrow> scalar" where
  "as_float (SInt i) = SRat (of_int i)"
| "as_float s = s"

subsection \<open>Reading a node\<close>

text \<open>An integer, a list of integers, a list of pairs, as the tensor methods demand them.\<close>

definition to_int :: "py \<Rightarrow> exn + int" where
  "to_int v = (case as_int v of None \<Rightarrow> Inl (type_error ''an integer is required'') | Some i \<Rightarrow> Inr i)"

definition to_list :: "py \<Rightarrow> exn + py list" where
  "to_list v = (case v of PList xs \<Rightarrow> Inr xs | _ \<Rightarrow> Inl (type_error ''object is not iterable''))"

definition to_ints :: "py \<Rightarrow> exn + int list" where
  "to_ints v = rbind (to_list v) (rmap to_int)"

definition to_tuple :: "nat \<Rightarrow> py \<Rightarrow> exn + int list" where
  "to_tuple n v = rbind (to_ints v) (\<lambda>is.
     if length is = n then Inr is else Inl (PyErr ''ValueError'' ''not enough or too many values to unpack''))"

definition to_pairs :: "py \<Rightarrow> exn + (int \<times> int) list" where
  "to_pairs v = rbind (to_list v) (rmap (\<lambda>p. rbind (to_tuple 2 p) (\<lambda>is. Inr (is ! 0, is ! 1))))"

text \<open>An axis that may be \<open>None\<close>.\<close>

definition to_axis :: "py \<Rightarrow> exn + int option" where
  "to_axis v = (if v = PNone then Inr None else rbind (to_int v) (\<lambda>i. Inr (Some i)))"

text \<open>\<open>node["attrs"][k]\<close>, the node's operation and its input ids.\<close>

definition attr :: "py \<Rightarrow> string \<Rightarrow> exn + py" where
  "attr node k = rbind (py_item node ''attrs'') (\<lambda>attrs. py_item attrs k)"

definition attr_ints :: "py \<Rightarrow> string \<Rightarrow> exn + int list" where
  "attr_ints node k = rbind (attr node k) to_ints"

definition node_op :: "py \<Rightarrow> exn + py" where
  "node_op node = py_item node ''op''"

definition to_key :: "py \<Rightarrow> exn + int" where
  "to_key ref = (if \<not> hashable ref then Inl (type_error ''unhashable type'')
     else (case int_key ref of None \<Rightarrow> Inl (key_error ''id'') | Some k \<Rightarrow> Inr k))"

definition node_inputs :: "py \<Rightarrow> exn + py list" where
  "node_inputs node = rbind (py_item node ''inputs'') to_list"

definition node_shape :: "py \<Rightarrow> exn + int list" where
  "node_shape node = rbind (py_item node ''shape'') to_ints"

subsection \<open>Tensor expressions\<close>

text \<open>
  The elementwise code is a set of arithmetic expressions over one or two tensors and numbers.
  \<open>expr\<close> is such an expression and \<open>eval_expr\<close> its evaluation by the operators, innermost first and from
  left to right; a number operand selects the operator's form for numbers.
\<close>

datatype expr =
    Arg nat
  | Num scalar
  | Op1 string expr
  | Op2 string expr expr
  | Sel expr expr expr

datatype 't operand = OpT 't | OpS scalar

definition un :: "'t tg \<Rightarrow> string \<Rightarrow> 't \<Rightarrow> exn + 't" where
  "un T m t = call T (Unary m) [t]"

definition bin :: "'t tg \<Rightarrow> string \<Rightarrow> 't \<Rightarrow> 't \<Rightarrow> exn + 't" where
  "bin T m a b = call T (Binary m) [a, b]"

definition binr :: "'t tg \<Rightarrow> string \<Rightarrow> 't \<Rightarrow> scalar \<Rightarrow> exn + 't" where
  "binr T m a s = call T (BinaryR m s) [a]"

definition binl :: "'t tg \<Rightarrow> string \<Rightarrow> scalar \<Rightarrow> 't \<Rightarrow> exn + 't" where
  "binl T m s a = call T (BinaryL m s) [a]"

text \<open>Operators between two plain numbers or methods of one do not occur in the source.\<close>

definition no_operand :: exn where
  "no_operand = attribute_error ''a tensor operand is required''"

fun apply_where :: "'t tg \<Rightarrow> 't \<Rightarrow> 't operand \<Rightarrow> 't operand \<Rightarrow> exn + 't" where
  "apply_where T c (OpT a) (OpT b) = call T (Where None None) [c, a, b]"
| "apply_where T c (OpT a) (OpS y) = call T (Where None (Some y)) [c, a]"
| "apply_where T c (OpS x) (OpT b) = call T (Where (Some x) None) [c, b]"
| "apply_where T c (OpS x) (OpS y) = call T (Where (Some x) (Some y)) [c]"

fun apply_bin :: "'t tg \<Rightarrow> string \<Rightarrow> 't operand \<Rightarrow> 't operand \<Rightarrow> exn + 't" where
  "apply_bin T m (OpT a) (OpT b) = bin T m a b"
| "apply_bin T m (OpT a) (OpS y) = binr T m a y"
| "apply_bin T m (OpS x) (OpT b) = binl T m x b"
| "apply_bin T m (OpS x) (OpS y) = Inl no_operand"

definition tensor_of :: "'t operand \<Rightarrow> exn + 't" where
  "tensor_of v = (case v of OpT t \<Rightarrow> Inr t | OpS _ \<Rightarrow> Inl no_operand)"

fun eval_expr :: "'t tg \<Rightarrow> 't list \<Rightarrow> expr \<Rightarrow> exn + 't operand" where
  "eval_expr T vs (Arg i) = Inr (OpT (vs ! i))"
| "eval_expr T vs (Num s) = Inr (OpS s)"
| "eval_expr T vs (Op1 m e) = rbind (eval_expr T vs e) (\<lambda>v. rbind (tensor_of v) (\<lambda>t.
     rbind (un T m t) (\<lambda>r. Inr (OpT r))))"
| "eval_expr T vs (Op2 m e f) = rbind (eval_expr T vs e) (\<lambda>a. rbind (eval_expr T vs f) (\<lambda>b.
     rbind (apply_bin T m a b) (\<lambda>r. Inr (OpT r))))"
| "eval_expr T vs (Sel c e f) = rbind (eval_expr T vs c) (\<lambda>cv. rbind (tensor_of cv) (\<lambda>ct.
     rbind (eval_expr T vs e) (\<lambda>a. rbind (eval_expr T vs f) (\<lambda>b.
     rbind (apply_where T ct a b) (\<lambda>r. Inr (OpT r))))))"

definition elementwise :: "'t tg \<Rightarrow> 't list \<Rightarrow> expr \<Rightarrow> exn + 't" where
  "elementwise T vs e = rbind (eval_expr T vs e) tensor_of"

end
