(* ===== verification/Graph.thy ===== *)
theory Graph
  imports Dtype
begin

text \<open>
  Validation of a graph (\<open>priv/worker/graph.py\<close>) on the request's Python values, check by check in
  the source's order, and what an accepted graph satisfies. \<open>wf_graph\<close> is the contract, stated over
  the graph's fields without the loop's state; \<open>validate\<close> accepts exactly the graphs that meet it.
\<close>

subsection \<open>The operation allowlist (\<open>operations.py\<close>)\<close>

definition UNARY_OPS :: "string list" where
  "UNARY_OPS =
    [''negate'', ''abs'', ''exp'', ''expm1'', ''log'', ''log1p'', ''sqrt'', ''rsqrt'', ''tanh'', ''sigmoid'',
     ''sin'', ''cos'', ''tan'', ''asin'', ''acos'', ''atan'', ''sinh'', ''cosh'', ''asinh'', ''acosh'',
     ''atanh'', ''erf'', ''erfc'', ''erf_inv'', ''conjugate'', ''cbrt'', ''sign'', ''round'', ''is_nan'',
     ''is_infinity'', ''bitwise_not'', ''floor'', ''ceil'']"

definition BINARY_OPS :: "string list" where
  "BINARY_OPS =
    [''add'', ''subtract'', ''multiply'', ''divide'', ''pow'', ''max'', ''min'', ''remainder'', ''quotient'',
     ''atan2'', ''bitwise_and'', ''bitwise_or'', ''bitwise_xor'', ''left_shift'', ''right_shift'',
     ''logical_and'', ''logical_or'', ''logical_xor'']"

definition COMPARISON_OPS :: "string list" where
  "COMPARISON_OPS = [''equal'', ''not_equal'', ''less'', ''less_equal'', ''greater'', ''greater_equal'']"

definition SUPPORTED_OPS :: "string list" where
  "SUPPORTED_OPS = UNARY_OPS @ BINARY_OPS @ COMPARISON_OPS @
    [''select'', ''sum'', ''product'', ''reduce_max'', ''reduce_min'', ''all'', ''any'', ''argmax'', ''argmin'',
     ''window_sum'', ''window_max'', ''window_min'', ''window_product'',
     ''window_scatter_max'', ''window_scatter_min'',
     ''count_leading_zeros'', ''population_count'',
     ''reshape'', ''squeeze'', ''broadcast'', ''transpose'', ''reverse'', ''concatenate'', ''slice'',
     ''as_type'', ''bitcast'', ''dot'', ''conv'',
     ''triangular_solve'',
     ''pad'', ''sort'', ''argsort'', ''gather'', ''iota'', ''clip'', ''stack'', ''eye'',
     ''put_slice'', ''indexed_add'', ''indexed_put'',
     ''while'',
     ''fft'', ''ifft'', ''real'', ''imag'',
     ''reduce'', ''window_reduce'']"

definition op_supported :: "py \<Rightarrow> exn + bool" where
  "op_supported op =
     (if hashable op then Inr (case op of PStr s \<Rightarrow> s \<in> set SUPPORTED_OPS | _ \<Rightarrow> False)
      else Inl (type_error ''unhashable type''))"

subsection \<open>Checks\<close>

definition MAX_NODES :: nat where
  "MAX_NODES = 200000"

definition MAX_RANK :: nat where
  "MAX_RANK = 16"

definition GRAPH_VERSION :: int where
  "GRAPH_VERSION = 1"

definition gcheck :: "bool \<Rightarrow> string \<Rightarrow> (string \<times> py) list \<Rightarrow> exn + unit" where
  "gcheck c msg details = ensure c (WorkerErr GraphValidationErrorC msg details)"

lemma gcheck_eq_Inr [raises]: "gcheck c msg d = Inr u \<longleftrightarrow> c"
  by (simp add: gcheck_def raises)

text \<open>\<open>isinstance(v, int) and v >= 0\<close>\<close>

definition nonneg_int :: "py \<Rightarrow> bool" where
  "nonneg_int v = (case as_int v of None \<Rightarrow> False | Some i \<Rightarrow> 0 \<le> i)"

definition int_of :: "py \<Rightarrow> int" where
  "int_of v = (case as_int v of None \<Rightarrow> 0 | Some i \<Rightarrow> i)"

definition valid_shape :: "py \<Rightarrow> bool" where
  "valid_shape shape =
     (is_list shape \<and> length (list_of shape) \<le> MAX_RANK \<and> list_all nonneg_int (list_of shape))"

definition shape_prod :: "py \<Rightarrow> int" where
  "shape_prod shape = prod_list (map int_of (list_of shape))"

definition graph_keys :: "string list" where
  "graph_keys = [''inputs'', ''constants'', ''nodes'', ''outputs'']"

lemma size_subgraph_field:
  assumes "py_item sub ''nodes'' = Inr nodes" and "node \<in> set (list_of nodes)"
    and "py_item node k = Inr attrs" and "py_get attrs k' PNone = Inr v"
  shows "size v < size sub"
  using size_py_item [OF assms(1)] size_list_of [OF assms(2)] size_py_item [OF assms(3)]
    size_py_get [OF assms(4)] by auto

function validate_subgraph :: "py \<Rightarrow> exn + unit" where
  "validate_subgraph sub =
     rbind (gcheck (is_dict sub) ''while sub-graph must be an object'' []) (\<lambda>_.
     rbind (riter (\<lambda>key. rbind (py_get sub key PNone) (\<lambda>v.
              gcheck (is_list v) ''while sub-graph.{key} must be a list'' [])) graph_keys) (\<lambda>_.
     rbind (py_item sub ''outputs'') (\<lambda>outs.
     rbind (gcheck (1 \<le> length (list_of outs)) ''while sub-graph must have at least one output'' []) (\<lambda>_.
     rbind (py_item sub ''nodes'') (\<lambda>nodes.
     riter (\<lambda>node.
       rbind (py_get node ''op'' PNone) (\<lambda>op.
       rbind (op_supported op) (\<lambda>ok.
       rbind (gcheck ok ''unsupported Nx operation: {op}'' [(''op'', op)]) (\<lambda>_.
       if op = PStr ''while'' then
         rbind (py_item node ''attrs'') (\<lambda>attrs.
         rbind (py_get attrs ''cond'' PNone) (\<lambda>cond.
         rbind (validate_subgraph cond) (\<lambda>_.
         rbind (py_item node ''attrs'') (\<lambda>attrs'.
         rbind (py_get attrs' ''body'' PNone) (\<lambda>body.
         validate_subgraph body)))))
       else Inr ())))) (list_of nodes))))))"
  by pat_completeness auto

termination
  by (relation "measure size") (auto intro: size_subgraph_field)

declare validate_subgraph.simps [simp del]

subsection \<open>validate\<close>

text \<open>The ids defined so far, and the shape and dtype of each.\<close>

type_synonym vstate = "int set \<times> (int \<rightharpoonup> py \<times> py)"

definition define_id :: "string \<Rightarrow> py \<Rightarrow> int set \<Rightarrow> exn + int set" where
  "define_id entity ident defined =
     rbind (gcheck (nonneg_int ident) (''invalid id in '' @ entity) [(''id'', ident)]) (\<lambda>_.
     rbind (gcheck (int_of ident \<notin> defined) (''duplicate id {ident} in '' @ entity) []) (\<lambda>_.
     Inr (insert (int_of ident) defined)))"

text \<open>The shape and dtype checks an input, a constant, a while output and a node share.\<close>

definition check_spec :: "string \<Rightarrow> py \<Rightarrow> exn + (py \<times> py)" where
  "check_spec entity ent =
     rbind (py_get ent ''shape'' PNone) (\<lambda>shape.
     rbind (gcheck (valid_shape shape) (''invalid '' @ entity @ '' shape'') [(''shape'', shape)]) (\<lambda>_.
     rbind (py_get ent ''dtype'' PNone) (\<lambda>dt.
     rbind (is_supported dt) (\<lambda>ok.
     rbind (gcheck ok (''unsupported '' @ entity @ '' dtype: {dtype}'') []) (\<lambda>_.
     Inr (shape, dt))))))"

definition validate_input :: "vstate \<Rightarrow> py \<Rightarrow> exn + vstate" where
  "validate_input st inp =
     rbind (py_get inp ''id'' PNone) (\<lambda>ident.
     rbind (define_id ''input'' ident (fst st)) (\<lambda>defined.
     rbind (py_get inp ''index'' PNone) (\<lambda>idx.
     rbind (gcheck (nonneg_int idx) ''input index must be a non-negative int'' []) (\<lambda>_.
     rbind (check_spec ''input'' inp) (\<lambda>spec.
     Inr (defined, (snd st)(int_of ident \<mapsto> spec)))))))"

definition validate_data :: "'b list list \<Rightarrow> py \<Rightarrow> py \<times> py \<Rightarrow> exn + unit" where
  "validate_data blobs const spec =
     (let has_value = has_key const ''value''; has_data = has_key const ''data_index'';
          di = field const ''data_index'' in
      rbind (gcheck (has_value \<noteq> has_data) ''constant must have exactly one of value/data_index'' []) (\<lambda>_.
      if has_data then
        rbind (gcheck (nonneg_int di \<and> int_of di < int (length blobs))
                 ''constant data_index out of range'' [(''data_index'', di)]) (\<lambda>_.
        rbind (itemsize (snd spec)) (\<lambda>sz.
        (let expected = shape_prod (fst spec) * int sz; actual = int (length (blobs ! nat (int_of di))) in
         gcheck (actual = expected) ''constant blob byte size mismatch''
           [(''expected'', PInt expected), (''actual'', PInt actual)])))
      else Inr ()))"

definition validate_constant :: "'b list list \<Rightarrow> vstate \<Rightarrow> py \<Rightarrow> exn + vstate" where
  "validate_constant blobs st const =
     rbind (py_get const ''id'' PNone) (\<lambda>ident.
     rbind (define_id ''constant'' ident (fst st)) (\<lambda>defined.
     rbind (check_spec ''constant'' const) (\<lambda>spec.
     rbind (validate_data blobs const spec) (\<lambda>_.
     Inr (defined, (snd st)(int_of ident \<mapsto> spec))))))"

text \<open>\<open>ref in defined\<close>\<close>

definition id_defined :: "py \<Rightarrow> int set \<Rightarrow> exn + bool" where
  "id_defined ref defined =
     (if hashable ref then Inr (case int_key ref of None \<Rightarrow> False | Some k \<Rightarrow> k \<in> defined)
      else Inl (type_error ''unhashable type''))"

text \<open>One entity that defines an id with a shape and a dtype: a while output or a plain node.\<close>

definition validate_entity :: "string \<Rightarrow> vstate \<Rightarrow> py \<Rightarrow> exn + vstate" where
  "validate_entity entity st ent =
     rbind (py_get ent ''id'' PNone) (\<lambda>ident.
     rbind (define_id entity ident (fst st)) (\<lambda>defined.
     rbind (check_spec entity ent) (\<lambda>spec.
     Inr (defined, (snd st)(int_of ident \<mapsto> spec)))))"

definition validate_node :: "vstate \<Rightarrow> py \<Rightarrow> exn + vstate" where
  "validate_node st node =
     rbind (py_get node ''op'' PNone) (\<lambda>op.
     rbind (op_supported op) (\<lambda>ok.
     rbind (gcheck ok ''unsupported Nx operation: {op}'' [(''op'', op)]) (\<lambda>_.
     rbind (py_get node ''inputs'' PNone) (\<lambda>inputs.
     rbind (gcheck (is_list inputs) ''node inputs must be a list'' []) (\<lambda>_.
     rbind (riter (\<lambda>ref. rbind (id_defined ref (fst st)) (\<lambda>b.
              gcheck b ''node references undefined id {ref}'' [])) (list_of inputs)) (\<lambda>_.
     rbind (py_get node ''attrs'' PNone) (\<lambda>attrs.
     rbind (gcheck (is_dict attrs) ''node attrs must be an object'' []) (\<lambda>_.
     if op = PStr ''while'' then
       rbind (py_get node ''outputs'' PNone) (\<lambda>outs.
       rbind (gcheck (is_list outs \<and> 1 \<le> length (list_of outs)) ''while node must have outputs'' []) (\<lambda>_.
       rbind (rfold (validate_entity ''while output'') st (list_of outs)) (\<lambda>st'.
       rbind (py_get attrs ''cond'' PNone) (\<lambda>cond.
       rbind (validate_subgraph cond) (\<lambda>_.
       rbind (py_get attrs ''body'' PNone) (\<lambda>body.
       rbind (validate_subgraph body) (\<lambda>_.
       Inr st')))))))
     else
       rbind (validate_entity ''node'' st node) (\<lambda>st'.
       if op \<in> {PStr ''reduce'', PStr ''window_reduce''} then
         rbind (py_get attrs ''fn'' PNone) (\<lambda>fn.
         rbind (validate_subgraph fn) (\<lambda>_.
         Inr st'))
       else Inr st')))))))))"

definition validate_output :: "vstate \<Rightarrow> py \<Rightarrow> exn + unit" where
  "validate_output st out =
     rbind (py_get out ''node'' PNone) (\<lambda>ref.
     rbind (id_defined ref (fst st)) (\<lambda>b.
     rbind (gcheck b ''output references undefined id {node}'' []) (\<lambda>_.
     rbind (check_spec ''output'' out) (\<lambda>spec.
     (case Option.bind (int_key ref) (snd st) of
        None \<Rightarrow> Inl (key_error ''node'')
      | Some (expected_shape, expected_dtype) \<Rightarrow>
          rbind (gcheck (py_eq (fst spec) expected_shape) ''output shape does not match referenced node'' []) (\<lambda>_.
          gcheck (py_eq (snd spec) expected_dtype) ''output dtype does not match referenced node'' []))))))"

definition validate :: "py \<Rightarrow> 'b list list \<Rightarrow> nat \<Rightarrow> exn + unit" where
  "validate graph blobs max_nodes =
     rbind (gcheck (is_dict graph) ''graph must be an object'' []) (\<lambda>_.
     rbind (py_get graph ''version'' PNone) (\<lambda>version.
     rbind (gcheck (py_eq version (PInt GRAPH_VERSION)) ''unsupported graph version: {version}'' []) (\<lambda>_.
     rbind (riter (\<lambda>key. rbind (py_get graph key PNone) (\<lambda>v.
              gcheck (is_list v) (''graph.'' @ key @ '' must be a list'') [])) graph_keys) (\<lambda>_.
     rbind (py_item graph ''nodes'') (\<lambda>nodes.
     rbind (gcheck (length (list_of nodes) \<le> max_nodes) ''graph exceeds maximum node count''
              [(''limit'', PInt (int max_nodes))]) (\<lambda>_.
     rbind (py_item graph ''inputs'') (\<lambda>inputs.
     rbind (rfold validate_input ({}, Map.empty) (list_of inputs)) (\<lambda>st1.
     rbind (gcheck (distinct (map (\<lambda>inp. int_of (field inp ''index'')) (list_of inputs)))
              ''input indices must be unique'' []) (\<lambda>_.
     rbind (py_item graph ''constants'') (\<lambda>constants.
     rbind (rfold (validate_constant blobs) st1 (list_of constants)) (\<lambda>st2.
     rbind (rfold validate_node st2 (list_of nodes)) (\<lambda>st3.
     rbind (py_item graph ''outputs'') (\<lambda>outputs.
     rbind (gcheck (1 \<le> length (list_of outputs)) ''graph must have at least one output'' []) (\<lambda>_.
     riter (validate_output st3) (list_of outputs)))))))))))))))"

subsection \<open>The contract\<close>

text \<open>An entity with an id, a shape and a dtype.\<close>

definition ent_id :: "py \<Rightarrow> int" where
  "ent_id e = int_of (field e ''id'')"

definition ent_spec :: "py \<Rightarrow> py \<times> py" where
  "ent_spec e = (field e ''shape'', field e ''dtype'')"

definition spec_ok :: "py \<times> py \<Rightarrow> bool" where
  "spec_ok sp = (valid_shape (fst sp) \<and> (\<exists>s. snd sp = PStr s \<and> dtype_name s))"

definition entity_ok :: "py \<Rightarrow> bool" where
  "entity_ok e = (is_dict e \<and> nonneg_int (field e ''id'') \<and> spec_ok (ent_spec e))"

definition input_ok :: "py \<Rightarrow> bool" where
  "input_ok e = (entity_ok e \<and> nonneg_int (field e ''index''))"

text \<open>A constant holds a value, or names a blob of exactly its size in bytes.\<close>

definition constant_ok :: "'b list list \<Rightarrow> py \<Rightarrow> bool" where
  "constant_ok blobs e =
     (entity_ok e \<and> (has_key e ''value'' \<longleftrightarrow> \<not> has_key e ''data_index'') \<and>
      (has_key e ''data_index'' \<longrightarrow>
         (\<exists>i s. as_int (field e ''data_index'') = Some (int i) \<and> i < length blobs \<and>
            field e ''dtype'' = PStr s \<and>
            int (length (blobs ! i)) = shape_prod (field e ''shape'') * int (name_itemsize s))))"

definition op_name :: "py \<Rightarrow> string" where
  "op_name node = (case field node ''op'' of PStr s \<Rightarrow> s | _ \<Rightarrow> [])"

text \<open>The entities a node defines: its outputs when it is a while node, otherwise itself.\<close>

definition node_entities :: "py \<Rightarrow> py list" where
  "node_entities node = (if op_name node = ''while'' then list_of (field node ''outputs'') else [node])"

definition subgraphs :: "py \<Rightarrow> py list" where
  "subgraphs node =
     (let attrs = field node ''attrs'' in
      if op_name node = ''while'' then [field attrs ''cond'', field attrs ''body'']
      else if op_name node \<in> {''reduce'', ''window_reduce''} then [field attrs ''fn''] else [])"

definition node_ok :: "py \<Rightarrow> bool" where
  "node_ok node =
     (is_dict node \<and> field node ''op'' = PStr (op_name node) \<and> op_name node \<in> set SUPPORTED_OPS \<and>
      is_list (field node ''inputs'') \<and> is_dict (field node ''attrs'') \<and>
      (op_name node = ''while'' \<longrightarrow> is_list (field node ''outputs'') \<and> list_of (field node ''outputs'') \<noteq> []) \<and>
      list_all entity_ok (node_entities node) \<and>
      (\<forall>sub \<in> set (subgraphs node). validate_subgraph sub = Inr ()))"

text \<open>An id that a reference denotes: \<open>1\<close>, \<open>1.0\<close> and \<open>True\<close> are the same key.\<close>

definition refers :: "py \<Rightarrow> int set \<Rightarrow> bool" where
  "refers ref ids = (hashable ref \<and> (\<exists>k. int_key ref = Some k \<and> k \<in> ids))"

definition source_entities :: "py \<Rightarrow> py list" where
  "source_entities g = list_of (field g ''inputs'') @ list_of (field g ''constants'')"

definition graph_nodes :: "py \<Rightarrow> py list" where
  "graph_nodes g = list_of (field g ''nodes'')"

text \<open>Everything defined before the node at position \<open>p\<close>.\<close>

definition defined_before :: "py \<Rightarrow> nat \<Rightarrow> py list" where
  "defined_before g p = source_entities g @ concat (map node_entities (take p (graph_nodes g)))"

definition all_entities :: "py \<Rightarrow> py list" where
  "all_entities g = defined_before g (length (graph_nodes g))"

definition output_ok :: "py list \<Rightarrow> py \<Rightarrow> bool" where
  "output_ok ents out =
     (is_dict out \<and> spec_ok (ent_spec out) \<and> hashable (field out ''node'') \<and>
      (\<exists>e \<in> set ents. int_key (field out ''node'') = Some (ent_id e) \<and>
         py_eq (field out ''shape'') (field e ''shape'') \<and> py_eq (field out ''dtype'') (field e ''dtype'')))"

definition wf_graph :: "py \<Rightarrow> 'b list list \<Rightarrow> nat \<Rightarrow> bool" where
  "wf_graph g blobs max_nodes =
     (is_dict g \<and> py_eq (field g ''version'') (PInt GRAPH_VERSION) \<and>
      (\<forall>key \<in> set graph_keys. is_list (field g key)) \<and>
      length (graph_nodes g) \<le> max_nodes \<and>
      list_all input_ok (list_of (field g ''inputs'')) \<and>
      distinct (map (\<lambda>inp. int_of (field inp ''index'')) (list_of (field g ''inputs''))) \<and>
      list_all (constant_ok blobs) (list_of (field g ''constants'')) \<and>
      list_all node_ok (graph_nodes g) \<and>
      distinct (map ent_id (all_entities g)) \<and>
      (\<forall>p < length (graph_nodes g). \<forall>ref \<in> set (list_of (field (graph_nodes g ! p) ''inputs'')).
         refers ref (ent_id ` set (defined_before g p))) \<and>
      list_of (field g ''outputs'') \<noteq> [] \<and>
      list_all (output_ok (all_entities g)) (list_of (field g ''outputs'')))"

subsection \<open>The checks meet the contract\<close>

definition add_entity :: "vstate \<Rightarrow> py \<Rightarrow> vstate" where
  "add_entity st e = (insert (ent_id e) (fst st), (snd st)(ent_id e \<mapsto> ent_spec e))"

definition add_entities :: "vstate \<Rightarrow> py list \<Rightarrow> vstate" where
  "add_entities st es = foldl add_entity st es"

lemma add_entities_simps [simp]:
  "add_entities st [] = st" "add_entities st (e # es) = add_entities (add_entity st e) es"
  "add_entities st (es @ fs) = add_entities (add_entities st es) fs"
  by (simp_all add: add_entities_def)

lemma fst_add_entities: "fst (add_entities st es) = fst st \<union> ent_id ` set es"
  by (induction es arbitrary: st) (auto simp: add_entity_def)

lemma snd_add_entities_other: "k \<notin> ent_id ` set es \<Longrightarrow> snd (add_entities st es) k = snd st k"
  by (induction es arbitrary: st) (auto simp: add_entity_def)

lemma snd_add_entities:
  "distinct (map ent_id es) \<Longrightarrow> e \<in> set es \<Longrightarrow> snd (add_entities st es) (ent_id e) = Some (ent_spec e)"
proof (induction es arbitrary: st)
  case (Cons f es)
  show ?case
  proof (cases "e \<in> set es")
    case True
    with Cons show ?thesis by simp
  next
    case False
    with Cons.prems have "e = f" by simp
    with Cons.prems show ?thesis by (simp add: snd_add_entities_other add_entity_def)
  qed
qed simp

lemma is_list_eq: "is_list v \<longleftrightarrow> v = PList (list_of v)"
  by (cases v) auto

lemma as_int_int_of: "nonneg_int v \<Longrightarrow> as_int v = Some (int_of v) \<and> 0 \<le> int_of v"
  by (auto simp: nonneg_int_def int_of_def split: option.splits)

lemma define_id_eq_Inr [raises]:
  "define_id ent v D = Inr D' \<longleftrightarrow> nonneg_int v \<and> int_of v \<notin> D \<and> D' = insert (int_of v) D"
  by (auto simp: define_id_def raises)

lemma check_spec_eq_Inr [raises]:
  "check_spec ent e = Inr sp \<longleftrightarrow> is_dict e \<and> sp = ent_spec e \<and> spec_ok sp"
  by (auto simp: check_spec_def raises spec_ok_def ent_spec_def)

lemma validate_entity_eq_Inr [raises]:
  "validate_entity ent st e = Inr st' \<longleftrightarrow> entity_ok e \<and> ent_id e \<notin> fst st \<and> st' = add_entity st e"
  by (auto simp: validate_entity_def raises entity_ok_def ent_id_def add_entity_def)

lemma validate_input_eq_Inr [raises]:
  "validate_input st e = Inr st' \<longleftrightarrow> input_ok e \<and> ent_id e \<notin> fst st \<and> st' = add_entity st e"
  by (auto simp: validate_input_def raises input_ok_def entity_ok_def ent_id_def add_entity_def)

lemma index_in_range:
  "nonneg_int v \<and> int_of v < int n \<longleftrightarrow> (\<exists>i. as_int v = Some (int i) \<and> i < n)"
proof
  assume l: "nonneg_int v \<and> int_of v < int n"
  then have "as_int v = Some (int (nat (int_of v)))" "nat (int_of v) < n"
    using as_int_int_of [of v] by auto
  then show "\<exists>i. as_int v = Some (int i) \<and> i < n" by blast
qed (auto simp: nonneg_int_def int_of_def)

lemma validate_data_eq_Inr:
  assumes "entity_ok e"
  shows "validate_data blobs e (ent_spec e) = Inr u \<longleftrightarrow> constant_ok blobs e"
proof -
  from assms obtain s where s: "field e ''dtype'' = PStr s" "dtype_name s"
    by (auto simp: entity_ok_def spec_ok_def ent_spec_def)
  note size = itemsize_str [OF s(2)]
  have io: "as_int v = Some i \<Longrightarrow> int_of v = i" for v i by (simp add: int_of_def)
  show ?thesis
    unfolding validate_data_def constant_ok_def Let_def ent_spec_def snd_conv fst_conv s(1) size
    using assms by (cases "has_key e ''data_index''") (auto simp: raises index_in_range io)
qed

lemma validate_constant_eq_Inr [raises]:
  "validate_constant blobs st e = Inr st' \<longleftrightarrow> constant_ok blobs e \<and> ent_id e \<notin> fst st \<and> st' = add_entity st e"
proof -
  have "constant_ok blobs e \<Longrightarrow> entity_ok e" by (simp add: constant_ok_def)
  then show ?thesis
    using validate_data_eq_Inr [of e blobs]
    by (auto simp: validate_constant_def raises entity_ok_def ent_id_def add_entity_def)
qed

text \<open>A loop whose body accepts one entity and records it.\<close>

lemma rfold_entities:
  assumes "\<And>st e st'. f st e = Inr st' \<longleftrightarrow> P e \<and> ent_id e \<notin> fst st \<and> st' = add_entity st e"
  shows "rfold f st es = Inr st' \<longleftrightarrow> list_all P es \<and> distinct (map ent_id es) \<and>
    ent_id ` set es \<inter> fst st = {} \<and> st' = add_entities st es"
proof (induction es arbitrary: st)
  case (Cons e es)
  have "fst (add_entity st e) = insert (ent_id e) (fst st)" by (simp add: add_entity_def)
  then show ?case by (auto simp: raises assms Cons.IH)
qed auto

lemmas rfold_inputs = rfold_entities [where f = validate_input and P = input_ok, OF validate_input_eq_Inr]
lemmas rfold_constants =
  rfold_entities [where f = "validate_constant blobs" and P = "constant_ok blobs", OF validate_constant_eq_Inr]
  for blobs
lemmas rfold_while_outputs =
  rfold_entities [where f = "validate_entity ent" and P = entity_ok, OF validate_entity_eq_Inr] for ent

lemma id_defined_eq_Inr [raises]:
  "id_defined ref D = Inr b \<longleftrightarrow> hashable ref \<and> b = refers ref D"
  by (auto simp: id_defined_def refers_def split: option.splits)

lemma op_supported_eq_Inr [raises]:
  "op_supported op = Inr b \<longleftrightarrow> hashable op \<and> b = (\<exists>s. op = PStr s \<and> s \<in> set SUPPORTED_OPS)"
  by (cases op) (auto simp: op_supported_def)

lemma op_name_PStr: "field node ''op'' = PStr s \<Longrightarrow> op_name node = s"
  by (simp add: op_name_def)

lemma validate_node_eq_Inr [raises]:
  "validate_node st node = Inr st' \<longleftrightarrow>
     node_ok node \<and> (\<forall>ref \<in> set (list_of (field node ''inputs'')). refers ref (fst st)) \<and>
     distinct (map ent_id (node_entities node)) \<and> ent_id ` set (node_entities node) \<inter> fst st = {} \<and>
     st' = add_entities st (node_entities node)" (is "?l \<longleftrightarrow> ?r")
proof (cases "\<exists>s. field node ''op'' = PStr s")
  case False
  then show ?thesis by (auto simp: validate_node_def raises node_ok_def)
next
  case True
  then obtain s where s: "field node ''op'' = PStr s" ..
  note name = op_name_PStr [OF s]
  have refs: "(\<forall>x \<in> set xs. hashable x \<and> refers x D) \<longleftrightarrow> (\<forall>x \<in> set xs. refers x D)" for xs D
    by (auto simp: refers_def)
  show ?thesis
  proof (cases "s = ''while''")
    case True
    then show ?thesis using s name refs
      by (auto simp: validate_node_def raises rfold_while_outputs node_ok_def node_entities_def subgraphs_def
          Suc_le_eq Let_def)
  next
    case False
    then show ?thesis using s name refs
      by (auto simp: validate_node_def raises node_ok_def node_entities_def subgraphs_def Let_def)
  qed
qed

text \<open>The nodes, in order: each may refer to the sources and to what earlier nodes defined.\<close>

definition nodes_refer :: "int set \<Rightarrow> py list \<Rightarrow> bool" where
  "nodes_refer ids ns = (\<forall>p < length ns. \<forall>ref \<in> set (list_of (field (ns ! p) ''inputs'')).
     refers ref (ids \<union> ent_id ` set (concat (map node_entities (take p ns)))))"

lemma nodes_refer_simps [simp]:
  "nodes_refer ids []"
  "nodes_refer ids (n # ns) \<longleftrightarrow> (\<forall>ref \<in> set (list_of (field n ''inputs'')). refers ref ids) \<and>
     nodes_refer (ids \<union> ent_id ` set (node_entities n)) ns"
  by (simp_all add: nodes_refer_def All_less_Suc2 image_Un Un_assoc)

lemma rfold_nodes [raises]:
  "rfold validate_node st ns = Inr st' \<longleftrightarrow>
     list_all node_ok ns \<and> nodes_refer (fst st) ns \<and>
     distinct (map ent_id (concat (map node_entities ns))) \<and>
     ent_id ` set (concat (map node_entities ns)) \<inter> fst st = {} \<and>
     st' = add_entities st (concat (map node_entities ns))"
proof (induction ns arbitrary: st)
  case (Cons n ns)
  define rest where "rest = concat (map node_entities ns)"
  have disj: "ent_id ` set rest \<inter> (fst st \<union> ent_id ` set (node_entities n)) = {} \<longleftrightarrow>
      ent_id ` set rest \<inter> fst st = {} \<and> ent_id ` set (node_entities n) \<inter> ent_id ` set rest = {}"
    by blast
  show ?case
    by (simp add: rbind_eq_Inr validate_node_eq_Inr Cons.IH fst_add_entities image_Un disj
        flip: rest_def) auto
qed auto

lemma validate_output_eq_Inr [raises]:
  assumes "distinct (map ent_id ents)"
  shows "validate_output (add_entities ({}, Map.empty) ents) out = Inr u \<longleftrightarrow> output_ok ents out"
proof -
  let ?st = "add_entities ({}, Map.empty) ents"
  have look: "k \<in> fst ?st \<longleftrightarrow> (\<exists>e \<in> set ents. k = ent_id e)" for k
    by (auto simp: fst_add_entities)
  have spec: "e \<in> set ents \<Longrightarrow> snd ?st (ent_id e) = Some (ent_spec e)" for e
    using snd_add_entities [OF assms] .
  have uniq: "e \<in> set ents \<Longrightarrow> f \<in> set ents \<Longrightarrow> ent_id e = ent_id f \<Longrightarrow> e = f" for e f
    using assms by (auto simp: distinct_map inj_on_def)
  show ?thesis
    unfolding validate_output_def output_ok_def
    by (auto simp: raises refers_def look spec ent_spec_def split: option.splits bind_splits dest: uniq)
qed

lemma is_list_has_key: "is_list (field g k) \<Longrightarrow> has_key g k"
  by (cases g) (auto simp: field_def has_key_def split: option.splits)

lemma input_constant_entities:
  "distinct (map ent_id (as @ bs)) \<longleftrightarrow>
     distinct (map ent_id as) \<and> distinct (map ent_id bs) \<and> ent_id ` set bs \<inter> ent_id ` set as = {}"
  by auto

lemma sources_then_nodes:
  "distinct (map ent_id (source_entities g @ rest)) \<longleftrightarrow>
     distinct (map ent_id (source_entities g)) \<and> distinct (map ent_id rest) \<and>
     ent_id ` set rest \<inter> ent_id ` set (source_entities g) = {}"
  by auto

lemma all_entities_eq: "all_entities g = source_entities g @ concat (map node_entities (graph_nodes g))"
  by (simp add: all_entities_def defined_before_def)

lemma output_states:
  "distinct (map ent_id ((ins @ cs) @ rest)) \<Longrightarrow>
     validate_output (add_entities (add_entities (add_entities ({}, Map.empty) ins) cs) rest) out = Inr () \<longleftrightarrow>
     output_ok ((ins @ cs) @ rest) out"
  using validate_output_eq_Inr [of "(ins @ cs) @ rest" out "()"] by simp

lemma nodes_refer_graph:
  "nodes_refer (ent_id ` set (source_entities g)) (graph_nodes g) \<longleftrightarrow>
     (\<forall>p < length (graph_nodes g). \<forall>ref \<in> set (list_of (field (graph_nodes g ! p) ''inputs'')).
        refers ref (ent_id ` set (defined_before g p)))"
  by (simp add: nodes_refer_def defined_before_def image_Un)

lemma validate_loops:
  assumes "is_dict g" and "\<forall>key \<in> set graph_keys. is_list (field g key)"
  shows "validate g blobs n = Inr () \<longleftrightarrow>
    py_eq (field g ''version'') (PInt GRAPH_VERSION) \<and> length (graph_nodes g) \<le> n \<and>
    list_all input_ok (list_of (field g ''inputs'')) \<and>
    distinct (map (\<lambda>inp. int_of (field inp ''index'')) (list_of (field g ''inputs''))) \<and>
    list_all (constant_ok blobs) (list_of (field g ''constants'')) \<and> list_all node_ok (graph_nodes g) \<and>
    distinct (map ent_id (all_entities g)) \<and>
    nodes_refer (ent_id ` set (source_entities g)) (graph_nodes g) \<and>
    list_of (field g ''outputs'') \<noteq> [] \<and>
    list_all (output_ok (all_entities g)) (list_of (field g ''outputs''))"
proof -
  define rest where "rest = concat (map node_entities (graph_nodes g))"
  have item: "key \<in> set graph_keys \<Longrightarrow> has_key g key" for key
    using assms by (auto intro: is_list_has_key)
  have items: "py_item g ''inputs'' = Inr (field g ''inputs'')" "py_item g ''constants'' = Inr (field g ''constants'')"
    "py_item g ''nodes'' = Inr (field g ''nodes'')" "py_item g ''outputs'' = Inr (field g ''outputs'')"
    by (simp_all add: py_item_eq_Inr item graph_keys_def)
  have dist: "distinct (map ent_id (all_entities g)) \<longleftrightarrow>
    distinct (map ent_id (list_of (field g ''inputs''))) \<and> distinct (map ent_id (list_of (field g ''constants''))) \<and>
    ent_id ` set (list_of (field g ''constants'')) \<inter> ent_id ` set (list_of (field g ''inputs'')) = {} \<and>
    distinct (map ent_id rest) \<and> ent_id ` set rest \<inter>
      (ent_id ` set (list_of (field g ''inputs'')) \<union> ent_id ` set (list_of (field g ''constants''))) = {}"
    by (auto simp: all_entities_eq source_entities_def rest_def [symmetric])
  have ents: "all_entities g = (list_of (field g ''inputs'') @ list_of (field g ''constants'')) @ rest"
    by (simp add: all_entities_eq source_entities_def rest_def)
  show ?thesis
  proof (cases "distinct (map ent_id (all_entities g))")
    case True
    note out = output_states [OF True [unfolded ents]]
    show ?thesis using True assms
      by (simp add: validate_def items py_get_dict rbind_eq_Inr riter_eq_Inr gcheck_eq_Inr rfold_inputs
          rfold_constants rfold_nodes fst_add_entities image_Un out flip: rest_def graph_nodes_def)
        (auto simp: dist ents list_all_iff Suc_le_eq source_entities_def image_Un)
  next
    case False
    show ?thesis using False assms
      by (simp add: validate_def items py_get_dict rbind_eq_Inr riter_eq_Inr gcheck_eq_Inr rfold_inputs
          rfold_constants rfold_nodes fst_add_entities image_Un flip: rest_def graph_nodes_def)
        (auto simp: dist)
  qed
qed

text \<open>
  C1. The validator accepts a graph exactly when it meets the contract: every id is a fresh
  non-negative integer, every node refers only to inputs, constants and earlier nodes, every
  operation is on the allowlist, shapes and dtypes are valid, a constant has a value or a blob of
  its size, and every output repeats the shape and dtype of the id it refers to.
\<close>

theorem validate_accepts: "validate g blobs n = Inr () \<longleftrightarrow> wf_graph g blobs n"
proof (cases "is_dict g \<and> (\<forall>key \<in> set graph_keys. is_list (field g key))")
  case True
  then show ?thesis
    by (simp add: validate_loops wf_graph_def nodes_refer_graph)
next
  case False
  then show ?thesis by (auto simp: validate_def wf_graph_def raises)
qed

subsection \<open>Sub-graphs\<close>

text \<open>The nodes of a sub-graph that the check visits: its own, and those of nested while loops.\<close>

inductive visited :: "py \<Rightarrow> py \<Rightarrow> bool" where
  own: "n \<in> set (graph_nodes sub) \<Longrightarrow> visited sub n"
| nested: "w \<in> set (graph_nodes sub) \<Longrightarrow> field w ''op'' = PStr ''while'' \<Longrightarrow> part \<in> {''cond'', ''body''} \<Longrightarrow>
    visited (field (field w ''attrs'') part) n \<Longrightarrow> visited sub n"

lemma validate_subgraph_eq_Inr:
  "validate_subgraph sub = Inr u \<longleftrightarrow> is_dict sub \<and> (\<forall>key \<in> set graph_keys. is_list (field sub key)) \<and>
     list_of (field sub ''outputs'') \<noteq> [] \<and>
     (\<forall>n \<in> set (graph_nodes sub). is_dict n \<and> (\<exists>s \<in> set SUPPORTED_OPS. field n ''op'' = PStr s) \<and>
        (field n ''op'' = PStr ''while'' \<longrightarrow> has_key n ''attrs'' \<and> is_dict (field n ''attrs'') \<and>
           validate_subgraph (field (field n ''attrs'') ''cond'') = Inr () \<and>
           validate_subgraph (field (field n ''attrs'') ''body'') = Inr ()))"
proof (cases "is_dict sub \<and> (\<forall>key \<in> set graph_keys. is_list (field sub key))")
  case True
  then have item: "key \<in> set graph_keys \<Longrightarrow> has_key sub key" for key
    by (auto intro: is_list_has_key)
  have items: "py_item sub ''nodes'' = Inr (field sub ''nodes'')" "py_item sub ''outputs'' = Inr (field sub ''outputs'')"
    by (simp_all add: py_item_eq_Inr item graph_keys_def)
  from True have keys: "riter (\<lambda>key. rbind (py_get sub key PNone) (\<lambda>v.
      gcheck (is_list v) ''while sub-graph.{key} must be a list'' [])) graph_keys = Inr ()"
    by (auto simp: raises)
  show ?thesis using True keys
    by (subst validate_subgraph.simps)
      (auto simp: rbind_eq_Inr items gcheck_eq_Inr riter_eq_Inr py_get_eq_Inr py_item_eq_Inr op_supported_eq_Inr
        graph_nodes_def Suc_le_eq)
next
  case False
  then show ?thesis by (subst validate_subgraph.simps) (auto simp: raises)
qed

lemma visited_supported:
  "visited sub n \<Longrightarrow> validate_subgraph sub = Inr () \<Longrightarrow> \<exists>s \<in> set SUPPORTED_OPS. field n ''op'' = PStr s"
proof (induction rule: visited.induct)
  case (own n sub)
  from own.prems own.hyps show ?case by (subst (asm) validate_subgraph_eq_Inr) auto
next
  case (nested w sub part n)
  from nested.prems nested.hyps have "validate_subgraph (field (field w ''attrs'') part) = Inr ()"
    by (subst (asm) validate_subgraph_eq_Inr) auto
  then show ?case by (rule nested.IH)
qed

lemma validate_shape:
  assumes "validate g blobs n = Inr ()"
  shows "is_dict g" and "\<forall>key \<in> set graph_keys. is_list (field g key)"
  using assms by (auto simp: validate_def raises)

lemma accepted_node_ok: "validate g blobs n = Inr () \<Longrightarrow> node \<in> set (graph_nodes g) \<Longrightarrow> node_ok node"
  by (frule validate_loops [OF validate_shape, THEN iffD1]) (auto simp: list_all_iff)

text \<open>
  C3. In an accepted graph no operation outside the allowlist occurs among the nodes of the graph, nor in
  the condition, the body or the function of its nodes, nor in any while loop nested in them.
\<close>

theorem operations_allowlisted:
  assumes "validate g blobs n = Inr ()" and "node \<in> set (graph_nodes g)"
  shows "(\<exists>s \<in> set SUPPORTED_OPS. field node ''op'' = PStr s) \<and>
    (\<forall>sub m. sub \<in> set (subgraphs node) \<longrightarrow> visited sub m \<longrightarrow> (\<exists>s \<in> set SUPPORTED_OPS. field m ''op'' = PStr s))"
proof -
  from assms have "node_ok node" by (rule accepted_node_ok)
  then show ?thesis by (auto simp: node_ok_def intro: visited_supported)
qed

definition demo_sub :: "py \<Rightarrow> py" where
  "demo_sub nodes = PDict [(''inputs'', PList []), (''constants'', PList []), (''nodes'', nodes),
     (''outputs'', PList [PDict [(''node'', PInt 0)]])]"

definition demo_while :: "py \<Rightarrow> py" where
  "demo_while body = PDict [(''op'', PStr ''while''), (''inputs'', PList [PInt 0]),
     (''outputs'', PList [PDict [(''id'', PInt 1), (''shape'', PList []), (''dtype'', PStr ''s32'')]]),
     (''attrs'', PDict [(''cond'', demo_sub (PList [])), (''body'', body)])]"

definition demo_graph :: "py \<Rightarrow> py" where
  "demo_graph body = PDict [(''version'', PInt 1),
     (''inputs'', PList [PDict [(''id'', PInt 0), (''index'', PInt 0), (''shape'', PList []), (''dtype'', PStr ''s32'')]]),
     (''constants'', PList []), (''nodes'', PList [demo_while body]),
     (''outputs'', PList [PDict [(''node'', PInt 1), (''shape'', PList []), (''dtype'', PStr ''s32'')]])]"

theorem operations_allowlisted_witness:
  "(\<exists>s \<in> set SUPPORTED_OPS. field (PDict [(''op'', PStr ''negate'')]) ''op'' = PStr s) \<and>
   visited (demo_sub (PList [PDict [(''op'', PStr ''negate'')]])) (PDict [(''op'', PStr ''negate'')])"
proof -
  let ?neg = "PDict [(''op'', PStr ''negate'')]"
  let ?body = "demo_sub (PList [?neg])"
  have v: "validate (demo_graph ?body) ([] :: nat list list) 10 = Inr ()" by code_simp
  have m: "demo_while ?body \<in> set (graph_nodes (demo_graph ?body))" by code_simp
  have s: "?body \<in> set (subgraphs (demo_while ?body))" by code_simp
  have vis: "visited ?body ?neg" by (rule own) code_simp
  from operations_allowlisted [OF v m] s vis show ?thesis by blast
qed


end
