(* ===== verification/Elementwise.thy ===== *)
theory Elementwise
  imports Tensor Graph
begin

text \<open>
  The elementwise operations of \<open>priv/worker/operations.py\<close>: the tables \<open>_UNARY\<close>, \<open>_BINARY\<close> and
  \<open>_COMPARISON\<close> with the composed routines they name, as tensor expressions (\<open>Arg 0\<close> is \<open>t\<close> or \<open>a\<close>,
  \<open>Arg 1\<close> is \<open>b\<close>), and the bit counts of \<open>_bit_reduce\<close>. A Python operator is named by its symbol, a
  method by its name.
\<close>

subsection \<open>Unary\<close>

abbreviation (input) "arg0 \<equiv> Arg 0"
abbreviation (input) "arg1 \<equiv> Arg 1"

definition int_num :: "int \<Rightarrow> expr" where
  "int_num i = Num (SInt i)"

definition rat_num :: "rat \<Rightarrow> expr" where
  "rat_num q = Num (SRat q)"

definition expm1 :: expr where
  "expm1 =
     (let t = arg0; x2 = Op2 ''*'' t t;
          small = Op2 ''+'' (Op2 ''+'' (Op2 ''+'' (Op2 ''+'' t
            (Op2 ''*'' x2 (rat_num (1 / 2))))
            (Op2 ''*'' (Op2 ''*'' x2 t) (rat_num (1 / 6))))
            (Op2 ''*'' (Op2 ''*'' x2 x2) (rat_num (1 / 24))))
            (Op2 ''*'' (Op2 ''*'' (Op2 ''*'' x2 x2) t) (rat_num (1 / 120)))
      in Sel (Op2 ''<'' (Op1 ''abs'' t) (rat_num (1 / 100))) small (Op2 ''-'' (Op1 ''exp'' t) (int_num 1)))"

definition log1p :: expr where
  "log1p =
     (let t = arg0; x2 = Op2 ''*'' t t;
          small = Op2 ''+'' (Op2 ''-'' (Op2 ''+'' (Op2 ''-'' t
            (Op2 ''*'' x2 (rat_num (1 / 2))))
            (Op2 ''*'' (Op2 ''*'' x2 t) (rat_num (1 / 3))))
            (Op2 ''*'' (Op2 ''*'' x2 x2) (rat_num (1 / 4))))
            (Op2 ''*'' (Op2 ''*'' (Op2 ''*'' x2 x2) t) (rat_num (1 / 5)))
      in Sel (Op2 ''<'' (Op1 ''abs'' t) (rat_num (1 / 100))) small (Op1 ''log'' (Op2 ''+'' t (int_num 1))))"

definition abs_expr :: expr where
  "abs_expr = Sel (Op2 ''=='' arg0 (int_num 0)) (rat_num 0) (Op1 ''abs'' arg0)"

definition erf_inv :: expr where
  "erf_inv =
     (let t = arg0;
          w = Op1 ''neg'' (Op1 ''log'' (Op2 ''*'' (Op2 ''-'' (rat_num 1) t) (Op2 ''+'' (rat_num 1) t)));
          lt = Op2 ''<'' w (rat_num 5);
          w1 = Op2 ''-'' w (rat_num (5 / 2));
          p1 = foldl (\<lambda>p c. Op2 ''+'' (rat_num c) (Op2 ''*'' p w1)) (rat_num (281022636 / 10 ^ 16))
            [343273939 / 10 ^ 15, - 35233877 / 10 ^ 13, - 439150654 / 10 ^ 14, 21858087 / 10 ^ 11,
             - 125372503 / 10 ^ 11, - 417768164 / 10 ^ 11, 246640727 / 10 ^ 9, 150140941 / 10 ^ 8];
          w2 = Op2 ''-'' (Op1 ''sqrt'' w) (rat_num 3);
          p2 = foldl (\<lambda>p c. Op2 ''+'' (rat_num c) (Op2 ''*'' p w2)) (rat_num (- 200214257 / 10 ^ 12))
            [100950558 / 10 ^ 12, 134934322 / 10 ^ 11, - 367342844 / 10 ^ 11, 573950773 / 10 ^ 11,
             - 76224613 / 10 ^ 10, 943887047 / 10 ^ 11, 100167406 / 10 ^ 8, 283297682 / 10 ^ 8]
      in Op2 ''*'' (Sel lt p1 p2) t)"

definition cbrt :: expr where
  "cbrt = (let r = Op2 ''**'' (Op1 ''abs'' arg0) (rat_num (1 / 3))
           in Sel (Op2 ''<'' arg0 (int_num 0)) (Op1 ''neg'' r) r)"

definition round_expr :: expr where
  "round_expr = Op2 ''*'' (Op1 ''sign'' arg0) (Op1 ''floor'' (Op2 ''+'' (Op1 ''abs'' arg0) (rat_num (1 / 2))))"

definition UNARY :: "(string \<times> expr) list" where
  "UNARY =
    [(''negate'', Op1 ''neg'' arg0), (''abs'', abs_expr), (''exp'', Op1 ''exp'' arg0), (''expm1'', expm1),
     (''log'', Op1 ''log'' arg0), (''log1p'', log1p), (''sqrt'', Op1 ''sqrt'' arg0), (''rsqrt'', Op1 ''rsqrt'' arg0),
     (''tanh'', Op1 ''tanh'' arg0), (''sigmoid'', Op1 ''sigmoid'' arg0), (''sin'', Op1 ''sin'' arg0),
     (''cos'', Op1 ''cos'' arg0), (''tan'', Op1 ''tan'' arg0), (''asin'', Op1 ''asin'' arg0),
     (''acos'', Op1 ''acos'' arg0), (''atan'', Op1 ''atan'' arg0), (''sinh'', Op1 ''sinh'' arg0),
     (''cosh'', Op1 ''cosh'' arg0), (''asinh'', Op1 ''asinh'' arg0), (''acosh'', Op1 ''acosh'' arg0),
     (''atanh'', Op1 ''atanh'' arg0), (''erf'', Op1 ''erf'' arg0),
     (''erfc'', Op2 ''-'' (int_num 1) (Op1 ''erf'' arg0)), (''erf_inv'', erf_inv), (''conjugate'', arg0),
     (''cbrt'', cbrt), (''sign'', Op1 ''sign'' arg0), (''round'', round_expr), (''is_nan'', Op1 ''isnan'' arg0),
     (''is_infinity'', Op1 ''isinf'' arg0), (''bitwise_not'', Op1 ''bitwise_not'' arg0),
     (''floor'', Op1 ''floor'' arg0), (''ceil'', Op1 ''ceil'' arg0)]"

subsection \<open>Binary and comparisons\<close>

definition remainder :: expr where
  "remainder = Op2 ''-'' arg0 (Op2 ''*'' arg1 (Op1 ''trunc'' (Op2 ''/'' arg0 arg1)))"

definition quotient :: expr where
  "quotient = Op1 ''trunc'' (Op2 ''/'' arg0 arg1)"

definition atan2 :: expr where
  "atan2 =
     (let y = arg0; x = arg1; zero = rat_num 0;
          base = Op1 ''atan'' (Op2 ''/'' y x);
          adj = Sel (Op2 ''<'' x (int_num 0)) (Sel (Op2 ''>='' y (int_num 0)) (Num (SPi 1)) (Num (SPi (- 1)))) zero;
          r = Op2 ''+'' base adj;
          on_axis = Sel (Op2 ''>'' y (int_num 0)) (Num (SPi (1 / 2)))
            (Sel (Op2 ''<'' y (int_num 0)) (Num (SPi (- 1 / 2))) zero)
      in Sel (Op2 ''=='' x (int_num 0)) on_axis r)"

definition nonzero :: "expr \<Rightarrow> expr" where
  "nonzero e = Op2 ''!='' e (int_num 0)"

definition BINARY :: "(string \<times> expr) list" where
  "BINARY =
    [(''add'', Op2 ''+'' arg0 arg1), (''subtract'', Op2 ''-'' arg0 arg1), (''multiply'', Op2 ''*'' arg0 arg1),
     (''divide'', Op2 ''/'' arg0 arg1), (''pow'', Op2 ''**'' arg0 arg1), (''max'', Op2 ''maximum'' arg0 arg1),
     (''min'', Op2 ''minimum'' arg0 arg1), (''remainder'', remainder), (''quotient'', quotient),
     (''atan2'', atan2), (''bitwise_and'', Op2 ''&'' arg0 arg1), (''bitwise_or'', Op2 ''|'' arg0 arg1),
     (''bitwise_xor'', Op2 ''^'' arg0 arg1), (''left_shift'', Op2 ''<<'' arg0 arg1),
     (''right_shift'', Op2 ''>>'' arg0 arg1),
     (''logical_and'', Op2 ''&'' (nonzero arg0) (nonzero arg1)),
     (''logical_or'', Op2 ''|'' (nonzero arg0) (nonzero arg1)),
     (''logical_xor'', Op2 ''^'' (nonzero arg0) (nonzero arg1))]"

definition COMPARISON :: "(string \<times> expr) list" where
  "COMPARISON =
    [(''equal'', Op2 ''=='' arg0 arg1), (''not_equal'', Op2 ''!='' arg0 arg1), (''less'', Op2 ''<'' arg0 arg1),
     (''less_equal'', Op2 ''<='' arg0 arg1), (''greater'', Op2 ''>'' arg0 arg1), (''greater_equal'', Op2 ''>='' arg0 arg1)]"

text \<open>The tables are keyed by exactly the operation names the allowlist is built from.\<close>

lemma elementwise_tables:
  "map fst UNARY = UNARY_OPS" "map fst BINARY = BINARY_OPS" "map fst COMPARISON = COMPARISON_OPS"
  by (simp_all add: UNARY_def BINARY_def COMPARISON_def UNARY_OPS_def BINARY_OPS_def COMPARISON_OPS_def)

subsection \<open>Bit counts\<close>

definition BIT_WIDTH :: "(string \<times> nat) list" where
  "BIT_WIDTH = [(''u8'', 8), (''s8'', 8), (''u16'', 16), (''s16'', 16), (''u32'', 32), (''s32'', 32),
     (''u64'', 64), (''s64'', 64)]"

text \<open>\<open>while shift < width: smeared = smeared | (smeared >> shift); shift *= 2\<close>\<close>

function smear :: "'t tg \<Rightarrow> nat \<Rightarrow> nat \<Rightarrow> 't \<Rightarrow> exn + 't" where
  "smear T width shift t =
     (if 0 < shift \<and> shift < width then
        rbind (binr T ''>>'' t (SInt (int shift))) (\<lambda>s.
        rbind (bin T ''|'' t s) (\<lambda>t'.
        smear T width (shift * 2) t'))
      else Inr t)"
  by pat_completeness auto
termination
  by (relation "measure (\<lambda>(T, width, shift, t). width - shift)") auto

declare smear.simps [simp del]

text \<open>\<open>total = highest & 1; for i in range(1, width): total = total + ((highest >> i) & 1)\<close>\<close>

definition bit_total :: "'t tg \<Rightarrow> nat \<Rightarrow> 't \<Rightarrow> exn + 't" where
  "bit_total T width highest =
     rbind (binr T ''&'' highest (SInt 1)) (\<lambda>total0.
     rfold (\<lambda>total i.
       rbind (binr T ''>>'' highest (SInt (int i))) (\<lambda>s.
       rbind (binr T ''&'' s (SInt 1)) (\<lambda>b.
       bin T ''+'' total b))) total0 [1..<width])"

definition bit_reduce :: "'t tg \<Rightarrow> py \<Rightarrow> 't \<Rightarrow> exn + 't" where
  "bit_reduce T node t =
     rbind (py_item node ''dtype'') (\<lambda>dtype.
     rbind (table_find BIT_WIDTH dtype) (\<lambda>w.
     case w of None \<Rightarrow> Inl (key_error ''dtype'')
     | Some width \<Rightarrow>
         rbind (node_op node) (\<lambda>op.
         rbind (if op = PStr ''count_leading_zeros'' then smear T width 1 t else Inr t) (\<lambda>highest.
         rbind (bit_total T width highest) (\<lambda>total.
         if op = PStr ''count_leading_zeros'' then binl T ''-'' (SInt (int width)) total else Inr total)))))"

end
