(* ===== verification/Operations.thy ===== *)
theory Operations
  imports Elementwise
begin

text \<open>
  The operations of \<open>priv/worker/operations.py\<close> on real tensors that move, reduce, select or combine
  elements: one definition per function of the source, each taking the node and the environment the
  executor threads and returning the tensor, or the exception. Node attributes are read as the
  source reads them, with a \<open>KeyError\<close> when one is missing and a \<open>TypeError\<close> when it has the wrong type.
\<close>

subsection \<open>Values and environments\<close>

text \<open>
  A value is a tensor, or the wrapper \<open>Cx\<close> of a real tensor that holds complex numbers. An
  environment maps node ids to values; \<open>sym\<close> is what the source keeps under the key \<open>__sym__\<close>.
\<close>

datatype 't val = Tn 't | Cx 't

record 't env =
  vals :: "int \<rightharpoonup> 't val"
  sym :: "sint list"

definition lookup :: "'t env \<Rightarrow> py \<Rightarrow> exn + 't val" where
  "lookup env ref = rbind (to_key ref) (\<lambda>k.
     case vals env k of None \<Rightarrow> Inl (key_error ''id'') | Some v \<Rightarrow> Inr v)"

text \<open>A method of \<open>Tensor\<close> on a value: the wrapper has none.\<close>

definition as_tensor :: "'t val \<Rightarrow> exn + 't" where
  "as_tensor v = (case v of Tn t \<Rightarrow> Inr t | Cx _ \<Rightarrow> Inl (attribute_error ''Cx object has no such attribute''))"

definition node_in :: "py \<Rightarrow> 't env \<Rightarrow> int \<Rightarrow> exn + 't val" where
  "node_in node env i = rbind (node_inputs node) (\<lambda>ins. rbind (lget ins i) (lookup env))"

definition tensor_in :: "py \<Rightarrow> 't env \<Rightarrow> int \<Rightarrow> exn + 't" where
  "tensor_in node env i = rbind (node_in node env i) as_tensor"

definition tensors_in :: "py \<Rightarrow> 't env \<Rightarrow> exn + 't list" where
  "tensors_in node env = rbind (node_inputs node) (rmap (\<lambda>r. rbind (lookup env r) as_tensor))"

definition unsupported :: "string \<Rightarrow> (string \<times> py) list \<Rightarrow> exn" where
  "unsupported msg details = WorkerErr UnsupportedOperationC msg details"

definition cast_to :: "'t tg \<Rightarrow> 't \<Rightarrow> py \<Rightarrow> exn + 't" where
  "cast_to T t node = rbind (py_item node ''dtype'') (\<lambda>d. rbind (tinygrad_dtype d) (\<lambda>dt. call T (Cast dt) [t]))"

definition reshape :: "'t tg \<Rightarrow> 't \<Rightarrow> int list \<Rightarrow> exn + 't" where
  "reshape T t s = call T (Reshape s) [t]"

definition permute :: "'t tg \<Rightarrow> 't \<Rightarrow> int list \<Rightarrow> exn + 't" where
  "permute T t p = call T (Permute p) [t]"

definition expand :: "'t tg \<Rightarrow> 't \<Rightarrow> int list \<Rightarrow> exn + 't" where
  "expand T t s = call T (Expand s) [t]"

definition prod :: "int list \<Rightarrow> int" where
  "prod xs = prod_list xs"

definition ones :: "nat \<Rightarrow> int list" where
  "ones n = replicate n 1"

subsection \<open>Reductions\<close>

definition reduce_op :: "'t tg \<Rightarrow> py \<Rightarrow> 't env \<Rightarrow> exn + 't" where
  "reduce_op T node env =
     rbind (tensor_in node env 0) (\<lambda>t.
     rbind (attr node ''axes'') (\<lambda>axes.
     rbind (attr node ''keep_axes'') (\<lambda>keep.
     rbind (node_op node) (\<lambda>op.
     if \<not> py_truth axes then Inr t
     else
       rbind (to_ints axes) (\<lambda>axis.
       if op = PStr ''sum'' then call T (Reduce ''sum'' axis (py_truth keep)) [t]
       else if op = PStr ''product'' then call T (Reduce ''prod'' axis (py_truth keep)) [t]
       else if op = PStr ''reduce_max'' then call T (Reduce ''max'' axis (py_truth keep)) [t]
       else if op = PStr ''reduce_min'' then call T (Reduce ''min'' axis (py_truth keep)) [t]
       else if op = PStr ''all'' \<or> op = PStr ''any'' then
         rbind (binr T ''!='' t (SInt 0)) (\<lambda>nz.
         rbind (call T (Cast TgInt32) [nz]) (\<lambda>mask.
         call T (Reduce (if op = PStr ''all'' then ''min'' else ''max'') axis (py_truth keep)) [mask]))
       else Inl (unsupported ''unsupported reduction: {op}'' []))))))"

definition argreduce :: "'t tg \<Rightarrow> py \<Rightarrow> 't env \<Rightarrow> exn + 't" where
  "argreduce T node env =
     rbind (tensor_in node env 0) (\<lambda>t.
     rbind (node_op node) (\<lambda>op.
     rbind (rbind (attr node ''axis'') to_axis) (\<lambda>axis.
     rbind (attr node ''keep_axis'') (\<lambda>keep.
     rbind (attr node ''tie_break'') (\<lambda>tie.
     let red = (\<lambda>x ax kd. call T (ArgReduce (if op = PStr ''argmax'' then ''argmax'' else ''argmin'') ax kd) [x]) in
     if tie = PStr ''low'' then
       (case axis of None \<Rightarrow> red t None False | Some ax \<Rightarrow> red t (Some ax) (py_truth keep))
     else (case axis of
         None \<Rightarrow>
           rbind (reshape T t [prod (shp T t)]) (\<lambda>flat.
           rbind (lget (shp T flat) 0) (\<lambda>n.
           rbind (call T (Flip [0]) [flat]) (\<lambda>flipped.
           rbind (red flipped None False) (\<lambda>r.
           binl T ''-'' (SInt (n - 1)) r))))
       | Some ax \<Rightarrow>
           rbind (lget (shp T t) ax) (\<lambda>n.
           rbind (call T (Flip [ax]) [t]) (\<lambda>flipped.
           rbind (red flipped (Some ax) (py_truth keep)) (\<lambda>r.
           binl T ''-'' (SInt (n - 1)) r)))))))))"

subsection \<open>Shape\<close>

text \<open>\<open>for src_dim, out_dim in enumerate(axes): inter[out_dim] = shape[src_dim]\<close>\<close>

definition place_dims :: "int list \<Rightarrow> int list \<Rightarrow> int list \<Rightarrow> exn + int list" where
  "place_dims spread shape axes =
     rfold (\<lambda>acc (src, out). rbind (lget shape (int src)) (\<lambda>d. lset acc out d)) spread (enumerate 0 axes)"

definition broadcast :: "'t tg \<Rightarrow> py \<Rightarrow> 't env \<Rightarrow> exn + 't" where
  "broadcast T node env =
     rbind (tensor_in node env 0) (\<lambda>t.
     rbind (attr_ints node ''shape'') (\<lambda>out_shape.
     rbind (attr_ints node ''axes'') (\<lambda>axes.
     rbind (place_dims (ones (length out_shape)) (shp T t) axes) (\<lambda>spread.
     rbind (reshape T t spread) (\<lambda>r.
     expand T r out_shape)))))"

definition SPECIAL_NUMBERS :: "(string \<times> scalar) list" where
  "SPECIAL_NUMBERS = [(''Infinity'', SInf False), (''-Infinity'', SInf True), (''NaN'', SNaN)]"

text \<open>\<open>_num\<close> (and \<open>_decode_value\<close> of the executor).\<close>

definition num_of :: "py \<Rightarrow> exn + scalar" where
  "num_of v = (case v of
       PStr s \<Rightarrow> (case map_of SPECIAL_NUMBERS s of None \<Rightarrow> Inl (key_error s) | Some x \<Rightarrow> Inr x)
     | _ \<Rightarrow> py_scalar v)"

definition to_triples :: "py \<Rightarrow> exn + (int \<times> int \<times> int) list" where
  "to_triples v = rbind (to_list v) (rmap (\<lambda>p. rbind (to_tuple 3 p) (\<lambda>is. Inr (is ! 0, is ! 1, is ! 2))))"

definition pad_lit :: "(int \<times> int) list \<Rightarrow> (sint \<times> sint) list" where
  "pad_lit ps = map (\<lambda>(lo, hi). (Lit lo, Lit hi)) ps"

definition pad_op :: "'t tg \<Rightarrow> py \<Rightarrow> 't env \<Rightarrow> exn + 't" where
  "pad_op T node env =
     rbind (tensor_in node env 0) (\<lambda>t.
     rbind (attr node ''config'') (\<lambda>cfg.
     rbind (to_triples cfg) (\<lambda>config.
     if list_ex (\<lambda>(_, _, interior). interior \<noteq> 0) config then
       Inl (unsupported ''interior padding is not supported'' [(''config'', cfg)])
     else if list_ex (\<lambda>(lo, hi, _). lo < 0 \<or> hi < 0) config then
       Inl (unsupported ''negative (cropping) padding is not supported'' [(''config'', cfg)])
     else
       rbind (rbind (attr node ''value'') num_of) (\<lambda>v.
       call T (Pad (pad_lit (map (\<lambda>(lo, hi, _). (lo, hi)) config)) (as_float v)) [t]))))"

definition sort_op :: "'t tg \<Rightarrow> py \<Rightarrow> 't env \<Rightarrow> exn + 't" where
  "sort_op T node env =
     rbind (tensor_in node env 0) (\<lambda>t.
     rbind (rbind (attr node ''axis'') to_int) (\<lambda>axis.
     rbind (attr node ''descending'') (\<lambda>desc.
     call T (Sort axis (py_truth desc)) [t])))"

definition argsort_op :: "'t tg \<Rightarrow> py \<Rightarrow> 't env \<Rightarrow> exn + 't" where
  "argsort_op T node env =
     rbind (tensor_in node env 0) (\<lambda>t.
     rbind (rbind (attr node ''axis'') to_int) (\<lambda>axis.
     rbind (attr node ''descending'') (\<lambda>desc.
     call T (Argsort axis (py_truth desc)) [t])))"

subsection \<open>Slices\<close>

definition clamp :: "int \<Rightarrow> int \<Rightarrow> int" where
  "clamp raw hi = max 0 (min raw hi)"

text \<open>The dynamic start inputs of a slice or put-slice node, from position \<open>first\<close> on.\<close>

definition dyn_inputs :: "py \<Rightarrow> 't env \<Rightarrow> nat \<Rightarrow> exn + 't val list" where
  "dyn_inputs node env first = rbind (node_inputs node) (\<lambda>ins. rmap (lookup env) (drop first ins))"

definition read_start :: "'t tg \<Rightarrow> 't val list \<Rightarrow> py \<Rightarrow> exn + int" where
  "read_start T dyn spec =
     rbind (rbind (py_item spec ''input'') to_int) (\<lambda>j.
     rbind (lget dyn j) (\<lambda>v.
     rbind (as_tensor v) (\<lambda>t.
     rbind (item T t) py_int)))"

text \<open>One start of a slice, and whether it is symbolic.\<close>

definition slice_start ::
    "'t tg \<Rightarrow> 't val list \<Rightarrow> sint list \<Rightarrow> int list \<Rightarrow> int list \<Rightarrow> nat \<Rightarrow> py \<Rightarrow> exn + sint \<times> bool" where
  "slice_start T dyn syms shape lengths axis spec =
     (if has_key spec ''static'' then
        rbind (rbind (py_item spec ''static'') to_int) (\<lambda>s. Inr (Lit s, False))
      else if has_key spec ''symbolic'' then
        rbind (rbind (py_item spec ''symbolic'') to_int) (\<lambda>j.
        rbind (lget syms j) (\<lambda>s. Inr (s, True)))
      else
        rbind (read_start T dyn spec) (\<lambda>raw.
        rbind (lget shape (int axis)) (\<lambda>n.
        rbind (lget lengths (int axis)) (\<lambda>l.
        Inr (Lit (clamp raw (n - l)), False)))))"

definition slice_op :: "'t tg \<Rightarrow> py \<Rightarrow> 't env \<Rightarrow> exn + 't" where
  "slice_op T node env =
     rbind (tensor_in node env 0) (\<lambda>t.
     rbind (dyn_inputs node env 1) (\<lambda>dyn.
     rbind (attr_ints node ''lengths'') (\<lambda>lengths.
     rbind (attr_ints node ''strides'') (\<lambda>strides.
     rbind (rbind (attr node ''starts'') to_list) (\<lambda>specs.
     rbind (rmap (\<lambda>(axis, spec). slice_start T dyn (sym env) (shp T t) lengths axis spec) (enumerate 0 specs)) (\<lambda>ss.
     let starts = map fst ss in
     if list_ex snd ss then
       rbind (call T (Shrink (map2 (\<lambda>s l. (s, sint_add s l)) starts lengths)) [t]) (\<lambda>out.
       if list_ex (\<lambda>st. st \<noteq> 1) strides then
         call T (Index (map (\<lambda>st. Slice None None (Some st)) strides)) [out]
       else Inr out)
     else
       call T (Index (map (\<lambda>(s, l, st). Slice (Some (sint_val s)) (Some (sint_val s + l)) (Some st))
         (zip starts (zip lengths strides)))) [t]))))))"

definition put_start ::
    "'t tg \<Rightarrow> 't val list \<Rightarrow> sint list \<Rightarrow> int list \<Rightarrow> int list \<Rightarrow> nat \<Rightarrow> py \<Rightarrow> exn + sint" where
  "put_start T dyn syms tshape sshape axis spec =
     (if has_key spec ''symbolic'' then
        rbind (rbind (py_item spec ''symbolic'') to_int) (lget syms)
      else
        rbind (if has_key spec ''static'' then rbind (py_item spec ''static'') py_int
               else read_start T dyn spec) (\<lambda>raw.
        rbind (lget tshape (int axis)) (\<lambda>n.
        rbind (lget sshape (int axis)) (\<lambda>m.
        Inr (Lit (clamp raw (n - m)))))))"

definition put_slice :: "'t tg \<Rightarrow> py \<Rightarrow> 't env \<Rightarrow> exn + 't" where
  "put_slice T node env =
     rbind (tensor_in node env 0) (\<lambda>target.
     rbind (tensor_in node env 1) (\<lambda>sl.
     rbind (dyn_inputs node env 2) (\<lambda>dyn.
     rbind (rbind (attr node ''starts'') to_list) (\<lambda>specs.
     rbind (rmap (\<lambda>(d, spec).
         rbind (put_start T dyn (sym env) (shp T target) (shp T sl) d spec) (\<lambda>start.
         rbind (lget (shp T target) (int d)) (\<lambda>n.
         rbind (lget (shp T sl) (int d)) (\<lambda>m.
         Inr (start, sint_rsub (n - m) start))))) (enumerate 0 specs)) (\<lambda>pad_config.
     rbind (call T (Pad pad_config (SRat 0)) [sl]) (\<lambda>padded.
     rbind (binr T ''*'' sl (SInt 0)) (\<lambda>zeros.
     rbind (binr T ''+'' zeros (SInt 1)) (\<lambda>ones.
     rbind (call T (Pad pad_config (SRat 0)) [ones]) (\<lambda>mask.
     rbind (binr T ''!='' mask (SInt 0)) (\<lambda>c.
     call T (Where None None) [c, padded, target]))))))))))"

subsection \<open>Clip, stack, concatenate, eye, iota\<close>

definition clip :: "'t tg \<Rightarrow> py \<Rightarrow> 't env \<Rightarrow> exn + 't" where
  "clip T node env =
     rbind (tensor_in node env 0) (\<lambda>t.
     rbind (tensor_in node env 1) (\<lambda>lo.
     rbind (bin T ''maximum'' t lo) (\<lambda>m.
     rbind (tensor_in node env 2) (\<lambda>hi.
     bin T ''minimum'' m hi))))"

text \<open>\<open>xs.insert(i, v)\<close>: a position past either end is that end.\<close>

definition list_insert :: "'a list \<Rightarrow> int \<Rightarrow> 'a \<Rightarrow> 'a list" where
  "list_insert xs i v =
     (let n = int (length xs); k = nat (min n (if i < 0 then max 0 (n + i) else i))
      in take k xs @ [v] @ drop k xs)"

text \<open>\<open>parts[0].cat(*parts[1:], dim=axis) if len(parts) > 1 else parts[0]\<close>\<close>

definition cat_parts :: "'t tg \<Rightarrow> 't list \<Rightarrow> int \<Rightarrow> exn + 't" where
  "cat_parts T parts axis =
     (case parts of [] \<Rightarrow> Inl (index_error ()) | [p] \<Rightarrow> Inr p | _ \<Rightarrow> call T (Cat axis) parts)"

definition stack :: "'t tg \<Rightarrow> py \<Rightarrow> 't env \<Rightarrow> exn + 't" where
  "stack T node env =
     rbind (rbind (attr node ''axis'') to_int) (\<lambda>axis.
     rbind (node_inputs node) (\<lambda>ins.
     rbind (rmap (\<lambda>i. rbind (lookup env i) (\<lambda>v. rbind (as_tensor v) (\<lambda>x.
       reshape T x (list_insert (shp T x) axis 1)))) ins) (\<lambda>parts.
     cat_parts T parts axis)))"

definition concatenate :: "'t tg \<Rightarrow> py \<Rightarrow> 't env \<Rightarrow> exn + 't" where
  "concatenate T node env =
     rbind (tensors_in node env) (\<lambda>tensors.
     rbind (rbind (attr node ''axis'') to_int) (\<lambda>axis.
     cat_parts T tensors axis))"

definition arange :: "'t tg \<Rightarrow> int \<Rightarrow> exn + 't" where
  "arange T n = call T (Arange n) []"

definition eye :: "'t tg \<Rightarrow> py \<Rightarrow> exn + 't" where
  "eye T node =
     rbind (node_shape node) (\<lambda>shape.
     rbind (lget shape (- 2)) (\<lambda>r.
     rbind (lget shape (- 1)) (\<lambda>c.
     rbind (rbind (arange T r) (\<lambda>x. reshape T x [r, 1])) (\<lambda>rows.
     rbind (rbind (arange T c) (\<lambda>x. reshape T x [1, c])) (\<lambda>cols.
     rbind (bin T ''=='' rows cols) (\<lambda>diag.
     rbind (reshape T diag (ones (length shape - 2) @ [r, c])) (\<lambda>d.
     expand T d shape)))))))"

definition iota :: "'t tg \<Rightarrow> py \<Rightarrow> exn + 't" where
  "iota T node =
     rbind (node_shape node) (\<lambda>shape.
     rbind (rbind (attr node ''axis'') to_axis) (\<lambda>axis.
     case axis of
       None \<Rightarrow> rbind (arange T (prod shape)) (\<lambda>x. reshape T x shape)
     | Some ax \<Rightarrow>
         rbind (lget shape ax) (\<lambda>n.
         rbind (lset (ones (length shape)) ax n) (\<lambda>view.
         rbind (arange T n) (\<lambda>x.
         rbind (reshape T x view) (\<lambda>v.
         expand T v shape))))))"

end
