(* ===== verification/Planning.thy ===== *)
theory Planning
  imports Operations
begin

text \<open>
  What the executor decides before it runs anything (\<open>priv/worker/executable.py\<close>): which nodes read a
  runtime scalar and so cannot be captured, the split of a graph into captured segments and eager
  nodes, and the rewriting of a while body whose slice starts become symbolic.
\<close>

subsection \<open>Nodes that read runtime scalars\<close>

definition DYN_FIRST :: "(string \<times> nat) list" where
  "DYN_FIRST = [(''slice'', 1), (''put_slice'', 2)]"

definition input_count :: "py \<Rightarrow> exn + nat" where
  "input_count node = rbind (node_inputs node) (\<lambda>ins. Inr (length ins))"

definition requires_eager :: "py \<Rightarrow> exn + bool" where
  "requires_eager node =
     rbind (node_op node) (\<lambda>op.
     if op = PStr ''while'' then Inr True
     else if op = PStr ''slice'' then rbind (input_count node) (\<lambda>n. Inr (n > 1))
     else if op = PStr ''put_slice'' then rbind (input_count node) (\<lambda>n. Inr (n > 2))
     else Inr False)"

definition dyn_start_count :: "py \<Rightarrow> exn + nat" where
  "dyn_start_count node =
     rbind (node_op node) (\<lambda>op.
     rbind (table_find DYN_FIRST op) (\<lambda>first.
     case first of None \<Rightarrow> Inr 0 | Some f \<Rightarrow> rbind (input_count node) (\<lambda>n. Inr (n - f))))"

text \<open>\<open>any(_dyn_start_count(n) for n in fn["nodes"])\<close>\<close>

definition any_dyn :: "py \<Rightarrow> exn + bool" where
  "any_dyn fn = rbind (py_item fn ''nodes'') (\<lambda>ns. rbind (to_list ns) (\<lambda>nodes.
     rany (\<lambda>n. rbind (dyn_start_count n) (\<lambda>c. Inr (c \<noteq> 0))) nodes))"

definition fn_of :: "py \<Rightarrow> exn + py" where
  "fn_of node = attr node ''fn''"

lemma size_fn_of:
  assumes "py_item sub ''nodes'' = Inr ns" and "to_list ns = Inr nodes" and "node \<in> set nodes"
    and "fn_of node = Inr fn"
  shows "size fn < size sub"
proof -
  from assms(2) have "nodes = list_of ns" by (cases ns) (auto simp: to_list_def)
  with assms(1,3) have "size node < size sub" using size_py_item size_list_of by fastforce
  moreover from assms(4) obtain attrs where "py_item node ''attrs'' = Inr attrs" "py_item attrs ''fn'' = Inr fn"
    by (auto simp: fn_of_def attr_def rbind_eq_Inr)
  then have "size fn < size node" using size_py_item by (meson less_trans)
  ultimately show ?thesis by simp
qed

function sub_requires_eager :: "py \<Rightarrow> exn + bool" where
  "sub_requires_eager sub =
     rbind (py_item sub ''nodes'') (\<lambda>ns. rbind (to_list ns) (\<lambda>nodes.
     rany (\<lambda>node. rbind (node_op node) (\<lambda>op.
       if op = PStr ''while'' then Inr True
       else if op \<in> {PStr ''reduce'', PStr ''window_reduce''} then
         rbind (fn_of node) (\<lambda>fn.
         rbind (sub_requires_eager fn) (\<lambda>e. if e then Inr True else any_dyn fn))
       else Inr False)) nodes))"
  by pat_completeness auto
termination
  by (relation "measure size") (auto intro: size_fn_of)

declare sub_requires_eager.simps [simp del]

definition node_jit_safe :: "py \<Rightarrow> exn + bool" where
  "node_jit_safe node =
     rbind (requires_eager node) (\<lambda>e.
     if e then Inr False
     else
       rbind (node_op node) (\<lambda>op.
       if op \<in> {PStr ''reduce'', PStr ''window_reduce''} then
         rbind (fn_of node) (\<lambda>fn.
         rbind (sub_requires_eager fn) (\<lambda>s.
         if s then Inr False else rbind (any_dyn fn) (\<lambda>d. Inr (\<not> d))))
       else Inr True))"

definition item_id :: "py \<Rightarrow> exn + int" where
  "item_id x = rbind (py_item x ''id'') to_key"

definition node_defined_ids :: "py \<Rightarrow> exn + int list" where
  "node_defined_ids node =
     rbind (node_op node) (\<lambda>op.
     if op = PStr ''while'' then
       rbind (py_item node ''outputs'') (\<lambda>outs. rbind (to_list outs) (rmap item_id))
     else rbind (item_id node) (\<lambda>i. Inr [i]))"

definition node_refs :: "py \<Rightarrow> exn + int list" where
  "node_refs node = rbind (node_inputs node) (rmap to_key)"

subsection \<open>Segments\<close>

text \<open>
  A node together with its place in the graph: the path of positions that leads to it. The source
  keys its caches by the identity of the node object, which the path stands for.
\<close>

type_synonym occ = "nat list \<times> py"

definition label :: "nat list \<Rightarrow> py list \<Rightarrow> occ list" where
  "label path nodes = map (\<lambda>(i, n). (path @ [i], n)) (enumerate 0 nodes)"

datatype piece = EagerP occ | JitP "occ list"

datatype segment = Eager occ | Jit "occ list" "int list" "int list"

fun piece_nodes :: "piece \<Rightarrow> occ list" where
  "piece_nodes (EagerP n) = [n]"
| "piece_nodes (JitP ns) = ns"

fun segment_nodes :: "segment \<Rightarrow> occ list" where
  "segment_nodes (Eager n) = [n]"
| "segment_nodes (Jit ns _ _) = ns"

definition flush :: "piece list \<Rightarrow> occ list \<Rightarrow> piece list" where
  "flush plan current = (if current = [] then plan else plan @ [JitP current])"

text \<open>The loop that splits the nodes; its state is \<open>(plan, current)\<close>.\<close>

definition split_step :: "piece list \<times> occ list \<Rightarrow> occ \<Rightarrow> exn + piece list \<times> occ list" where
  "split_step st node =
     rbind (node_jit_safe (snd node)) (\<lambda>safe.
     if safe then Inr (fst st, snd st @ [node])
     else Inr (flush (fst st) (snd st) @ [EagerP node], []))"

definition split_nodes :: "occ list \<Rightarrow> exn + piece list" where
  "split_nodes nodes = rbind (rfold split_step ([], []) nodes) (\<lambda>(plan, current). Inr (flush plan current))"

text \<open>
  \<open>after[pos]\<close>: the ids read by the pieces after \<open>pos\<close> or by the outputs, computed from the end.
\<close>

fun needed_after :: "int set \<Rightarrow> piece list \<Rightarrow> exn + int set list \<times> int set" where
  "needed_after outs [] = Inr ([], outs)"
| "needed_after outs (p # ps) =
     rbind (needed_after outs ps) (\<lambda>(after, needed).
     rbind (rmap (\<lambda>n. node_refs (snd n)) (piece_nodes p)) (\<lambda>refs.
     Inr (needed # after, needed \<union> set (concat refs))))"

text \<open>The refs of a segment that nothing in it defined before, and what it defines.\<close>

definition scan_ref :: "int set \<Rightarrow> int set \<Rightarrow> int list \<Rightarrow> int \<Rightarrow> int list" where
  "scan_ref constants defined inputs ref =
     (if ref \<notin> defined \<and> ref \<notin> constants \<and> ref \<notin> set inputs then inputs @ [ref] else inputs)"

definition scan_node :: "int set \<Rightarrow> int list \<times> int list \<Rightarrow> occ \<Rightarrow> exn + int list \<times> int list" where
  "scan_node constants st node =
     rbind (node_refs (snd node)) (\<lambda>refs.
     rbind (node_defined_ids (snd node)) (\<lambda>ids.
     Inr (fst st @ ids, foldl (scan_ref constants (set (fst st))) (snd st) refs)))"

definition finish_piece :: "int set \<Rightarrow> piece \<times> int set \<Rightarrow> exn + segment" where
  "finish_piece constants p =
     (case fst p of
        EagerP n \<Rightarrow> Inr (Eager n)
      | JitP ns \<Rightarrow>
          rbind (rfold (scan_node constants) ([], []) ns) (\<lambda>(defined, inputs).
          Inr (Jit ns inputs (filter (\<lambda>i. i \<in> snd p) (sorted_list_of_set (set defined))))))"

fun is_jit_piece :: "piece \<Rightarrow> bool" where
  "is_jit_piece (JitP _) = True"
| "is_jit_piece (EagerP _) = False"

definition plan_segments :: "int set \<Rightarrow> int set \<Rightarrow> occ list \<Rightarrow> exn + segment list option" where
  "plan_segments constants outs nodes =
     rbind (split_nodes nodes) (\<lambda>plan.
     if \<not> list_ex is_jit_piece plan then Inr None
     else
       rbind (needed_after outs plan) (\<lambda>(after, _).
       rbind (rmap (finish_piece constants) (zip plan after)) (\<lambda>segs. Inr (Some segs))))"

text \<open>\<open>_id_dtype\<close>: the declared dtype of every id of the graph.\<close>

definition dtype_entry :: "py \<Rightarrow> exn + int \<times> py" where
  "dtype_entry x = rbind (item_id x) (\<lambda>i. rbind (py_item x ''dtype'') (\<lambda>d. Inr (i, d)))"

definition node_dtypes :: "py \<Rightarrow> exn + (int \<times> py) list" where
  "node_dtypes node =
     rbind (node_op node) (\<lambda>op.
     if op = PStr ''while'' then
       rbind (py_item node ''outputs'') (\<lambda>outs. rbind (to_list outs) (rmap dtype_entry))
     else rbind (dtype_entry node) (\<lambda>e. Inr [e]))"

definition items_of :: "py \<Rightarrow> string \<Rightarrow> exn + py list" where
  "items_of g k = rbind (py_item g k) to_list"

definition id_dtypes :: "py \<Rightarrow> exn + (int \<times> py) list" where
  "id_dtypes g =
     rbind (rbind (items_of g ''inputs'') (rmap dtype_entry)) (\<lambda>ins.
     rbind (rbind (items_of g ''constants'') (rmap dtype_entry)) (\<lambda>cs.
     rbind (rbind (items_of g ''nodes'') (rmap node_dtypes)) (\<lambda>ns.
     Inr (rev (ins @ cs @ concat ns)))))"

subsection \<open>What the plan guarantees\<close>

lemma flush_nodes: "concat (map piece_nodes (flush plan cur)) = concat (map piece_nodes plan) @ cur"
  by (simp add: flush_def)

text \<open>The state of the split: pieces as they should be, and the pending nodes all safe.\<close>

definition piece_ok :: "piece \<Rightarrow> bool" where
  "piece_ok p = (case p of EagerP n \<Rightarrow> node_jit_safe (snd n) = Inr False
     | JitP ns \<Rightarrow> ns \<noteq> [] \<and> (\<forall>n \<in> set ns. node_jit_safe (snd n) = Inr True))"

text \<open>Segments are maximal: no two captured pieces are adjacent.\<close>

definition maximal :: "piece list \<Rightarrow> bool" where
  "maximal ps = (\<forall>p. Suc p < length ps \<longrightarrow> \<not> (is_jit_piece (ps ! p) \<and> is_jit_piece (ps ! Suc p)))"

definition split_inv :: "piece list \<times> occ list \<Rightarrow> bool" where
  "split_inv st = (list_all piece_ok (fst st) \<and> (\<forall>n \<in> set (snd st). node_jit_safe (snd n) = Inr True) \<and>
     maximal (fst st) \<and> (fst st \<noteq> [] \<longrightarrow> \<not> is_jit_piece (last (fst st))))"

lemma maximal_Nil [simp]: "maximal []"
  by (simp add: maximal_def)

lemma maximal_snoc:
  "maximal (ps @ [p]) \<longleftrightarrow> maximal ps \<and> (ps \<noteq> [] \<longrightarrow> \<not> (is_jit_piece (last ps) \<and> is_jit_piece p))"
proof (cases ps rule: rev_cases)
  case (snoc qs q)
  have all: "(\<forall>i < Suc n. P i) \<longleftrightarrow> (\<forall>i < n. P i) \<and> P n" for P and n :: nat
    by (auto simp: less_Suc_eq)
  show ?thesis unfolding snoc
    by (simp add: maximal_def all nth_append)
qed (simp add: maximal_def)

lemma flush_inv:
  assumes "split_inv st"
  shows "list_all piece_ok (flush (fst st) (snd st))" "maximal (flush (fst st) (snd st))"
  using assms by (auto simp: split_inv_def flush_def maximal_snoc piece_ok_def)

lemma split_step_inv: "split_inv st \<Longrightarrow> split_step st n = Inr st' \<Longrightarrow> split_inv st'"
  using flush_inv [of st]
  by (auto simp: split_step_def raises split_inv_def maximal_snoc piece_ok_def split: if_splits)

lemma split_step_nodes:
  "split_step st n = Inr st' \<Longrightarrow>
     concat (map piece_nodes (fst st')) @ snd st' = (concat (map piece_nodes (fst st)) @ snd st) @ [n]"
  by (auto simp: split_step_def raises flush_nodes split: if_splits)

lemma split_loop_nodes:
  "rfold split_step st ns = Inr st' \<Longrightarrow>
     concat (map piece_nodes (fst st')) @ snd st' = (concat (map piece_nodes (fst st)) @ snd st) @ ns"
proof (induction ns arbitrary: st)
  case (Cons n ns)
  then obtain s1 where "split_step st n = Inr s1" "rfold split_step s1 ns = Inr st'"
    by (auto simp: rbind_eq_Inr)
  with Cons.IH [of s1] split_step_nodes [of st n s1] show ?case by simp
qed simp

lemma split_nodes_ok:
  assumes "split_nodes nodes = Inr plan"
  shows "concat (map piece_nodes plan) = nodes" "list_all piece_ok plan" "maximal plan"
proof -
  from assms obtain st where st: "rfold split_step ([], []) nodes = Inr st" "plan = flush (fst st) (snd st)"
    by (auto simp: split_nodes_def raises)
  have "split_inv ([], [])" by (simp add: split_inv_def)
  with st(1) have "split_inv st"
    by (rule rfold_invariant [where P = split_inv]) (auto intro: split_step_inv)
  then show "list_all piece_ok plan" "maximal plan" unfolding st(2) by (rule flush_inv)+
  from split_loop_nodes [OF st(1)] show "concat (map piece_nodes plan) = nodes"
    by (simp add: st(2) flush_nodes)
qed

text \<open>The ids a node reads and defines, where its entries are readable.\<close>

definition reads_of :: "occ \<Rightarrow> int set" where
  "reads_of n = (case node_refs (snd n) of Inl _ \<Rightarrow> {} | Inr is \<Rightarrow> set is)"

definition defs_of :: "occ \<Rightarrow> int set" where
  "defs_of n = (case node_defined_ids (snd n) of Inl _ \<Rightarrow> {} | Inr is \<Rightarrow> set is)"

definition needs :: "int set \<Rightarrow> occ list \<Rightarrow> int set" where
  "needs outs ns = outs \<union> \<Union> (reads_of ` set ns)"

lemma needed_after_spec:
  "needed_after outs ps = Inr (after, needed) \<Longrightarrow>
     length after = length ps \<and> needed = needs outs (concat (map piece_nodes ps)) \<and>
     (\<forall>p < length ps. after ! p = needs outs (concat (map piece_nodes (drop (Suc p) ps))))"
proof (induction ps arbitrary: after needed)
  case (Cons p ps)
  then obtain a0 n0 refs where r: "needed_after outs ps = Inr (a0, n0)"
      "rmap (\<lambda>n. node_refs (snd n)) (piece_nodes p) = Inr refs"
    and eq: "after = n0 # a0" "needed = n0 \<union> set (concat refs)"
    by (auto simp: raises)
  have "reads_of n = set (projr (node_refs (snd n)))" if "n \<in> set (piece_nodes p)" for n
    unfolding reads_of_def by (subst rmap_projr(2) [OF r(2) that]) simp
  then have "set (concat refs) = \<Union> (reads_of ` set (piece_nodes p))"
    unfolding rmap_projr(1) [OF r(2)] by simp
  with Cons.IH [OF r(1)] eq show ?case
    by (auto simp: needs_def nth_Cons' less_Suc_eq_0_disj)
qed (auto simp: needs_def)

text \<open>The scan of a segment: what it defines, and its inputs.\<close>

lemma scan_refs:
  fixes C D :: "int set"
  shows "set (foldl (scan_ref C D) ins refs) = set ins \<union> (set refs - D - C)"
    and "distinct ins \<Longrightarrow> distinct (foldl (scan_ref C D) ins refs)"
  by (induction refs arbitrary: ins) (auto simp: scan_ref_def)

fun open_reads :: "int set \<Rightarrow> occ list \<Rightarrow> int set" where
  "open_reads D [] = {}"
| "open_reads D (n # ns) = (reads_of n - D) \<union> open_reads (D \<union> defs_of n) ns"

lemma scan_loop:
  "rfold (scan_node C) (defined, ins) ns = Inr (defined', ins') \<Longrightarrow>
     set defined' = set defined \<union> \<Union> (defs_of ` set ns) \<and>
     set ins' = set ins \<union> (open_reads (set defined) ns - C) \<and> (distinct ins \<longrightarrow> distinct ins')"
proof (induction ns arbitrary: defined ins)
  case (Cons n ns)
  from Cons.prems obtain st where st: "scan_node C (defined, ins) n = Inr st" "rfold (scan_node C) st ns = Inr (defined', ins')"
    by (auto simp: rbind_eq_Inr)
  from st(1) obtain refs ids where r: "node_refs (snd n) = Inr refs" "node_defined_ids (snd n) = Inr ids"
    and st': "st = (defined @ ids, foldl (scan_ref C (set defined)) ins refs)"
    by (auto simp: scan_node_def rbind_eq_Inr)
  note rest = st(2) [unfolded st']
  have "reads_of n = set refs" "defs_of n = set ids" using r by (auto simp: reads_of_def defs_of_def)
  with Cons.IH [OF rest] scan_refs [where C = C and D = "set defined" and ins = ins and refs = refs] show ?case by auto
qed auto

text \<open>One segment of a finished plan, given the nodes that follow it.\<close>

definition segment_ok :: "int set \<Rightarrow> int set \<Rightarrow> segment \<Rightarrow> occ list \<Rightarrow> bool" where
  "segment_ok C outs seg rest =
     (case seg of
        Eager n \<Rightarrow> node_jit_safe (snd n) = Inr False
      | Jit ns ins os \<Rightarrow>
          ns \<noteq> [] \<and> (\<forall>n \<in> set ns. node_jit_safe (snd n) = Inr True) \<and>
          distinct ins \<and> set ins = open_reads {} ns - C \<and>
          sorted os \<and> distinct os \<and> set os = \<Union> (defs_of ` set ns) \<inter> needs outs rest)"

lemma finish_piece_ok:
  assumes "finish_piece C (p, needs outs rest) = Inr seg" and "piece_ok p"
  shows "segment_ok C outs seg rest \<and> segment_nodes seg = piece_nodes p"
proof (cases p)
  case (EagerP n)
  with assms show ?thesis by (auto simp: finish_piece_def segment_ok_def piece_ok_def)
next
  case (JitP ns)
  with assms(1) obtain defined ins where scan: "rfold (scan_node C) ([], []) ns = Inr (defined, ins)"
    and seg: "seg = Jit ns ins (filter (\<lambda>i. i \<in> needs outs rest) (sorted_list_of_set (set defined)))"
    by (auto simp: finish_piece_def raises)
  define os where "os = sorted_list_of_set (set defined)"
  have os: "sorted os" "distinct os" "set os = set defined" by (simp_all add: os_def)
  with scan_loop [OF scan] assms(2) seg JitP show ?thesis
    unfolding os_def [symmetric] by (auto simp: segment_ok_def piece_ok_def intro: sorted_wrt_filter)
qed

text \<open>The segments that the pieces of a plan become.\<close>

definition planned :: "int set \<Rightarrow> int set \<Rightarrow> occ list \<Rightarrow> segment list \<Rightarrow> piece list \<Rightarrow> bool" where
  "planned C outs nodes segs plan = (split_nodes nodes = Inr plan \<and> length segs = length plan \<and>
     (\<forall>p < length plan. finish_piece C (plan ! p, needs outs (concat (map piece_nodes (drop (Suc p) plan)))) = Inr (segs ! p)) \<and>
     (\<forall>p < length plan. segment_ok C outs (segs ! p) (concat (map segment_nodes (drop (Suc p) segs)))) \<and>
     (\<forall>k. map segment_nodes (drop k segs) = map piece_nodes (drop k plan)))"

lemma plan_segments_planned:
  assumes "plan_segments C outs nodes = Inr (Some segs)"
  obtains plan where "planned C outs nodes segs plan"
proof -
  from assms obtain plan after needed where plan: "split_nodes nodes = Inr plan"
    and need: "needed_after outs plan = Inr (after, needed)"
    and fin: "rmap (finish_piece C) (zip plan after) = Inr segs"
    by (auto simp: plan_segments_def raises split: if_splits)
  note after = needed_after_spec [OF need] and ok = split_nodes_ok [OF plan]
  have len: "length segs = length plan" using rmap_length [OF fin] after by simp
  have fp: "finish_piece C (plan ! p, needs outs (concat (map piece_nodes (drop (Suc p) plan)))) = Inr (segs ! p)"
    if "p < length plan" for p using rmap_nth [OF fin, of p] after that by simp
  have one: "segment_ok C outs (segs ! p) (concat (map piece_nodes (drop (Suc p) plan))) \<and>
      segment_nodes (segs ! p) = piece_nodes (plan ! p)" if "p < length plan" for p
    using ok(2) that by (intro finish_piece_ok fp) (simp_all add: list_all_length)
  have same: "map segment_nodes (drop k segs) = map piece_nodes (drop k plan)" for k
    using one len by (intro nth_equalityI) auto
  show ?thesis using plan len fp one same by (intro that [of plan]) (simp add: planned_def)
qed

lemma planned_nodes: "planned C outs nodes segs plan \<Longrightarrow> concat (map segment_nodes segs) = nodes"
  using split_nodes_ok(1) [of nodes plan] by (auto simp: planned_def dest!: spec [of _ 0])

lemma planned_kind:
  assumes "planned C outs nodes segs plan" and "p < length plan"
  shows "is_jit_piece (plan ! p) \<or> (\<exists>n. segs ! p = Eager n)"
proof -
  from assms have "finish_piece C (plan ! p, needs outs (concat (map piece_nodes (drop (Suc p) plan)))) = Inr (segs ! p)"
    by (simp add: planned_def)
  then show ?thesis by (cases "plan ! p") (auto simp: finish_piece_def dest: sym)
qed


definition demo_node :: "int \<Rightarrow> string \<Rightarrow> int list \<Rightarrow> py" where
  "demo_node i op ins = PDict [(''id'', PInt i), (''op'', PStr op), (''inputs'', PList (map PInt ins))]"

definition demo_nodes :: "occ list" where
  "demo_nodes = label [] [demo_node 2 ''negate'' [0], demo_node 3 ''add'' [2, 1], demo_node 4 ''slice'' [3, 1],
     demo_node 5 ''exp'' [4]]"


subsection \<open>Symbolic starts of a while body\<close>

text \<open>\<open>dict(d, k=v)\<close>\<close>

fun set_assoc :: "(string \<times> py) list \<Rightarrow> string \<Rightarrow> py \<Rightarrow> (string \<times> py) list" where
  "set_assoc [] k v = [(k, v)]"
| "set_assoc ((k', w) # kvs) k v = (if k' = k then (k, v) # kvs else (k', w) # set_assoc kvs k v)"

definition dict_with :: "py \<Rightarrow> string \<Rightarrow> py \<Rightarrow> exn + py" where
  "dict_with d k v = (case d of PDict kvs \<Rightarrow> Inr (PDict (set_assoc kvs k v))
     | _ \<Rightarrow> Inl (type_error ''object is not a mapping''))"

text \<open>One \<open>Variable\<close>: the node that computes the start, its clamp bound, its name.\<close>

record var_use =
  use_id :: int
  use_hi :: int
  use_name :: string

definition dec_digit :: "nat \<Rightarrow> char" where
  "dec_digit d = char_of (48 + d)"

fun decimal :: "nat \<Rightarrow> string" where
  "decimal n = (if n < 10 then [dec_digit n] else decimal (n div 10) @ [dec_digit (n mod 10)])"

declare decimal.simps [simp del]

definition shape_entry :: "py \<Rightarrow> exn + int \<times> py" where
  "shape_entry x = rbind (item_id x) (\<lambda>i. rbind (py_item x ''shape'') (\<lambda>s. Inr (i, s)))"

definition shapes_of :: "py \<Rightarrow> exn + (int \<times> py) list" where
  "shapes_of body =
     rbind (rbind (items_of body ''inputs'') (rmap shape_entry)) (\<lambda>ins.
     rbind (rbind (items_of body ''constants'') (rmap shape_entry)) (\<lambda>cs.
     rbind (rbind (items_of body ''nodes'') (rmap shape_entry)) (\<lambda>ns.
     Inr (rev (ins @ cs @ ns)))))"

definition shape_of_ref :: "(int \<times> py) list \<Rightarrow> py \<Rightarrow> exn + int list" where
  "shape_of_ref shapes ref = rbind (to_key ref) (\<lambda>k.
     case map_of shapes k of None \<Rightarrow> Inl (key_error ''shape'') | Some s \<Rightarrow> to_ints s)"

text \<open>One entry of \<open>attrs["starts"]\<close>.\<close>

definition symbolic_start ::
    "int list \<Rightarrow> int list \<Rightarrow> py list \<Rightarrow> var_use list \<Rightarrow> nat \<Rightarrow> py \<Rightarrow> exn + py \<times> var_use list" where
  "symbolic_start dims spans dyn uses axis spec =
     (if has_key spec ''static'' then Inr (spec, uses)
      else
        rbind (lget dims (int axis)) (\<lambda>n.
        rbind (lget spans (int axis)) (\<lambda>m.
        if n - m \<le> 0 then Inr (PDict [(''static'', PInt 0)], uses)
        else
          rbind (rbind (py_item spec ''input'') to_int) (\<lambda>j.
          rbind (lget dyn j) (\<lambda>ref.
          rbind (to_key ref) (\<lambda>k.
          Inr (PDict [(''symbolic'', PInt (int (length uses)))],
               uses @ [\<lparr>use_id = k, use_hi = n - m, use_name = ''nxw'' @ decimal (length uses)\<rparr>])))))))"

definition symbolic_node :: "(int \<times> py) list \<Rightarrow> var_use list \<Rightarrow> py \<Rightarrow> exn + py \<times> var_use list" where
  "symbolic_node shapes uses node =
     rbind (dyn_start_count node) (\<lambda>count.
     if count = 0 then Inr (node, uses)
     else
       rbind (node_op node) (\<lambda>op.
       rbind (node_inputs node) (\<lambda>ins.
       let first = (if op = PStr ''slice'' then 1 else 2); dyn = drop first ins in
       rbind (rbind (lget ins 0) (shape_of_ref shapes)) (\<lambda>dims.
       rbind (if op = PStr ''slice'' then attr_ints node ''lengths''
              else rbind (lget ins 1) (shape_of_ref shapes)) (\<lambda>spans.
       rbind (rbind (attr node ''starts'') to_list) (\<lambda>specs.
       rbind (rfold (\<lambda>(starts, us) (axis, spec).
           rbind (symbolic_start dims spans dyn us axis spec) (\<lambda>(s, us'). Inr (starts @ [s], us')))
         ([], uses) (enumerate 0 specs)) (\<lambda>(starts, uses').
       rbind (py_item node ''attrs'') (\<lambda>attrs.
       rbind (dict_with attrs ''starts'' (PList starts)) (\<lambda>attrs'.
       rbind (dict_with node ''attrs'' attrs') (\<lambda>node'.
       Inr (node', uses')))))))))))"

text \<open>The ancestors of the start ids: the node list, read backwards.\<close>

definition ancestor_step :: "int set \<times> py list \<Rightarrow> py \<Rightarrow> exn + int set \<times> py list" where
  "ancestor_step st node =
     rbind (py_get node ''id'' PNone) (\<lambda>i.
     rbind (id_defined i (fst st)) (\<lambda>hit.
     if hit then rbind (node_refs node) (\<lambda>refs. Inr (fst st \<union> set refs, node # snd st))
     else Inr st))"

record while_plan =
  sym_body :: py
  plan_uses :: "var_use list"
  anc_nodes :: "py list"
  anc_consts :: "py list"

definition symbolic_while_plan :: "py \<Rightarrow> exn + while_plan" where
  "symbolic_while_plan body =
     rbind (shapes_of body) (\<lambda>shapes.
     rbind (items_of body ''nodes'') (\<lambda>nodes.
     rbind (rfold (\<lambda>(ns, uses) node. rbind (symbolic_node shapes uses node) (\<lambda>(n, us). Inr (ns @ [n], us)))
       ([], []) nodes) (\<lambda>(new_nodes, uses).
     rbind (dict_with body ''nodes'' (PList new_nodes)) (\<lambda>sb.
     rbind (rfold ancestor_step (set (map use_id uses), []) (rev nodes)) (\<lambda>(needed, anc).
     rbind (items_of body ''constants'') (\<lambda>consts.
     rbind (rmap (\<lambda>c. rbind (item_id c) (\<lambda>i. Inr (i \<in> needed, c))) consts) (\<lambda>marked.
     Inr \<lparr>sym_body = sb, plan_uses = uses, anc_nodes = anc, anc_consts = map snd (filter fst marked)\<rparr>)))))))"

end
