(* ===== verification/Contractions.thy ===== *)
theory Contractions
  imports Operations
begin

text \<open>
  The remaining real operations of \<open>priv/worker/operations.py\<close>: gathers and scatters through a linear
  index, windows, convolution, the triangular solver and the general dot product.
\<close>

subsection \<open>Linear indices\<close>

text \<open>
  \<open>strides = [0] * k; acc = 1; for j in range(k - 1, -1, -1): strides[j] = acc; acc *= sizes[j]\<close>
\<close>

definition row_strides :: "nat \<Rightarrow> int list \<Rightarrow> exn + int list" where
  "row_strides k sizes =
     rbind (rfold (\<lambda>(strides, acc) j. rbind (lget sizes (int j)) (\<lambda>n. Inr (strides[j := acc], acc * n)))
       (replicate k 0, 1) (rev [0..<k])) (\<lambda>(strides, _). Inr strides)"

text \<open>\<open>lin = idx[:, 0] * strides[0]; for j in range(1, k): lin = lin + idx[:, j] * strides[j]\<close>\<close>

definition column :: "'t tg \<Rightarrow> 't \<Rightarrow> nat \<Rightarrow> exn + 't" where
  "column T idx j = call T (Index [Slice None None None, At (int j)]) [idx]"

definition column_term :: "'t tg \<Rightarrow> 't \<Rightarrow> int list \<Rightarrow> nat \<Rightarrow> exn + 't" where
  "column_term T idx strides j =
     rbind (column T idx j) (\<lambda>c. rbind (lget strides (int j)) (\<lambda>s. binr T ''*'' c (SInt s)))"

definition linear_index :: "'t tg \<Rightarrow> 't \<Rightarrow> int list \<Rightarrow> nat \<Rightarrow> exn + 't" where
  "linear_index T idx strides k =
     rbind (column_term T idx strides 0) (\<lambda>lin0.
     rfold (\<lambda>lin j. rbind (column_term T idx strides j) (\<lambda>c. bin T ''+'' lin c)) lin0 [1..<k])"

definition non_axes :: "nat \<Rightarrow> int list \<Rightarrow> int list" where
  "non_axes rank axes = filter (\<lambda>d. d \<notin> set axes) (map int [0..<rank])"

definition shape_at :: "int list \<Rightarrow> int list \<Rightarrow> exn + int list" where
  "shape_at shape axes = rmap (lget shape) axes"

definition gather :: "'t tg \<Rightarrow> py \<Rightarrow> 't env \<Rightarrow> exn + 't" where
  "gather T node env =
     rbind (tensor_in node env 0) (\<lambda>t.
     rbind (tensor_in node env 1) (\<lambda>idx.
     rbind (attr_ints node ''axes'') (\<lambda>axes.
     let non = non_axes (length (shp T t)) axes in
     rbind (shape_at (shp T t) axes) (\<lambda>a_sizes.
     rbind (shape_at (shp T t) non) (\<lambda>b_sizes.
     rbind (lget (shp T idx) (- 1)) (\<lambda>k.
     let batch = butlast (shp T idx); rows = prod batch; combined = prod a_sizes in
     rbind (permute T t (axes @ non)) (\<lambda>tp.
     rbind (reshape T tp (combined # b_sizes)) (\<lambda>t3.
     rbind (row_strides (nat k) a_sizes) (\<lambda>strides.
     rbind (rbind (reshape T idx [rows, k]) (\<lambda>f. call T (Cast TgInt32) [f])) (\<lambda>flat_idx.
     rbind (linear_index T flat_idx strides (nat k)) (\<lambda>lin.
     rbind (call T Gather [t3, lin]) (\<lambda>r.
     reshape T r (batch @ b_sizes)))))))))))))"

definition indexed :: "'t tg \<Rightarrow> py \<Rightarrow> 't env \<Rightarrow> exn + 't" where
  "indexed T node env =
     rbind (tensor_in node env 0) (\<lambda>t.
     rbind (rbind (tensor_in node env 1) (\<lambda>i. call T (Cast TgInt32) [i])) (\<lambda>idx.
     rbind (tensor_in node env 2) (\<lambda>upd.
     rbind (attr_ints node ''axes'') (\<lambda>axes.
     let rank = length (shp T t); non = non_axes rank axes in
     rbind (shape_at (shp T t) axes) (\<lambda>a_sizes.
     rbind (shape_at (shp T t) non) (\<lambda>b_sizes.
     let combined = prod a_sizes in
     rbind (lget (shp T idx) 0) (\<lambda>rows.
     let perm = axes @ non in
     rbind (rbind (permute T t perm) (\<lambda>tp. reshape T tp (combined # b_sizes))) (\<lambda>t2.
     rbind (row_strides (length a_sizes) a_sizes) (\<lambda>strides.
     rbind (linear_index T idx strides (length a_sizes)) (\<lambda>lin.
     rbind (rbind (reshape T upd (rows # b_sizes)) (\<lambda>u. call T (Cast (dt T t2)) [u])) (\<lambda>src.
     rbind (rbind (reshape T lin (rows # ones (length b_sizes))) (\<lambda>l. expand T l (rows # b_sizes))) (\<lambda>index.
     rbind (node_op node) (\<lambda>op.
     rbind (if op = PStr ''indexed_add'' then call T (ScatterSum 0) [t2, index, src]
            else call T (Scatter 0) [t2, index, src]) (\<lambda>out.
     rbind (reshape T out (a_sizes @ b_sizes)) (\<lambda>r.
     rbind (inverse_perm rank perm) (\<lambda>inverse.
     permute T r inverse))))))))))))))))"

subsection \<open>Windows\<close>

definition any_padding :: "(int \<times> int) list \<Rightarrow> bool" where
  "any_padding ps = list_ex (\<lambda>(lo, hi). lo \<noteq> 0 \<or> hi \<noteq> 0) ps"

definition WINDOW_IDENTITY :: "(string \<times> scalar) list" where
  "WINDOW_IDENTITY = [(''window_sum'', SRat 0), (''window_max'', SInf True), (''window_min'', SInf False),
     (''window_product'', SRat 1)]"

definition window_axes :: "nat \<Rightarrow> int list" where
  "window_axes rank = map int [rank..<2 * rank]"

definition window :: "'t tg \<Rightarrow> py \<Rightarrow> 't env \<Rightarrow> exn + 't" where
  "window T node env =
     rbind (tensor_in node env 0) (\<lambda>t.
     rbind (node_op node) (\<lambda>op.
     let rank = length (shp T t) in
     rbind (rbind (attr node ''padding'') to_pairs) (\<lambda>padding.
     rbind (if any_padding padding then
              rbind (table_find WINDOW_IDENTITY op) (\<lambda>r. case r of
                  None \<Rightarrow> Inl (key_error ''op'')
                | Some v \<Rightarrow> call T (Pad (pad_lit padding) (as_float v)) [t])
            else Inr t) (\<lambda>t'.
     rbind (attr_ints node ''window'') (\<lambda>win.
     rbind (attr_ints node ''strides'') (\<lambda>strides.
     rbind (attr_ints node ''window_dilations'') (\<lambda>dils.
     rbind (call T (Pool win strides dils) [t']) (\<lambda>pooled.
     call T (Reduce (if op = PStr ''window_sum'' then ''sum'' else if op = PStr ''window_max'' then ''max''
                     else if op = PStr ''window_min'' then ''min'' else ''prod'') (window_axes rank) False)
       [pooled]))))))))"

text \<open>\<open>out_shape = [1] * total_rank; out_shape[a] = d\<close>, then \<open>Tensor.arange(d).reshape(out_shape)\<close>\<close>

definition axis_counter :: "'t tg \<Rightarrow> nat \<Rightarrow> nat \<Rightarrow> int \<Rightarrow> exn + 't" where
  "axis_counter T tr a d = rbind (arange T d) (\<lambda>x. reshape T x ((ones tr)[a := d]))"

text \<open>The linear index into the flat padded operand of every element of every window.\<close>

definition window_term ::
    "'t tg \<Rightarrow> nat \<Rightarrow> int list \<Rightarrow> int list \<Rightarrow> int list \<Rightarrow> int list \<Rightarrow> nat \<Rightarrow> exn + 't" where
  "window_term T rank out_dims win_dims strides pstrides a =
     rbind (lget out_dims (int a)) (\<lambda>od.
     rbind (axis_counter T (2 * rank) a od) (\<lambda>oc.
     rbind (lget win_dims (int a)) (\<lambda>wd.
     rbind (axis_counter T (2 * rank) (rank + a) wd) (\<lambda>wc.
     rbind (lget strides (int a)) (\<lambda>s.
     rbind (binr T ''*'' oc (SInt s)) (\<lambda>os.
     rbind (bin T ''+'' os wc) (\<lambda>coord.
     rbind (lget pstrides (int a)) (\<lambda>ps.
     binr T ''*'' coord (SInt ps)))))))))"

definition window_linear ::
    "'t tg \<Rightarrow> nat \<Rightarrow> int list \<Rightarrow> int list \<Rightarrow> int list \<Rightarrow> int list \<Rightarrow> exn + 't option" where
  "window_linear T rank out_dims win_dims strides pstrides =
     rfold (\<lambda>lin a. rbind (window_term T rank out_dims win_dims strides pstrides a) (\<lambda>term.
       case lin of None \<Rightarrow> Inr (Some term) | Some l \<Rightarrow> rbind (bin T ''+'' l term) (\<lambda>s. Inr (Some s))))
       None [0..<rank]"

text \<open>A one-hot mark, in every window, of its last extreme element.\<close>

definition window_selected :: "'t tg \<Rightarrow> bool \<Rightarrow> nat \<Rightarrow> 't \<Rightarrow> int \<Rightarrow> exn + 't" where
  "window_selected T is_max rank flat_win n_win =
     rbind (call T (Reduce (if is_max then ''max'' else ''min'') [int rank] True) [flat_win]) (\<lambda>best.
     rbind (rbind (arange T n_win) (\<lambda>x. reshape T x (ones rank @ [n_win]))) (\<lambda>widx.
     rbind (rbind (bin T ''=='' flat_win best) (\<lambda>hit.
              call T (Where None (Some (SInt (- 1)))) [hit, widx])) (\<lambda>marks.
     rbind (call T (Reduce ''max'' [int rank] True) [marks]) (\<lambda>last_hit.
     bin T ''=='' widx last_hit))))"

definition window_scatter :: "'t tg \<Rightarrow> py \<Rightarrow> 't env \<Rightarrow> exn + 't" where
  "window_scatter T node env =
     rbind (node_op node) (\<lambda>op.
     rbind (tensor_in node env 0) (\<lambda>t.
     rbind (tensor_in node env 1) (\<lambda>source.
     rbind (rbind (attr node ''init'') num_of) (\<lambda>init.
     rbind (attr_ints node ''window'') (\<lambda>win.
     rbind (attr_ints node ''strides'') (\<lambda>strides.
     rbind (rbind (attr node ''padding'') to_pairs) (\<lambda>padding.
     let rank = length (shp T t); is_max = (op = PStr ''window_scatter_max'') in
     rbind (if any_padding padding then call T (Pad (pad_lit padding) (SInf is_max)) [t] else Inr t) (\<lambda>padded.
     let pshape = shp T padded in
     rbind (call T (Pool win strides [1]) [padded]) (\<lambda>windows.
     let out_dims = take rank (shp T windows); win_dims = drop rank (shp T windows); n_win = prod win_dims in
     rbind (reshape T windows (out_dims @ [n_win])) (\<lambda>flat_win.
     rbind (window_selected T is_max rank flat_win n_win) (\<lambda>selected.
     rbind (reshape T source (out_dims @ [1])) (\<lambda>src.
     rbind (rbind (bin T ''*'' selected src) (\<lambda>c. reshape T c (out_dims @ win_dims))) (\<lambda>contrib.
     rbind (row_strides rank pshape) (\<lambda>pstrides.
     rbind (window_linear T rank out_dims win_dims strides pstrides) (\<lambda>lin.
     case lin of None \<Rightarrow> Inl (attribute_error ''expand'')
     | Some l \<Rightarrow>
     rbind (rbind (rbind (expand T l (out_dims @ win_dims)) (\<lambda>e. reshape T e [- 1])) (\<lambda>f.
              call T (Cast TgInt32) [f])) (\<lambda>index.
     rbind (reshape T contrib [- 1]) (\<lambda>vals'.
     rbind (call T (Zeros (prod pshape) (dt T vals')) []) (\<lambda>zeros.
     rbind (call T (ScatterSum 0) [zeros, index, vals']) (\<lambda>scattered.
     rbind (rbind (reshape T scattered pshape) (\<lambda>r. binr T ''+'' r (as_float init))) (\<lambda>out.
     if any_padding padding then
       rbind (rmap (\<lambda>(a, lo, hi). rbind (lget (shp T t) (int a)) (\<lambda>n. Inr (Slice (Some lo) (Some (lo + n)) None)))
                (enumerate 0 padding)) (\<lambda>idx.
       call T (Index idx) [out])
     else Inr out))))))))))))))))))))"

subsection \<open>Convolution\<close>

text \<open>\<open>_dilate\<close>: \<open>d - 1\<close> zeros between the elements of axis \<open>2 + i\<close>.\<close>

definition dilate_axis :: "'t tg \<Rightarrow> 't \<Rightarrow> nat \<Rightarrow> int \<Rightarrow> exn + 't" where
  "dilate_axis T x axis d =
     (let shape = shp T x in
      rbind (lget shape (int axis)) (\<lambda>n.
      rbind (reshape T x (take (axis + 1) shape @ [1] @ drop (axis + 1) shape)) (\<lambda>x1.
      rbind (call T (Pad (pad_lit ((replicate (length (shp T x1)) (0, 0))[axis + 1 := (0, d - 1)])) (SRat 0)) [x1]) (\<lambda>x2.
      rbind (reshape T x2 (take axis shape @ [n * d] @ drop (axis + 1) shape)) (\<lambda>x3.
      call T (Index (map (\<lambda>j. if j = axis then Slice (Some 0) (Some ((n - 1) * d + 1)) None
        else Slice None None None) [0..<length (shp T x3)])) [x3])))))"

definition dilate :: "'t tg \<Rightarrow> 't \<Rightarrow> int list \<Rightarrow> exn + 't" where
  "dilate T x dilation =
     rfold (\<lambda>x (i, d). if d \<le> 1 then Inr x else dilate_axis T x (2 + i) d) x (enumerate 0 dilation)"

definition conv :: "'t tg \<Rightarrow> py \<Rightarrow> 't env \<Rightarrow> exn + 't" where
  "conv T node env =
     rbind (tensor_in node env 0) (\<lambda>x.
     rbind (tensor_in node env 1) (\<lambda>w.
     rbind (attr node ''batch_group_size'') (\<lambda>bg.
     if \<not> py_eq bg (PInt 1) then Inl (unsupported ''conv batch_group_size != 1 is not supported'' [])
     else
       rbind (rbind (attr_ints node ''input_permutation'') (permute T x)) (\<lambda>x1.
       rbind (rbind (attr_ints node ''kernel_permutation'') (permute T w)) (\<lambda>w1.
       rbind (attr_ints node ''input_dilation'') (\<lambda>dil.
       rbind (if list_ex (\<lambda>d. d \<noteq> 1) dil then dilate T x1 dil else Inr x1) (\<lambda>x2.
       rbind (rbind (attr node ''padding'') to_pairs) (\<lambda>padding.
       let pad_config = [(0, 0), (0, 0)] @ padding in
       rbind (if any_padding pad_config then call T (Pad (pad_lit pad_config) (SRat 0)) [x2] else Inr x2) (\<lambda>x3.
       rbind (rbind (attr node ''feature_group_size'') to_int) (\<lambda>groups.
       rbind (attr_ints node ''strides'') (\<lambda>strides.
       rbind (attr_ints node ''kernel_dilation'') (\<lambda>kdil.
       rbind (call T (Conv2d groups strides kdil) [x3, w1]) (\<lambda>out.
       rbind (attr_ints node ''output_permutation'') (\<lambda>op.
       rbind (inverse_perm (length op) op) (\<lambda>inverse.
       permute T out inverse)))))))))))))))"

subsection \<open>Triangular solve\<close>

text \<open>
  One unknown: \<open>acc = rhs[i]; for j, xj in solved.items(): acc = acc - a[i, j] * xj; acc / a[i, i]\<close>. The
  dictionary \<open>solved\<close> is the list of its items in insertion order.
\<close>

definition solve_row :: "'t tg \<Rightarrow> 't \<Rightarrow> 't \<Rightarrow> (nat \<times> 't) list \<Rightarrow> nat \<Rightarrow> exn + (nat \<times> 't) list" where
  "solve_row T a rhs solved i =
     rbind (call T (Index [At (int i)]) [rhs]) (\<lambda>acc0.
     rbind (rfold (\<lambda>acc (j, xj).
         rbind (call T (Index [At (int i), At (int j)]) [a]) (\<lambda>aij.
         rbind (bin T ''*'' aij xj) (\<lambda>p.
         bin T ''-'' acc p))) acc0 solved) (\<lambda>acc.
     rbind (call T (Index [At (int i), At (int i)]) [a]) (\<lambda>aii.
     rbind (bin T ''/'' acc aii) (\<lambda>xi.
     Inr (solved @ [(i, xi)])))))"

definition stack_rows :: "'t tg \<Rightarrow> (nat \<times> 't) list \<Rightarrow> nat \<Rightarrow> exn + 't option" where
  "stack_rows T solved n =
     rfold (\<lambda>stacked i.
       case map_of solved i of None \<Rightarrow> Inl (key_error ''i'')
       | Some xi \<Rightarrow> rbind (reshape T xi (1 # shp T xi)) (\<lambda>row.
           case stacked of None \<Rightarrow> Inr (Some row)
           | Some s \<Rightarrow> rbind (call T (Cat 0) [s, row]) (\<lambda>c. Inr (Some c)))) None [0..<n]"

definition triangular_solve :: "'t tg \<Rightarrow> py \<Rightarrow> 't env \<Rightarrow> exn + 't" where
  "triangular_solve T node env =
     rbind (tensor_in node env 0) (\<lambda>a0.
     rbind (tensor_in node env 1) (\<lambda>b.
     rbind (attr node ''left_side'') (\<lambda>left.
     if \<not> py_truth left then Inl (unsupported ''triangular_solve with left_side=false is not supported'' [])
     else
       rbind (attr node ''lower'') (\<lambda>lower0.
       rbind (attr node ''transform_a'') (\<lambda>tr.
       rbind (if tr = PStr ''transpose'' then rbind (permute T a0 [1, 0]) (\<lambda>a. Inr (a, \<not> py_truth lower0))
              else if tr \<noteq> PStr ''none'' then
                Inl (unsupported ''triangular_solve transform_a={transform!r} is not supported'' [])
              else Inr (a0, py_truth lower0)) (\<lambda>(a, lower).
       rbind (lget (shp T a) 0) (\<lambda>n.
       let is_vector = (length (shp T b) = 1) in
       rbind (if is_vector then reshape T b [n, 1] else Inr b) (\<lambda>rhs.
       rbind (rfold (solve_row T a rhs) [] (if lower then [0..<nat n] else rev [0..<nat n])) (\<lambda>solved.
       rbind (stack_rows T solved (nat n)) (\<lambda>stacked.
       case stacked of None \<Rightarrow> Inl (attribute_error ''reshape'')
       | Some s \<Rightarrow> if is_vector then reshape T s [n] else Inr s))))))))))"

subsection \<open>Dot\<close>

definition LETTERS :: string where
  "LETTERS = ''abcdefghijklmnopqrstuvwxyzABCDEFGHIJKLMNOPQRSTUVWXYZ''"

definition letter :: "nat \<Rightarrow> exn + char" where
  "letter nxt = lget LETTERS (int nxt)"

text \<open>Letters for paired axes: the same letter on both operands.\<close>

definition paired_letters ::
    "nat \<Rightarrow> char option list \<Rightarrow> char option list \<Rightarrow> (int \<times> int) list \<Rightarrow>
     exn + nat \<times> char option list \<times> char option list \<times> string" where
  "paired_letters nxt sa sb pairs =
     rfold (\<lambda>(nxt, sa, sb, cs) (la, lb).
       rbind (letter nxt) (\<lambda>c.
       rbind (lset sa la (Some c)) (\<lambda>sa'.
       rbind (lset sb lb (Some c)) (\<lambda>sb'.
       Inr (Suc nxt, sa', sb', cs @ [c]))))) (nxt, sa, sb, []) pairs"

text \<open>Letters for the axes that have none yet.\<close>

definition free_letters :: "nat \<Rightarrow> char option list \<Rightarrow> exn + nat \<times> char option list \<times> string" where
  "free_letters nxt s =
     rfold (\<lambda>(nxt, s, cs) i.
       if s ! i = None then rbind (letter nxt) (\<lambda>c. Inr (Suc nxt, s[i := Some c], cs @ [c]))
       else Inr (nxt, s, cs)) (nxt, s, []) [0..<length s]"

definition join_letters :: "char option list \<Rightarrow> string" where
  "join_letters s = map (\<lambda>c. case c of None \<Rightarrow> CHR ''?'' | Some x \<Rightarrow> x) s"

definition einsum_subscripts ::
    "nat \<Rightarrow> nat \<Rightarrow> int list \<Rightarrow> int list \<Rightarrow> int list \<Rightarrow> int list \<Rightarrow> exn + string \<times> string \<times> string" where
  "einsum_subscripts ra rb ca cb ba bb =
     rbind (paired_letters 0 (replicate ra None) (replicate rb None) (zip ba bb)) (\<lambda>(n1, sa1, sb1, batch).
     rbind (paired_letters n1 sa1 sb1 (zip ca cb)) (\<lambda>(n2, sa2, sb2, _).
     rbind (free_letters n2 sa2) (\<lambda>(n3, sa3, free_a).
     rbind (free_letters n3 sb2) (\<lambda>(n4, sb3, free_b).
     Inr (join_letters sa3, join_letters sb3, batch @ free_a @ free_b)))))"

definition einsum_dot :: "'t tg \<Rightarrow> 't \<Rightarrow> 't \<Rightarrow> int list \<Rightarrow> int list \<Rightarrow> int list \<Rightarrow> int list \<Rightarrow> exn + 't" where
  "einsum_dot T a b ca cb ba bb =
     rbind (einsum_subscripts (length (shp T a)) (length (shp T b)) ca cb ba bb) (\<lambda>(sa, sb, out).
     call T (Einsum (sa @ '','' @ sb @ ''->'' @ out)) [a, b])"

definition dot :: "'t tg \<Rightarrow> py \<Rightarrow> 't env \<Rightarrow> exn + 't" where
  "dot T node env =
     rbind (tensor_in node env 0) (\<lambda>a.
     rbind (tensor_in node env 1) (\<lambda>b.
     rbind (attr_ints node ''contract_left'') (\<lambda>ca.
     rbind (attr_ints node ''contract_right'') (\<lambda>cb.
     rbind (attr_ints node ''batch_left'') (\<lambda>ba.
     rbind (attr_ints node ''batch_right'') (\<lambda>bb.
     einsum_dot T a b ca cb ba bb))))))"

end
