(* ===== verification/ComplexOps.thy ===== *)
theory ComplexOps
  imports Contractions
begin

text \<open>
  Complex tensors and the dispatch of \<open>priv/worker/operations.py\<close>. A complex tensor of shape \<open>S\<close> is a real
  tensor of shape \<open>S + [2]\<close> in the wrapper \<open>Cx\<close>; \<open>apply_complex\<close> is the table of operations on them and
  \<open>apply\<close> the entry point, which takes that path when the result or an operand is complex and casts
  every result to the node's declared dtype.
\<close>

definition re_part :: "'t tg \<Rightarrow> 't \<Rightarrow> exn + 't" where
  "re_part T t = call T (Index [Dots, At 0]) [t]"

definition im_part :: "'t tg \<Rightarrow> 't \<Rightarrow> exn + 't" where
  "im_part T t = call T (Index [Dots, At 1]) [t]"

definition cxt :: "'t tg \<Rightarrow> 't \<Rightarrow> 't \<Rightarrow> exn + 't" where
  "cxt T re im =
     rbind (reshape T re (shp T re @ [1])) (\<lambda>r.
     rbind (reshape T im (shp T im @ [1])) (\<lambda>i.
     call T (Cat (- 1)) [r, i]))"

definition promote :: "'t tg \<Rightarrow> 't val \<Rightarrow> exn + 't" where
  "promote T x = (case x of Cx t \<Rightarrow> Inr t
     | Tn t \<Rightarrow> rbind (binr T ''*'' t (SInt 0)) (\<lambda>z. cxt T t z))"

text \<open>The real and imaginary parts of an operand.\<close>

definition parts :: "'t tg \<Rightarrow> 't \<Rightarrow> exn + 't \<times> 't" where
  "parts T t = rbind (re_part T t) (\<lambda>re. rbind (im_part T t) (\<lambda>im. Inr (re, im)))"

subsection \<open>Fourier transform\<close>

text \<open>\<open>2.0 * math.pi / n\<close> and \<open>1.0 / n\<close>\<close>

definition float_div :: "(rat \<Rightarrow> scalar) \<Rightarrow> rat \<Rightarrow> int \<Rightarrow> exn + scalar" where
  "float_div mk q n =
     (if n = 0 then Inl (PyErr ''ZeroDivisionError'' ''float division by zero'') else Inr (mk (q / of_int n)))"

definition dft_perm :: "nat \<Rightarrow> int \<Rightarrow> int list" where
  "dft_perm rank axis = filter (\<lambda>a. a \<noteq> axis) (map int [0..<rank]) @ [axis]"

definition dft :: "'t tg \<Rightarrow> 't \<Rightarrow> int \<Rightarrow> int \<Rightarrow> bool \<Rightarrow> exn + 't" where
  "dft T t n axis is_inverse =
     rbind (rbind (arange T n) (\<lambda>x. reshape T x [n, 1])) (\<lambda>k.
     rbind (rbind (arange T n) (\<lambda>x. reshape T x [1, n])) (\<lambda>m.
     rbind (float_div SPi 2 n) (\<lambda>step.
     rbind (rbind (bin T ''*'' k m) (\<lambda>p. call T (Cast TgFloat32) [p])) (\<lambda>km.
     rbind (binl T ''*'' step km) (\<lambda>theta.
     rbind (un T ''cos'' theta) (\<lambda>wr.
     rbind (rbind (if is_inverse then Inr theta else un T ''neg'' theta) (un T ''sin'')) (\<lambda>wi.
     rbind (parts T t) (\<lambda>(xr0, xi0).
     let rank = length (shp T xr0); perm = dft_perm rank axis in
     rbind (inverse_perm rank perm) (\<lambda>inv.
     rbind (permute T xr0 perm) (\<lambda>xr.
     rbind (permute T xi0 perm) (\<lambda>xi.
     rbind (call T (Transpose 0 1) [wr]) (\<lambda>wr_t.
     rbind (call T (Transpose 0 1) [wi]) (\<lambda>wi_t.
     rbind (rbind (call T Matmul [xr, wr_t]) (\<lambda>p. rbind (call T Matmul [xi, wi_t]) (bin T ''-'' p))) (\<lambda>yr.
     rbind (rbind (call T Matmul [xr, wi_t]) (\<lambda>p. rbind (call T Matmul [xi, wr_t]) (bin T ''+'' p))) (\<lambda>yi.
     rbind (if is_inverse then
              rbind (float_div SRat 1 n) (\<lambda>s. rbind (binr T ''*'' yr s) (\<lambda>yr'.
              rbind (binr T ''*'' yi s) (\<lambda>yi'. Inr (yr', yi'))))
            else Inr (yr, yi)) (\<lambda>(yr', yi').
     rbind (permute T yr' inv) (\<lambda>zr.
     rbind (permute T yi' inv) (\<lambda>zi.
     cxt T zr zi))))))))))))))))))"

subsection \<open>Complex operations\<close>

text \<open>Arithmetic on the four parts \<open>a = (ar, ai)\<close> and \<open>b = (br, bi)\<close>, as expressions.\<close>

definition cx_multiply :: "expr \<times> expr" where
  "cx_multiply =
     (Op2 ''-'' (Op2 ''*'' (Arg 0) (Arg 2)) (Op2 ''*'' (Arg 1) (Arg 3)),
      Op2 ''+'' (Op2 ''*'' (Arg 0) (Arg 3)) (Op2 ''*'' (Arg 1) (Arg 2)))"

definition cx_divide :: "expr \<times> expr" where
  "cx_divide =
     (let d = Op2 ''+'' (Op2 ''*'' (Arg 2) (Arg 2)) (Op2 ''*'' (Arg 3) (Arg 3)) in
      (Op2 ''/'' (Op2 ''+'' (Op2 ''*'' (Arg 0) (Arg 2)) (Op2 ''*'' (Arg 1) (Arg 3))) d,
       Op2 ''/'' (Op2 ''-'' (Op2 ''*'' (Arg 1) (Arg 2)) (Op2 ''*'' (Arg 0) (Arg 3))) d))"

definition cx_conjugate :: "expr \<times> expr" where
  "cx_conjugate = (Arg 0, Op1 ''neg'' (Arg 1))"

definition cx_exp :: "expr \<times> expr" where
  "cx_exp = (let e = Op1 ''exp'' (Arg 0) in
     (Op2 ''*'' e (Op1 ''cos'' (Arg 1)), Op2 ''*'' e (Op1 ''sin'' (Arg 1))))"

definition cx_abs :: expr where
  "cx_abs = Op1 ''sqrt'' (Op2 ''+'' (Op2 ''*'' (Arg 0) (Arg 0)) (Op2 ''*'' (Arg 1) (Arg 1)))"

definition cx_pair :: "'t tg \<Rightarrow> 't list \<Rightarrow> expr \<times> expr \<Rightarrow> exn + 't val" where
  "cx_pair T vs e =
     rbind (elementwise T vs (fst e)) (\<lambda>re.
     rbind (elementwise T vs (snd e)) (\<lambda>im.
     rbind (cxt T re im) (\<lambda>r. Inr (Cx r))))"

definition as_cx :: "exn + 't \<Rightarrow> exn + 't val" where
  "as_cx m = rbind m (\<lambda>t. Inr (Cx t))"

definition as_tn :: "exn + 't \<Rightarrow> exn + 't val" where
  "as_tn m = rbind m (\<lambda>t. Inr (Tn t))"

definition promoted :: "'t tg \<Rightarrow> 't val list \<Rightarrow> int \<Rightarrow> exn + 't" where
  "promoted T ins i = rbind (lget ins i) (promote T)"

definition cx_unary :: "'t tg \<Rightarrow> 't val list \<Rightarrow> expr \<times> expr \<Rightarrow> exn + 't val" where
  "cx_unary T ins e = rbind (promoted T ins 0) (\<lambda>a. rbind (parts T a) (\<lambda>(ar, ai). cx_pair T [ar, ai] e))"

definition cx_binary :: "'t tg \<Rightarrow> 't val list \<Rightarrow> expr \<times> expr \<Rightarrow> exn + 't val" where
  "cx_binary T ins e =
     rbind (promoted T ins 0) (\<lambda>a. rbind (promoted T ins 1) (\<lambda>b.
     rbind (parts T a) (\<lambda>(ar, ai). rbind (parts T b) (\<lambda>(br, bi).
     cx_pair T [ar, ai, br, bi] e))))"

definition cx_broadcast :: "'t tg \<Rightarrow> py \<Rightarrow> 't val list \<Rightarrow> exn + 't" where
  "cx_broadcast T node ins =
     rbind (attr_ints node ''shape'') (\<lambda>out.
     rbind (attr_ints node ''axes'') (\<lambda>axes.
     rbind (promoted T ins 0) (\<lambda>a.
     rbind (place_dims (ones (length out) @ [2]) (shp T a) axes) (\<lambda>spread.
     rbind (reshape T a spread) (\<lambda>r.
     expand T r (out @ [2]))))))"

definition cx_slice :: "'t tg \<Rightarrow> py \<Rightarrow> 't val list \<Rightarrow> exn + 't" where
  "cx_slice T node ins =
     rbind (promoted T ins 0) (\<lambda>a.
     rbind (rbind (attr node ''starts'') to_list) (\<lambda>specs.
     rbind (rmap (\<lambda>s. rbind (py_item s ''static'') to_int) specs) (\<lambda>starts.
     rbind (attr_ints node ''lengths'') (\<lambda>lengths.
     rbind (attr_ints node ''strides'') (\<lambda>strides.
     call T (Index (map (\<lambda>(s, l, st). Slice (Some s) (Some (s + l)) (Some st)) (zip starts (zip lengths strides))
        @ [Slice None None None])) [a])))))"

definition cx_sum :: "'t tg \<Rightarrow> py \<Rightarrow> 't val list \<Rightarrow> exn + 't" where
  "cx_sum T node ins =
     rbind (promoted T ins 0) (\<lambda>a.
     rbind (attr_ints node ''axes'') (\<lambda>axes.
     rbind (attr node ''keep_axes'') (\<lambda>keep.
     rbind (rbind (re_part T a) (\<lambda>x. call T (Reduce ''sum'' axes (py_truth keep)) [x])) (\<lambda>re.
     rbind (rbind (im_part T a) (\<lambda>x. call T (Reduce ''sum'' axes (py_truth keep)) [x])) (\<lambda>im.
     cxt T re im)))))"

definition cx_dot :: "'t tg \<Rightarrow> py \<Rightarrow> 't val list \<Rightarrow> exn + 't" where
  "cx_dot T node ins =
     rbind (promoted T ins 0) (\<lambda>a. rbind (promoted T ins 1) (\<lambda>b.
     rbind (attr_ints node ''contract_left'') (\<lambda>ca.
     rbind (attr_ints node ''contract_right'') (\<lambda>cb.
     rbind (attr_ints node ''batch_left'') (\<lambda>ba.
     rbind (attr_ints node ''batch_right'') (\<lambda>bb.
     rbind (parts T a) (\<lambda>(ar, ai). rbind (parts T b) (\<lambda>(br, bi).
     rbind (rbind (einsum_dot T ar br ca cb ba bb) (\<lambda>p. rbind (einsum_dot T ai bi ca cb ba bb) (bin T ''-'' p))) (\<lambda>re.
     rbind (rbind (einsum_dot T ar bi ca cb ba bb) (\<lambda>p. rbind (einsum_dot T ai br ca cb ba bb) (bin T ''+'' p))) (\<lambda>im.
     cxt T re im))))))))))"

definition cx_select :: "'t tg \<Rightarrow> 't val list \<Rightarrow> exn + 't" where
  "cx_select T ins =
     rbind (rbind (lget ins 0) as_tensor) (\<lambda>c0.
     rbind (call T (Cast TgBool) [c0]) (\<lambda>c.
     rbind (promoted T ins 1) (\<lambda>a. rbind (promoted T ins 2) (\<lambda>b.
     rbind (reshape T c (shp T c @ [1])) (\<lambda>c1.
     call T (Where None None) [c1, a, b])))))"

definition apply_complex :: "'t tg \<Rightarrow> py \<Rightarrow> 't val list \<Rightarrow> exn + 't val" where
  "apply_complex T node ins =
     rbind (node_op node) (\<lambda>op.
     rbind (node_shape node) (\<lambda>shape.
     if op = PStr ''add'' then
       as_cx (rbind (promoted T ins 0) (\<lambda>a. rbind (promoted T ins 1) (bin T ''+'' a)))
     else if op = PStr ''subtract'' then
       as_cx (rbind (promoted T ins 0) (\<lambda>a. rbind (promoted T ins 1) (bin T ''-'' a)))
     else if op = PStr ''negate'' then as_cx (rbind (promoted T ins 0) (un T ''neg''))
     else if op = PStr ''multiply'' then cx_binary T ins cx_multiply
     else if op = PStr ''divide'' then cx_binary T ins cx_divide
     else if op = PStr ''conjugate'' then cx_unary T ins cx_conjugate
     else if op = PStr ''exp'' then cx_unary T ins cx_exp
     else if op = PStr ''real'' then as_tn (rbind (promoted T ins 0) (re_part T))
     else if op = PStr ''imag'' then as_tn (rbind (promoted T ins 0) (im_part T))
     else if op = PStr ''abs'' then
       as_tn (rbind (promoted T ins 0) (\<lambda>a. rbind (parts T a) (\<lambda>(ar, ai). elementwise T [ar, ai] cx_abs)))
     else if op = PStr ''as_type'' then as_cx (promoted T ins 0)
     else if op \<in> {PStr ''reshape'', PStr ''squeeze''} then
       as_cx (rbind (promoted T ins 0) (\<lambda>a. reshape T a (shape @ [2])))
     else if op = PStr ''transpose'' then
       as_cx (rbind (attr_ints node ''axes'') (\<lambda>axes. rbind (promoted T ins 0) (\<lambda>a.
         permute T a (axes @ [int (length shape)]))))
     else if op = PStr ''reverse'' then
       as_cx (rbind (promoted T ins 0) (\<lambda>a. rbind (attr_ints node ''axes'') (\<lambda>axes. call T (Flip axes) [a])))
     else if op = PStr ''broadcast'' then as_cx (cx_broadcast T node ins)
     else if op = PStr ''slice'' then as_cx (cx_slice T node ins)
     else if op = PStr ''concatenate'' then
       as_cx (rbind (rmap (promote T) ins) (\<lambda>ps. rbind (rbind (attr node ''axis'') to_int) (\<lambda>axis.
         case ps of [] \<Rightarrow> Inl (index_error ()) | _ \<Rightarrow> call T (Cat axis) ps)))
     else if op \<in> {PStr ''sum'', PStr ''reduce_max'', PStr ''reduce_min''} then as_cx (cx_sum T node ins)
     else if op = PStr ''dot'' then as_cx (cx_dot T node ins)
     else if op \<in> {PStr ''fft'', PStr ''ifft''} then
       as_cx (rbind (promoted T ins 0) (\<lambda>a.
         rbind (rbind (attr node ''length'') to_int) (\<lambda>n.
         rbind (rbind (attr node ''axis'') to_int) (\<lambda>axis.
         dft T a n axis (op = PStr ''ifft'')))))
     else if op = PStr ''iota'' then as_cx (rbind (iota T node) (\<lambda>t. promote T (Tn t)))
     else if op = PStr ''select'' then as_cx (cx_select T ins)
     else Inl (unsupported ''complex op not supported: {op}'' [(''op'', op)])))"

subsection \<open>apply\<close>

definition op_in :: "py \<Rightarrow> string list \<Rightarrow> bool" where
  "op_in op names = (\<exists>s \<in> set names. op = PStr s)"

definition expr_of :: "(string \<times> expr) list \<Rightarrow> py \<Rightarrow> expr option" where
  "expr_of tab op = (case op of PStr s \<Rightarrow> map_of tab s | _ \<Rightarrow> None)"

definition select_op :: "'t tg \<Rightarrow> py \<Rightarrow> 't env \<Rightarrow> exn + 't" where
  "select_op T node env =
     rbind (rbind (tensor_in node env 0) (\<lambda>c. call T (Cast TgBool) [c])) (\<lambda>c.
     rbind (rbind (py_item node ''dtype'') tinygrad_dtype) (\<lambda>out_dt.
     rbind (rbind (tensor_in node env 1) (\<lambda>a. call T (Cast out_dt) [a])) (\<lambda>a.
     rbind (rbind (tensor_in node env 2) (\<lambda>b. call T (Cast out_dt) [b])) (\<lambda>b.
     call T (Where None None) [c, a, b]))))"

definition bitcast_op :: "'t tg \<Rightarrow> py \<Rightarrow> 't env \<Rightarrow> exn + 't" where
  "bitcast_op T node env =
     rbind (tensor_in node env 0) (\<lambda>t.
     rbind (if realized T t then call T Clone [t] else Inr t) (\<lambda>src.
     rbind (rbind (py_item node ''dtype'') tinygrad_dtype) (\<lambda>d.
     call T (Bitcast d) [src])))"

text \<open>The table of the real path.\<close>

definition apply_real :: "'t tg \<Rightarrow> py \<Rightarrow> 't env \<Rightarrow> exn + 't" where
  "apply_real T node env =
     rbind (node_op node) (\<lambda>op.
     if \<not> hashable op then Inl (type_error ''unhashable type'') else
     case expr_of UNARY op of Some e \<Rightarrow> rbind (tensor_in node env 0) (\<lambda>t. elementwise T [t] e)
     | None \<Rightarrow>
     case expr_of BINARY op of Some e \<Rightarrow>
       rbind (tensor_in node env 0) (\<lambda>a. rbind (tensor_in node env 1) (\<lambda>b. elementwise T [a, b] e))
     | None \<Rightarrow>
     case expr_of COMPARISON op of Some e \<Rightarrow>
       rbind (tensor_in node env 0) (\<lambda>a. rbind (tensor_in node env 1) (\<lambda>b. elementwise T [a, b] e))
     | None \<Rightarrow>
     if op = PStr ''select'' then select_op T node env
     else if op_in op [''sum'', ''product'', ''reduce_max'', ''reduce_min'', ''all'', ''any''] then reduce_op T node env
     else if op_in op [''argmax'', ''argmin''] then argreduce T node env
     else if op_in op [''window_sum'', ''window_max'', ''window_min'', ''window_product''] then window T node env
     else if op_in op [''window_scatter_max'', ''window_scatter_min''] then window_scatter T node env
     else if op_in op [''count_leading_zeros'', ''population_count''] then
       rbind (tensor_in node env 0) (\<lambda>t. bit_reduce T node t)
     else if op = PStr ''reshape'' then
       rbind (tensor_in node env 0) (\<lambda>t. rbind (attr_ints node ''shape'') (reshape T t))
     else if op = PStr ''squeeze'' then rbind (tensor_in node env 0) (\<lambda>t. rbind (node_shape node) (reshape T t))
     else if op = PStr ''broadcast'' then broadcast T node env
     else if op = PStr ''transpose'' then
       rbind (tensor_in node env 0) (\<lambda>t. rbind (attr_ints node ''axes'') (permute T t))
     else if op = PStr ''reverse'' then
       rbind (tensor_in node env 0) (\<lambda>t. rbind (attr_ints node ''axes'') (\<lambda>axes. call T (Flip axes) [t]))
     else if op = PStr ''concatenate'' then concatenate T node env
     else if op = PStr ''slice'' then slice_op T node env
     else if op = PStr ''pad'' then pad_op T node env
     else if op = PStr ''sort'' then sort_op T node env
     else if op = PStr ''argsort'' then argsort_op T node env
     else if op = PStr ''gather'' then gather T node env
     else if op = PStr ''iota'' then iota T node
     else if op = PStr ''put_slice'' then put_slice T node env
     else if op_in op [''indexed_add'', ''indexed_put''] then indexed T node env
     else if op = PStr ''clip'' then clip T node env
     else if op = PStr ''stack'' then stack T node env
     else if op = PStr ''eye'' then eye T node
     else if op = PStr ''as_type'' then tensor_in node env 0
     else if op = PStr ''bitcast'' then bitcast_op T node env
     else if op = PStr ''dot'' then dot T node env
     else if op = PStr ''conv'' then conv T node env
     else if op = PStr ''triangular_solve'' then triangular_solve T node env
     else Inl (unsupported ''unsupported Nx operation: {op}'' [(''op'', op)]))"

fun is_cx :: "'t val \<Rightarrow> bool" where
  "is_cx (Cx _) = True"
| "is_cx (Tn _) = False"

text \<open>\<open>any(isinstance(env[i], Cx) for i in node["inputs"])\<close>: it stops at the first complex operand.\<close>

fun any_complex :: "'t env \<Rightarrow> py list \<Rightarrow> exn + bool" where
  "any_complex env [] = Inr False"
| "any_complex env (i # refs) = rbind (lookup env i) (\<lambda>v. if is_cx v then Inr True else any_complex env refs)"

definition complex_path :: "py \<Rightarrow> 't env \<Rightarrow> exn + bool" where
  "complex_path node env =
     rbind (rbind (py_item node ''dtype'') is_complex) (\<lambda>c.
     if c then Inr True else rbind (node_inputs node) (any_complex env))"

definition apply_node :: "'t tg \<Rightarrow> py \<Rightarrow> 't env \<Rightarrow> exn + 't val" where
  "apply_node T node env =
     rbind (node_op node) (\<lambda>op.
     rbind (complex_path node env) (\<lambda>cx.
     if cx then
       rbind (node_inputs node) (\<lambda>ins. rbind (rmap (lookup env) ins) (\<lambda>vs.
       rbind (apply_complex T node vs) (\<lambda>result.
       case result of
         Cx t \<Rightarrow> rbind (py_item node ''dtype'') (\<lambda>d. rbind (component_dtype d) (\<lambda>c.
           rbind (tinygrad_dtype (PStr c)) (\<lambda>dt. rbind (call T (Cast dt) [t]) (\<lambda>r. Inr (Cx r)))))
       | Tn t \<Rightarrow> rbind (cast_to T t node) (\<lambda>r. Inr (Tn r)))))
     else
       rbind (apply_real T node env) (\<lambda>t. rbind (cast_to T t node) (\<lambda>r. Inr (Tn r)))))"

subsection \<open>What apply returns\<close>

text \<open>The documented effect of \<open>cast\<close> on the dtype.\<close>

definition cast_law :: "'t tg \<Rightarrow> bool" where
  "cast_law T = (\<forall>d t r. call T (Cast d) [t] = Inr r \<longrightarrow> dt T r = d)"

text \<open>
  C17. Every result carries the node's declared dtype: a real result has the tinygrad dtype of the
  declared name, a complex one holds components of the declared complex name's component dtype. A
  node whose name has neither raises.
\<close>

theorem apply_result_dtype:
  assumes "cast_law T" and "apply_node T node env = Inr v"
  shows "\<exists>name. py_item node ''dtype'' = Inr name \<and>
    (case v of
       Tn t \<Rightarrow> tinygrad_dtype name = Inr (dt T t)
     | Cx t \<Rightarrow> \<exists>c. component_dtype name = Inr c \<and> tinygrad_dtype (PStr c) = Inr (dt T t))"
proof (cases "complex_path node env = Inr True")
  case True
  with assms(2) obtain result where "(case result of
         Cx t \<Rightarrow> rbind (py_item node ''dtype'') (\<lambda>d. rbind (component_dtype d) (\<lambda>c.
           rbind (tinygrad_dtype (PStr c)) (\<lambda>dt. rbind (call T (Cast dt) [t]) (\<lambda>r. Inr (Cx r)))))
       | Tn t \<Rightarrow> rbind (cast_to T t node) (\<lambda>r. Inr (Tn r))) = Inr v"
    by (auto simp: apply_node_def rbind_eq_Inr)
  then show ?thesis using assms(1)
    by (cases result) (auto simp: cast_to_def cast_law_def rbind_eq_Inr)
next
  case False
  with assms show ?thesis
    by (auto simp: apply_node_def cast_to_def cast_law_def rbind_eq_Inr split: if_splits)
qed

theorem apply_result_dtype_witness:
  "\<exists>T :: tgdtype tg. cast_law T \<and>
     apply_node T (PDict [(''op'', PStr ''as_type''), (''dtype'', PStr ''f32''), (''inputs'', PList [PInt 0])])
       \<lparr>vals = [0 \<mapsto> Tn TgInt32], sym = []\<rparr> = Inr (Tn TgFloat32) \<and> dt T TgFloat32 = TgFloat32"
proof -
  let ?T = "\<lparr>call = (\<lambda>c ts. case c of Cast d \<Rightarrow> Inr d | _ \<Rightarrow> Inr (hd ts)), shp = (\<lambda>_. []), dt = (\<lambda>d. d),
    item = (\<lambda>_. Inr PNone), realized = (\<lambda>_. True), base_id = (\<lambda>_. 0), same_uop = (=)\<rparr> :: tgdtype tg"
  let ?node = "PDict [(''op'', PStr ''as_type''), (''dtype'', PStr ''f32''), (''inputs'', PList [PInt 0])]"
  let ?env = "\<lparr>vals = [0 \<mapsto> Tn TgInt32], sym = []\<rparr> :: tgdtype env"
  have law: "cast_law ?T" by (simp add: cast_law_def)
  have run: "apply_node ?T ?node ?env = Inr (Tn TgFloat32)" by code_simp
  from apply_result_dtype [OF law run] have "tinygrad_dtype (PStr ''f32'') = Inr (dt ?T TgFloat32)"
    by (simp add: py_item_def)
  with law run show ?thesis by (intro exI [of _ ?T]) simp
qed

end
