(* ===== verification/CaptureSafe.thy ===== *)
theory CaptureSafe
  imports Planning ComplexOps
begin

text \<open>
  Why a node that \<open>requires_eager\<close> clears may be captured: its evaluation reads no scalar of a tensor. The
  only reads of the operations are the dynamic starts of slices, and \<open>item\<close> is the function that
  performs them; a node that is not eager gives the same result whatever \<open>item\<close> is.
\<close>

lemma observations_item [simp]:
  "call (T\<lparr>item := f\<rparr>) = call T" "shp (T\<lparr>item := f\<rparr>) = shp T" "dt (T\<lparr>item := f\<rparr>) = dt T"
  "realized (T\<lparr>item := f\<rparr>) = realized T"
  by simp_all

lemma operators_item [simp]:
  "un (T\<lparr>item := f\<rparr>) = un T" "bin (T\<lparr>item := f\<rparr>) = bin T" "binr (T\<lparr>item := f\<rparr>) = binr T"
  "binl (T\<lparr>item := f\<rparr>) = binl T"
  by (auto simp: fun_eq_iff un_def bin_def binr_def binl_def)

lemma apply_where_item [simp]: "apply_where (T\<lparr>item := f\<rparr>) c a b = apply_where T c a b"
  by (cases a; cases b) auto

lemma apply_bin_item [simp]: "apply_bin (T\<lparr>item := f\<rparr>) m a b = apply_bin T m a b"
  by (cases a; cases b) auto

lemma eval_expr_item [simp]: "eval_expr (T\<lparr>item := f\<rparr>) vs e = eval_expr T vs e"
  by (induction e) simp_all

lemma elementwise_item [simp]: "elementwise (T\<lparr>item := f\<rparr>) = elementwise T"
  by (simp add: fun_eq_iff elementwise_def)

lemma smear_item [simp]: "smear (T\<lparr>item := f\<rparr>) w s t = smear T w s t"
proof (induction T w s t rule: smear.induct)
  case (1 T w s t)
  then show ?case
    by (subst (1 2) smear.simps) (auto intro!: rbind_cong)
qed

lemmas cases_cong = if_cong option.case_cong list.case_cong val.case_cong

lemma moves_item [simp]:
  "reshape (T\<lparr>item := f\<rparr>) = reshape T" "permute (T\<lparr>item := f\<rparr>) = permute T" "expand (T\<lparr>item := f\<rparr>) = expand T"
  "arange (T\<lparr>item := f\<rparr>) = arange T" "cast_to (T\<lparr>item := f\<rparr>) = cast_to T"
  "cat_parts (T\<lparr>item := f\<rparr>) = cat_parts T"
  by (auto simp: fun_eq_iff reshape_def permute_def expand_def arange_def cast_to_def cat_parts_def cong: cases_cong)

lemma basic_ops_item [simp]:
  "bit_total (T\<lparr>item := f\<rparr>) = bit_total T" "bit_reduce (T\<lparr>item := f\<rparr>) = bit_reduce T"
  "reduce_op (T\<lparr>item := f\<rparr>) = reduce_op T" "argreduce (T\<lparr>item := f\<rparr>) = argreduce T"
  "broadcast (T\<lparr>item := f\<rparr>) = broadcast T" "pad_op (T\<lparr>item := f\<rparr>) = pad_op T"
  "sort_op (T\<lparr>item := f\<rparr>) = sort_op T" "argsort_op (T\<lparr>item := f\<rparr>) = argsort_op T"
  "clip (T\<lparr>item := f\<rparr>) = clip T" "stack (T\<lparr>item := f\<rparr>) = stack T" "concatenate (T\<lparr>item := f\<rparr>) = concatenate T"
  "eye (T\<lparr>item := f\<rparr>) = eye T" "iota (T\<lparr>item := f\<rparr>) = iota T"
  by (simp_all add: fun_eq_iff bit_total_def bit_reduce_def reduce_op_def argreduce_def broadcast_def pad_op_def
      sort_op_def argsort_op_def clip_def stack_def concatenate_def eye_def iota_def cong: cases_cong)

lemma index_ops_item1 [simp]:
  "column (T\<lparr>item := f\<rparr>) = column T"
  by (simp_all add: fun_eq_iff column_def Let_def cong: cases_cong)

lemma index_ops_item2 [simp]:
  "column_term (T\<lparr>item := f\<rparr>) = column_term T"
  by (simp_all add: fun_eq_iff column_term_def Let_def cong: cases_cong)

lemma index_ops_item3 [simp]:
  "linear_index (T\<lparr>item := f\<rparr>) = linear_index T"
  by (simp_all add: fun_eq_iff linear_index_def Let_def cong: cases_cong)

lemma index_ops_item4 [simp]:
  "gather (T\<lparr>item := f\<rparr>) = gather T" "indexed (T\<lparr>item := f\<rparr>) = indexed T"
  by (simp_all add: fun_eq_iff gather_def indexed_def Let_def cong: cases_cong)

lemma window_ops_item1 [simp]:
  "window (T\<lparr>item := f\<rparr>) = window T" "axis_counter (T\<lparr>item := f\<rparr>) = axis_counter T"
  by (simp_all add: fun_eq_iff window_def axis_counter_def Let_def cong: cases_cong)

lemma window_ops_item2 [simp]:
  "window_term (T\<lparr>item := f\<rparr>) = window_term T"
  by (simp_all add: fun_eq_iff window_term_def Let_def cong: cases_cong)

lemma window_ops_item3 [simp]:
  "window_linear (T\<lparr>item := f\<rparr>) = window_linear T" "window_selected (T\<lparr>item := f\<rparr>) = window_selected T"
  by (simp_all add: fun_eq_iff window_linear_def window_selected_def Let_def cong: cases_cong)

lemma window_ops_item4 [simp]:
  "window_scatter (T\<lparr>item := f\<rparr>) = window_scatter T"
  by (simp_all add: fun_eq_iff window_scatter_def Let_def cong: cases_cong)

lemma contraction_ops_item1 [simp]:
  "dilate_axis (T\<lparr>item := f\<rparr>) = dilate_axis T" "solve_row (T\<lparr>item := f\<rparr>) = solve_row T" "stack_rows (T\<lparr>item := f\<rparr>) = stack_rows T" "einsum_dot (T\<lparr>item := f\<rparr>) = einsum_dot T"
  by (simp_all add: fun_eq_iff dilate_axis_def solve_row_def stack_rows_def einsum_dot_def Let_def cong: cases_cong)

lemma contraction_ops_item2 [simp]:
  "dilate (T\<lparr>item := f\<rparr>) = dilate T"
  by (simp_all add: fun_eq_iff dilate_def Let_def cong: cases_cong)

lemma contraction_ops_item3 [simp]:
  "conv (T\<lparr>item := f\<rparr>) = conv T" "triangular_solve (T\<lparr>item := f\<rparr>) = triangular_solve T" "dot (T\<lparr>item := f\<rparr>) = dot T"
  by (simp_all add: fun_eq_iff conv_def triangular_solve_def dot_def Let_def cong: cases_cong)

lemma complex_parts_item1 [simp]:
  "re_part (T\<lparr>item := f\<rparr>) = re_part T" "im_part (T\<lparr>item := f\<rparr>) = im_part T" "cxt (T\<lparr>item := f\<rparr>) = cxt T"
  by (simp_all add: fun_eq_iff re_part_def im_part_def cxt_def Let_def cong: cases_cong)

lemma complex_parts_item2 [simp]:
  "promote (T\<lparr>item := f\<rparr>) = promote T" "parts (T\<lparr>item := f\<rparr>) = parts T"
  by (simp_all add: fun_eq_iff promote_def parts_def Let_def cong: cases_cong)

lemma complex_parts_item3 [simp]:
  "dft (T\<lparr>item := f\<rparr>) = dft T" "cx_pair (T\<lparr>item := f\<rparr>) = cx_pair T" "promoted (T\<lparr>item := f\<rparr>) = promoted T"
  by (simp_all add: fun_eq_iff dft_def cx_pair_def promoted_def Let_def cong: cases_cong)

lemma complex_ops_item [simp]:
  "cx_unary (T\<lparr>item := f\<rparr>) = cx_unary T" "cx_binary (T\<lparr>item := f\<rparr>) = cx_binary T"
  "cx_broadcast (T\<lparr>item := f\<rparr>) = cx_broadcast T" "cx_slice (T\<lparr>item := f\<rparr>) = cx_slice T"
  "cx_sum (T\<lparr>item := f\<rparr>) = cx_sum T" "cx_dot (T\<lparr>item := f\<rparr>) = cx_dot T" "cx_select (T\<lparr>item := f\<rparr>) = cx_select T"
  by (simp_all add: fun_eq_iff cx_unary_def cx_binary_def cx_broadcast_def cx_slice_def cx_sum_def cx_dot_def
      cx_select_def cong: cases_cong)

lemma apply_complex_item [simp]: "apply_complex (T\<lparr>item := f\<rparr>) node ins = apply_complex T node ins"
  by (simp add: apply_complex_def cong: cases_cong)

lemma other_ops_item [simp]:
  "select_op (T\<lparr>item := f\<rparr>) = select_op T" "bitcast_op (T\<lparr>item := f\<rparr>) = bitcast_op T"
  by (simp_all add: fun_eq_iff select_op_def bitcast_op_def cong: cases_cong)

text \<open>The two operations with dynamic starts, when there is no start input.\<close>

lemma lget_Nil [simp]: "lget [] j = Inl (index_error ())"
  by (simp add: lget_def py_index_def)

lemma read_start_Nil [simp]: "read_start (T\<lparr>item := f\<rparr>) [] spec = read_start T [] spec"
  by (simp add: read_start_def cong: rbind_cong)

lemma dyn_inputs_none:
  assumes "input_count node = Inr n" and "n \<le> first" and "dyn_inputs node env first = Inr dyn"
  shows "dyn = []"
  using assms by (auto simp: dyn_inputs_def input_count_def raises)

lemma slice_starts_Nil [simp]:
  "slice_start (T\<lparr>item := f\<rparr>) [] = slice_start T []" "put_start (T\<lparr>item := f\<rparr>) [] = put_start T []"
  by (simp_all add: fun_eq_iff slice_start_def put_start_def cong: cases_cong)

lemma slice_op_item:
  assumes "input_count node = Inr n" and "n \<le> 1"
  shows "slice_op (T\<lparr>item := f\<rparr>) node env = slice_op T node env"
proof (cases "dyn_inputs node env 1")
  case (Inr dyn)
  with dyn_inputs_none [OF assms Inr] have "dyn_inputs node env 1 = Inr []" by simp
  then show ?thesis by (simp add: slice_op_def cong: cases_cong)
qed (simp add: slice_op_def cong: cases_cong)

lemma put_slice_item:
  assumes "input_count node = Inr n" and "n \<le> 2"
  shows "put_slice (T\<lparr>item := f\<rparr>) node env = put_slice T node env"
proof (cases "dyn_inputs node env 2")
  case (Inr dyn)
  with dyn_inputs_none [OF assms Inr] have "dyn_inputs node env 2 = Inr []" by simp
  then show ?thesis by (simp add: put_slice_def cong: cases_cong)
qed (simp add: put_slice_def cong: cases_cong)

lemma table_ops: "expr_of UNARY (PStr ''slice'') = None" "expr_of UNARY (PStr ''put_slice'') = None"
  by (simp_all add: expr_of_def UNARY_def)

lemma apply_real_item:
  assumes "requires_eager node = Inr False"
  shows "apply_real (T\<lparr>item := f\<rparr>) node env = apply_real T node env"
proof (cases "node_op node")
  case (Inr op)
  have sl: "op = PStr ''slice'' \<Longrightarrow> slice_op (T\<lparr>item := f\<rparr>) node env = slice_op T node env"
    using assms Inr by (auto simp: requires_eager_def raises intro: slice_op_item)
  have ps: "op = PStr ''put_slice'' \<Longrightarrow> put_slice (T\<lparr>item := f\<rparr>) node env = put_slice T node env"
    using assms Inr by (auto simp: requires_eager_def raises intro: put_slice_item)
  show ?thesis unfolding apply_real_def Inr rbind_Inr
    by (simp add: sl ps cong: cases_cong)
qed (simp add: apply_real_def)

text \<open>
  C16. A node that is not classified as eager reads no scalar of a tensor: \<open>apply\<close> gives the same result, or
  the same exception, whatever \<open>item()\<close> would return, so a captured trace of the node does not
  bake in a run-time value.
\<close>

theorem captured_nodes_read_no_scalar:
  assumes "requires_eager node = Inr False"
  shows "apply_node (T\<lparr>item := f\<rparr>) node env = apply_node T node env"
  unfolding apply_node_def by (simp add: apply_real_item [OF assms] cong: cases_cong)

theorem captured_nodes_read_no_scalar_witness:
  "\<forall>(T :: nat tg) f env. apply_node (T\<lparr>item := f\<rparr>) (demo_node 2 ''add'' [0, 1]) env = apply_node T (demo_node 2 ''add'' [0, 1]) env"
proof -
  have "requires_eager (demo_node 2 ''add'' [0, 1]) = Inr False" by code_simp
  then show ?thesis by (intro allI captured_nodes_read_no_scalar)
qed

end
