(* ===== verification/Einsum.thy ===== *)
theory Einsum
  imports Contractions
begin

text \<open>
  The einsum formula that \<open>_einsum_dot\<close> writes for a general dot product: which axes get which letter, and
  that the formula denotes the contraction the attributes ask for.
\<close>

abbreviation L :: "nat \<Rightarrow> char" where
  "L k \<equiv> LETTERS ! k"

lemma length_LETTERS: "length LETTERS = 52"
  by (simp add: LETTERS_def)

lemma distinct_LETTERS: "distinct LETTERS"
  by (simp add: LETTERS_def)

lemma L_eq: "i < 52 \<Longrightarrow> j < 52 \<Longrightarrow> L i = L j \<longleftrightarrow> i = j"
  using nth_eq_iff_index_eq [OF distinct_LETTERS] by (simp add: length_LETTERS)

lemma letter_eq: "letter n = (if n < 52 then Inr (L n) else Inl (index_error ()))"
  by (simp add: letter_def lget_def py_index_def length_LETTERS)

lemma lset_nat: "0 \<le> i \<Longrightarrow> i < int (length xs) \<Longrightarrow> lset xs i v = Inr (xs[nat i := v])"
  by (simp add: lset_def py_index_def)

fun seq :: "nat \<Rightarrow> nat \<Rightarrow> nat list" where
  "seq n 0 = []"
| "seq n (Suc k) = n # seq (Suc n) k"

lemma seq_upt: "[n..<n + k] = seq n k"
proof (induction k arbitrary: n)
  case (Suc k)
  from Suc [of "Suc n"] show ?case by (simp add: upt_conv_Cons del: upt_Suc)
qed simp

lemma length_seq [simp]: "length (seq n k) = k"
  by (induction k arbitrary: n) auto

lemma set_seq: "set (seq n k) = {n..<n + k}"
  by (simp flip: seq_upt)

lemma distinct_seq [simp]: "distinct (seq n k)"
  by (simp flip: seq_upt)

lemma nth_seq [simp]: "i < k \<Longrightarrow> seq n k ! i = n + i"
  by (simp flip: seq_upt)

subsection \<open>Letters of paired axes\<close>

definition assign :: "char option list \<Rightarrow> (nat \<times> nat) list \<Rightarrow> char option list" where
  "assign s ps = foldl (\<lambda>s (i, k). s[i := Some (L k)]) s ps"

lemma assign_simps [simp]:
  "assign s [] = s" "assign s ((i, k) # ps) = assign (s[i := Some (L k)]) ps"
  by (simp_all add: assign_def)

lemma length_assign [simp]: "length (assign s ps) = length s"
  by (induction ps arbitrary: s) auto

lemma assign_nth:
  "distinct (map fst ps) \<Longrightarrow> i < length s \<Longrightarrow>
     assign s ps ! i = (case map_of ps i of None \<Rightarrow> s ! i | Some k \<Rightarrow> Some (L k))"
proof (induction ps arbitrary: s)
  case (Cons p ps)
  obtain j k where p: "p = (j, k)" by (cases p)
  with Cons.prems have "map_of ps j = None" by (simp add: map_of_eq_None_iff)
  with Cons p show ?case by (auto simp: nth_list_update split: option.splits)
qed simp

definition axes_ok :: "nat \<Rightarrow> int list \<Rightarrow> bool" where
  "axes_ok n axes = (distinct axes \<and> (\<forall>a \<in> set axes. 0 \<le> a \<and> a < int n))"

definition paired_step :: "nat \<times> char option list \<times> char option list \<times> string \<Rightarrow> int \<times> int \<Rightarrow>
    exn + nat \<times> char option list \<times> char option list \<times> string" where
  "paired_step = (\<lambda>(nxt, sa, sb, cs) (la, lb). rbind (letter nxt) (\<lambda>c. rbind (lset sa la (Some c)) (\<lambda>sa'.
       rbind (lset sb lb (Some c)) (\<lambda>sb'. Inr (Suc nxt, sa', sb', cs @ [c])))))"

lemma paired_step_eq:
  assumes "nxt < 52" "0 \<le> a" "a < int (length sa)" "0 \<le> b" "b < int (length sb)"
  shows "paired_step (nxt, sa, sb, cs) (a, b) =
     Inr (Suc nxt, sa[nat a := Some (L nxt)], sb[nat b := Some (L nxt)], cs @ [L nxt])"
  using assms by (simp add: paired_step_def letter_eq lset_nat)

lemma paired_loop:
  assumes "length la = length lb" and "nxt + length la \<le> 52"
    and "\<forall>a \<in> set la. 0 \<le> a \<and> a < int (length sa)" "\<forall>b \<in> set lb. 0 \<le> b \<and> b < int (length sb)"
  shows "rfold paired_step (nxt, sa, sb, cs) (zip la lb) =
     Inr (nxt + length la, assign sa (zip (map nat la) (seq nxt (length la))),
       assign sb (zip (map nat lb) (seq nxt (length la))), cs @ map L (seq nxt (length la)))"
  using assms
proof (induction la lb arbitrary: nxt sa sb cs rule: list_induct2)
  case (Cons a la b lb)
  then have s: "paired_step (nxt, sa, sb, cs) (a, b) =
     Inr (Suc nxt, sa[nat a := Some (L nxt)], sb[nat b := Some (L nxt)], cs @ [L nxt])"
    by (intro paired_step_eq) auto
  have "rfold paired_step (Suc nxt, sa[nat a := Some (L nxt)], sb[nat b := Some (L nxt)], cs @ [L nxt]) (zip la lb) =
     Inr (Suc nxt + length la, assign (sa[nat a := Some (L nxt)]) (zip (map nat la) (seq (Suc nxt) (length la))),
       assign (sb[nat b := Some (L nxt)]) (zip (map nat lb) (seq (Suc nxt) (length la))),
       (cs @ [L nxt]) @ map L (seq (Suc nxt) (length la)))"
    by (rule Cons.IH) (use Cons.prems in auto)
  with s show ?case by simp
qed simp

lemma paired_letters_eq:
  assumes "nxt + length la \<le> 52" and "length la = length lb"
    and "\<forall>a \<in> set la. 0 \<le> a \<and> a < int (length sa)" "\<forall>b \<in> set lb. 0 \<le> b \<and> b < int (length sb)"
  shows "paired_letters nxt sa sb (zip la lb) =
     Inr (nxt + length la, assign sa (zip (map nat la) (seq nxt (length la))),
       assign sb (zip (map nat lb) (seq nxt (length la))), map L (seq nxt (length la)))"
  using paired_loop [OF assms(2,1,3,4), of "[]"] by (simp add: paired_letters_def paired_step_def)

subsection \<open>Letters of free axes\<close>

fun fill :: "nat \<Rightarrow> char option list \<Rightarrow> char option list" where
  "fill n [] = []"
| "fill n (None # s) = Some (L n) # fill (Suc n) s"
| "fill n (Some c # s) = Some c # fill n s"

definition nones :: "'a option list \<Rightarrow> nat" where
  "nones s = length (filter (\<lambda>x. x = None) s)"

lemma nones_simps [simp]: "nones [] = 0" "nones (None # s) = Suc (nones s)" "nones (Some c # s) = nones s"
  by (simp_all add: nones_def)

lemma free_loop:
  assumes "nxt + nones s \<le> 52"
  shows "rfold (\<lambda>(nxt, s, cs) i.
       if s ! i = None then rbind (letter nxt) (\<lambda>c. Inr (Suc nxt, s[i := Some c], cs @ [c]))
       else Inr (nxt, s, cs)) (nxt, p @ s, cs) (seq (length p) (length s)) =
     Inr (nxt + nones s, p @ fill nxt s, cs @ map L (seq nxt (nones s)))"
  using assms
proof (induction s arbitrary: nxt p cs)
  case (Cons x s)
  show ?case
  proof (cases x)
    case None
    with Cons.prems have l: "letter nxt = Inr (L nxt)" by (simp add: letter_eq)
    then show ?thesis
      using Cons.IH [of "Suc nxt" "p @ [Some (L nxt)]" "cs @ [L nxt]"] Cons.prems None by simp
  next
    case (Some c)
    then show ?thesis
      using Cons.IH [of nxt "p @ [Some c]" cs] Cons.prems by simp
  qed
qed simp

lemma free_letters_eq:
  "nxt + nones s \<le> 52 \<Longrightarrow>
     free_letters nxt s = Inr (nxt + nones s, fill nxt s, map L (seq nxt (nones s)))"
  using free_loop [of nxt s "[]" "[]"] seq_upt [of 0 "length s"] by (simp add: free_letters_def)

lemma length_fill [simp]: "length (fill n s) = length s"
  by (induction n s rule: fill.induct) auto

lemma fill_nth:
  "i < length s \<Longrightarrow> fill n s ! i = Some (case s ! i of Some c \<Rightarrow> c | None \<Rightarrow> L (n + nones (take i s)))"
  by (induction n s arbitrary: i rule: fill.induct) (auto simp: nth_Cons' take_Cons' split: option.splits)

lemma nones_take_less: "i < length s \<Longrightarrow> s ! i = None \<Longrightarrow> nones (take i s) < nones s"
proof (induction s arbitrary: i)
  case (Cons x s)
  then show ?case by (cases x; cases i) auto
qed simp

lemma nones_take_inj:
  "i < length s \<Longrightarrow> j < length s \<Longrightarrow> s ! i = None \<Longrightarrow> s ! j = None \<Longrightarrow>
     nones (take i s) = nones (take j s) \<Longrightarrow> i = j"
proof (induction s arbitrary: i j)
  case (Cons x s)
  then show ?case
    by (cases x; cases i; cases j) auto
qed simp

definition none_positions :: "'a option list \<Rightarrow> nat list" where
  "none_positions s = filter (\<lambda>i. s ! i = None) [0..<length s]"

lemma none_positions_Cons:
  "none_positions (x # s) = (if x = None then [0] else []) @ map Suc (none_positions s)"
proof -
  have "[0..<length (x # s)] = 0 # map Suc [0..<length s]"
    by (simp add: map_Suc_upt upt_conv_Cons del: upt_Suc)
  then show ?thesis by (simp add: none_positions_def filter_map comp_def)
qed

lemma fill_none_positions: "map ((!) (fill n s)) (none_positions s) = map (Some \<circ> L) (seq n (nones s))"
proof (induction n s rule: fill.induct)
  case (1 n)
  then show ?case by (simp add: none_positions_def)
qed (simp_all add: none_positions_Cons comp_def)

lemma length_none_positions: "length (none_positions s) = nones s"
  by (induction s) (auto simp: none_positions_Cons nones_def none_positions_def [of "[]"])

subsection \<open>The letters of one operand\<close>

text \<open>Letter \<open>q\<close> goes to axis \<open>P ! q\<close>.\<close>

definition paired :: "nat \<Rightarrow> nat list \<Rightarrow> char option list" where
  "paired n P = assign (replicate n None) (zip P (seq 0 (length P)))"

definition unpaired :: "nat \<Rightarrow> nat list \<Rightarrow> nat list" where
  "unpaired n P = filter (\<lambda>i. i \<notin> set P) [0..<n]"

lemma length_paired [simp]: "length (paired n P) = n"
  by (simp add: paired_def)

lemma map_of_seq: "distinct P \<Longrightarrow> q < length P \<Longrightarrow> map_of (zip P (seq m (length P))) (P ! q) = Some (m + q)"
  by (subst map_of_zip_nth) auto

lemma paired_hit: "distinct P \<Longrightarrow> q < length P \<Longrightarrow> P ! q < n \<Longrightarrow> paired n P ! (P ! q) = Some (L q)"
  using map_of_seq [of P q 0] by (simp add: paired_def assign_nth)

lemma paired_miss: "distinct P \<Longrightarrow> i < n \<Longrightarrow> i \<notin> set P \<Longrightarrow> paired n P ! i = None"
  by (simp add: paired_def assign_nth map_of_zip_is_None [THEN iffD2])

lemma paired_none: "distinct P \<Longrightarrow> i < n \<Longrightarrow> paired n P ! i = None \<longleftrightarrow> i \<notin> set P"
  using paired_hit paired_miss by (metis in_set_conv_nth option.distinct(1))

lemma none_positions_paired: "distinct P \<Longrightarrow> none_positions (paired n P) = unpaired n P"
  by (auto simp: none_positions_def unpaired_def paired_none intro!: filter_cong)

lemma length_unpaired:
  assumes "distinct P" "\<forall>p \<in> set P. p < n"
  shows "length (unpaired n P) = n - length P"
proof -
  have "length (unpaired n P) = card (set (unpaired n P))"
    by (rule distinct_card [symmetric]) (simp add: unpaired_def)
  also have "set (unpaired n P) = {..<n} - set P" by (auto simp: unpaired_def)
  also have "card \<dots> = n - card (set P)" using assms by (subst card_Diff_subset) auto
  finally show ?thesis using assms by (simp add: distinct_card)
qed

lemma nones_paired:
  "distinct P \<Longrightarrow> \<forall>p \<in> set P. p < n \<Longrightarrow> nones (paired n P) = n - length P"
  using length_unpaired [of P n] by (simp flip: length_none_positions add: none_positions_paired)

text \<open>The number of the letter of axis \<open>i\<close>.\<close>

definition number :: "nat \<Rightarrow> nat \<Rightarrow> nat list \<Rightarrow> nat \<Rightarrow> nat" where
  "number m n P i = (case map_of (zip P (seq 0 (length P))) i of
     Some q \<Rightarrow> q | None \<Rightarrow> m + nones (take i (paired n P)))"

lemma number_hit: "distinct P \<Longrightarrow> q < length P \<Longrightarrow> number m n P (P ! q) = q"
  using map_of_seq [of P q 0] by (simp add: number_def)

lemma number_miss: "i \<notin> set P \<Longrightarrow> number m n P i = m + nones (take i (paired n P))"
  by (simp add: number_def map_of_zip_is_None [THEN iffD2])

lemma fill_paired:
  assumes "distinct P" "\<forall>p \<in> set P. p < n" "i < n"
  shows "fill m (paired n P) ! i = Some (L (number m n P i))"
proof (cases "i \<in> set P")
  case True
  then obtain q where "q < length P" "P ! q = i" by (auto simp: in_set_conv_nth)
  with assms show ?thesis using paired_hit [of P q n] number_hit [of P q m n] by (simp add: fill_nth)
next
  case False
  with assms show ?thesis by (simp add: fill_nth paired_miss number_miss)
qed

lemma number_less_hit: "distinct P \<Longrightarrow> i \<in> set P \<Longrightarrow> number m n P i < length P"
  by (metis in_set_conv_nth number_hit)

lemma number_less_miss:
  "distinct P \<Longrightarrow> \<forall>p \<in> set P. p < n \<Longrightarrow> i < n \<Longrightarrow> i \<notin> set P \<Longrightarrow> number m n P i < m + (n - length P)"
  using nones_take_less [of i "paired n P"] by (simp add: number_miss paired_miss nones_paired)

lemma number_inj:
  assumes "distinct P" "length P \<le> m" "i < n" "j < n" "number m n P i = number m n P j"
  shows "i = j"
proof -
  consider "i \<in> set P" "j \<in> set P" | "i \<in> set P \<longleftrightarrow> j \<notin> set P" | "i \<notin> set P" "j \<notin> set P" by blast
  then show ?thesis
  proof cases
    case 1
    with assms show ?thesis by (metis in_set_conv_nth number_hit)
  next
    case 2
    with assms show ?thesis
      using number_less_hit [of P i m n] number_less_hit [of P j m n] number_miss [of i P m n] number_miss [of j P m n]
      by (cases "i \<in> set P") auto
  next
    case 3
    with assms show ?thesis
      using nones_take_inj [of i "paired n P" j] by (simp add: number_miss paired_miss)
  qed
qed

lemma assign_append: "assign s (ps @ qs) = assign (assign s ps) qs"
  by (simp add: assign_def)

lemma seq_append: "seq n (j + k) = seq n j @ seq (n + j) k"
  by (induction j arbitrary: n) auto

lemma paired_append: "assign (paired n P) (zip Q (seq (length P) (length Q))) = paired n (P @ Q)"
  by (simp add: paired_def seq_append zip_append assign_append)

lemma join_fill:
  assumes "distinct P" "\<forall>p \<in> set P. p < n"
  shows "join_letters (fill m (paired n P)) = map (\<lambda>i. L (number m n P i)) [0..<n]"
  using assms by (intro nth_equalityI) (simp_all add: join_letters_def fill_paired)

lemma number_unpaired:
  assumes "distinct P" "\<forall>p \<in> set P. p < n"
  shows "map (\<lambda>i. L (number m n P i)) (unpaired n P) = map L (seq m (n - length P))"
proof -
  have "map Some (map (\<lambda>i. L (number m n P i)) (unpaired n P)) = map ((!) (fill m (paired n P))) (unpaired n P)"
    using assms by (auto simp: unpaired_def fill_paired)
  also have "\<dots> = map Some (map L (seq m (n - length P)))"
    using fill_none_positions [of m "paired n P"] assms by (simp add: none_positions_paired nones_paired comp_def)
  finally show ?thesis by (simp add: inj_map_eq_map del: map_map)
qed

lemma number_paired:
  assumes "distinct (P @ Q)"
  shows "map (\<lambda>i. L (number m n (P @ Q) i)) P = map L (seq 0 (length P))"
proof -
  have "number m n (P @ Q) (P ! q) = q" if "q < length P" for q
    using number_hit [OF assms, of q m n] that by (simp add: nth_append)
  then show ?thesis by (intro nth_equalityI) simp_all
qed

lemma length_axes: "distinct P \<Longrightarrow> \<forall>p \<in> set P. p < n \<Longrightarrow> length P \<le> n"
proof -
  assume a: "distinct P" "\<forall>p \<in> set P. p < n"
  then have "card (set P) \<le> card {..<n}" by (intro card_mono) auto
  with a show "length P \<le> n" by (simp add: distinct_card)
qed

subsection \<open>Running out of letters\<close>

lemma paired_loop_fail:
  assumes "length la = length lb" and "52 < nxt + length la" and "nxt \<le> 52"
    and "\<forall>a \<in> set la. 0 \<le> a \<and> a < int (length sa)" "\<forall>b \<in> set lb. 0 \<le> b \<and> b < int (length sb)"
  shows "rfold paired_step (nxt, sa, sb, cs) (zip la lb) = Inl (index_error ())"
  using assms
proof (induction la lb arbitrary: nxt sa sb cs rule: list_induct2)
  case (Cons a la b lb)
  show ?case
  proof (cases "nxt < 52")
    case True
    with Cons.prems have s: "paired_step (nxt, sa, sb, cs) (a, b) =
       Inr (Suc nxt, sa[nat a := Some (L nxt)], sb[nat b := Some (L nxt)], cs @ [L nxt])"
      by (intro paired_step_eq) auto
    have "rfold paired_step (Suc nxt, sa[nat a := Some (L nxt)], sb[nat b := Some (L nxt)], cs @ [L nxt]) (zip la lb) =
       Inl (index_error ())"
      by (rule Cons.IH) (use Cons.prems True in auto)
    with s show ?thesis by simp
  qed (simp add: paired_step_def letter_eq)
qed simp

lemma free_loop_fail:
  assumes "52 < nxt + nones s" and "nxt \<le> 52"
  shows "rfold (\<lambda>(nxt, s, cs) i.
       if s ! i = None then rbind (letter nxt) (\<lambda>c. Inr (Suc nxt, s[i := Some c], cs @ [c]))
       else Inr (nxt, s, cs)) (nxt, p @ s, cs) (seq (length p) (length s)) = Inl (index_error ())"
  using assms
proof (induction s arbitrary: nxt p cs)
  case (Cons x s)
  show ?case
  proof (cases x)
    case None
    show ?thesis
    proof (cases "nxt < 52")
      case True
      with None show ?thesis
        using Cons.IH [of "Suc nxt" "p @ [Some (L nxt)]" "cs @ [L nxt]"] Cons.prems by (simp add: letter_eq)
    qed (simp add: None letter_eq)
  next
    case (Some c)
    then show ?thesis using Cons.IH [of nxt "p @ [Some c]" cs] Cons.prems by simp
  qed
qed simp

lemma free_letters_fail: "52 < nxt + nones s \<Longrightarrow> nxt \<le> 52 \<Longrightarrow> free_letters nxt s = Inl (index_error ())"
  using free_loop_fail [of nxt s "[]" "[]"] seq_upt [of 0 "length s"] by (simp add: free_letters_def)

subsection \<open>The formula\<close>

abbreviation nats :: "int list \<Rightarrow> nat list" where
  "nats \<equiv> map nat"

lemma nats_ok:
  assumes "axes_ok n axes"
  shows "distinct (nats axes)" "\<forall>p \<in> set (nats axes). p < n"
  using assms by (auto simp: axes_ok_def distinct_map inj_on_def) (metis eq_nat_nat_iff)

lemma axes_okD: "axes_ok n (xs @ ys) \<Longrightarrow> \<forall>a \<in> set xs. 0 \<le> a \<and> a < int n" "axes_ok n (xs @ ys) \<Longrightarrow> \<forall>a \<in> set ys. 0 \<le> a \<and> a < int n"
  by (auto simp: axes_ok_def)

text \<open>The letters: the pairs first, then the free axes of the left operand, then those of the right.\<close>

lemma einsum_subscripts_eq:
  assumes "length ca = length cb" "length ba = length bb"
    and a: "axes_ok ra (ba @ ca)" and b: "axes_ok rb (bb @ cb)"
    and enough: "ra + rb - length (ba @ ca) \<le> 52"
  shows "einsum_subscripts ra rb ca cb ba bb =
     Inr (map (\<lambda>i. L (number (length (ba @ ca)) ra (nats (ba @ ca)) i)) [0..<ra],
          map (\<lambda>i. L (number ra rb (nats (bb @ cb)) i)) [0..<rb],
          map L (seq 0 (length ba)) @ map L (seq (length (ba @ ca)) (ra - length (ba @ ca))) @
          map L (seq ra (rb - length (ba @ ca))))"
proof -
  let ?k = "length ba + length ca"
  note A = nats_ok [OF a] and B = nats_ok [OF b]
  have k: "?k \<le> ra" "?k \<le> rb" "?k \<le> 52"
    using length_axes [OF A] length_axes [OF B] assms by simp_all
  have p1: "paired_letters 0 (replicate ra None) (replicate rb None) (zip ba bb) =
     Inr (length ba, paired ra (nats ba), paired rb (nats bb), map L (seq 0 (length ba)))"
    using paired_letters_eq [of 0 ba bb "replicate ra None" "replicate rb None"] assms k axes_okD [OF a] axes_okD [OF b]
    by (simp add: paired_def)
  have p2: "paired_letters (length ba) (paired ra (nats ba)) (paired rb (nats bb)) (zip ca cb) =
     Inr (?k, paired ra (nats (ba @ ca)), paired rb (nats (bb @ cb)), map L (seq (length ba) (length ca)))"
    using paired_letters_eq [of "length ba" ca cb "paired ra (nats ba)" "paired rb (nats bb)"] assms k
      axes_okD [OF a] axes_okD [OF b] paired_append [of ra "nats ba" "nats ca"] paired_append [of rb "nats bb" "nats cb"]
    by simp
  have f1: "free_letters ?k (paired ra (nats (ba @ ca))) =
     Inr (ra, fill ?k (paired ra (nats (ba @ ca))), map L (seq ?k (ra - ?k)))"
    using free_letters_eq [of ?k "paired ra (nats (ba @ ca))"] nones_paired [OF A] k enough by simp
  have f2: "free_letters ra (paired rb (nats (bb @ cb))) =
     Inr (ra + (rb - ?k), fill ra (paired rb (nats (bb @ cb))), map L (seq ra (rb - ?k)))"
    using free_letters_eq [of ra "paired rb (nats (bb @ cb))"] nones_paired [OF B] k enough assms by simp
  show ?thesis
    using join_fill [OF A] join_fill [OF B]
    by (simp add: einsum_subscripts_def p1 p2 f1 [simplified] f2 [simplified])
qed

lemma einsum_subscripts_fail:
  assumes "length ca = length cb" "length ba = length bb"
    and a: "axes_ok ra (ba @ ca)" and b: "axes_ok rb (bb @ cb)"
    and many: "52 < ra + rb - length (ba @ ca)"
  shows "einsum_subscripts ra rb ca cb ba bb = Inl (index_error ())"
proof -
  let ?k = "length ba + length ca"
  note A = nats_ok [OF a] and B = nats_ok [OF b]
  have k: "?k \<le> ra" "?k \<le> rb"
    using length_axes [OF A] length_axes [OF B] assms by simp_all
  show ?thesis
  proof (cases "length ba \<le> 52")
    case False
    then have "rfold paired_step (0, replicate ra None, replicate rb None, []) (zip ba bb) = Inl (index_error ())"
      using assms axes_okD [OF a] axes_okD [OF b] by (intro paired_loop_fail) auto
    then show ?thesis by (simp add: einsum_subscripts_def paired_letters_def paired_step_def)
  next
    case b52: True
    have p1: "paired_letters 0 (replicate ra None) (replicate rb None) (zip ba bb) =
       Inr (length ba, paired ra (nats ba), paired rb (nats bb), map L (seq 0 (length ba)))"
      using paired_letters_eq [of 0 ba bb "replicate ra None" "replicate rb None"] assms b52 axes_okD [OF a] axes_okD [OF b]
      by (simp add: paired_def)
    show ?thesis
    proof (cases "?k \<le> 52")
      case False
      then have "rfold paired_step (length ba, paired ra (nats ba), paired rb (nats bb), []) (zip ca cb) = Inl (index_error ())"
        using assms b52 axes_okD [OF a] axes_okD [OF b] by (intro paired_loop_fail) auto
      then show ?thesis by (simp add: einsum_subscripts_def p1) (simp add: paired_letters_def paired_step_def)
    next
      case k52: True
      have p2: "paired_letters (length ba) (paired ra (nats ba)) (paired rb (nats bb)) (zip ca cb) =
         Inr (?k, paired ra (nats (ba @ ca)), paired rb (nats (bb @ cb)), map L (seq (length ba) (length ca)))"
        using paired_letters_eq [of "length ba" ca cb "paired ra (nats ba)" "paired rb (nats bb)"] assms k52
          axes_okD [OF a] axes_okD [OF b] paired_append [of ra "nats ba" "nats ca"] paired_append [of rb "nats bb" "nats cb"]
        by simp
      show ?thesis
      proof (cases "ra \<le> 52")
        case False
        then have "free_letters ?k (paired ra (nats (ba @ ca))) = Inl (index_error ())"
          using free_letters_fail [of ?k "paired ra (nats (ba @ ca))"] nones_paired [OF A] k k52 by simp
        then show ?thesis by (simp add: einsum_subscripts_def p1 p2)
      next
        case True
        then have f1: "free_letters ?k (paired ra (nats (ba @ ca))) =
           Inr (ra, fill ?k (paired ra (nats (ba @ ca))), map L (seq ?k (ra - ?k)))"
          using free_letters_eq [of ?k "paired ra (nats (ba @ ca))"] nones_paired [OF A] k by simp
        have "free_letters ra (paired rb (nats (bb @ cb))) = Inl (index_error ())"
          using free_letters_fail [of ra "paired rb (nats (bb @ cb))"] nones_paired [OF B] k many True assms by simp
        with f1 show ?thesis by (simp add: einsum_subscripts_def p1 p2)
      qed
    qed
  qed
qed

lemma nats_hit: "\<forall>a \<in> set xs. 0 \<le> a \<Longrightarrow> q < length xs \<Longrightarrow> nats xs ! q = nat (xs ! q) \<and> int (nat (xs ! q)) = xs ! q"
  by simp

lemma number_eq_paired:
  assumes "distinct P" "distinct Q" "length Q = length P" "length P \<le> n"
    and "\<forall>p \<in> set P. p < n" "\<forall>q \<in> set Q. q < k" "i < n" "j < k"
  shows "number (length P) n P i = number n k Q j \<longleftrightarrow> (i, j) \<in> set (zip P Q)"
proof -
  consider "i \<notin> set P" "j \<in> set Q" | "j \<notin> set Q" | "i \<in> set P" "j \<in> set Q" by blast
  then show ?thesis
  proof cases
    case 1
    with assms show ?thesis
      using number_less_hit [of Q j n k] number_miss [of i P "length P" n] by (auto dest: set_zip_leftD)
  next
    case 2
    have "number (length P) n P i < n"
      using assms number_less_hit [of P i "length P" n] number_less_miss [of P n i "length P"] by (cases "i \<in> set P") auto
    with 2 show ?thesis using number_miss [of j Q n k] by (auto dest: set_zip_rightD)
  next
    case 3
    then obtain q r where "q < length P" "P ! q = i" "r < length Q" "Q ! r = j" by (auto simp: in_set_conv_nth)
    with assms show ?thesis
      using number_hit [of P q "length P" n] number_hit [of Q r n k]
      by (auto simp: set_zip nth_eq_iff_index_eq)
  qed
qed

definition free_axes :: "nat \<Rightarrow> int list \<Rightarrow> nat list" where
  "free_axes n axes = filter (\<lambda>i. int i \<notin> set axes) [0..<n]"

lemma unpaired_nats: "\<forall>a \<in> set axes. 0 \<le> a \<Longrightarrow> unpaired n (nats axes) = free_axes n axes"
  by (auto simp: unpaired_def free_axes_def image_iff intro!: filter_cong)

lemma zip_nats:
  "\<forall>a \<in> set xs. 0 \<le> a \<Longrightarrow> \<forall>b \<in> set ys. 0 \<le> b \<Longrightarrow>
     (i, j) \<in> set (zip (nats xs) (nats ys)) \<longleftrightarrow> (int i, int j) \<in> set (zip xs ys)"
  by (force simp: set_zip)

text \<open>
  C18. The formula of a general dot product. For contracted axes \<open>ca\<close>, \<open>cb\<close> and batch axes \<open>ba\<close>, \<open>bb\<close>
  that pair up, are within the ranks and are not repeated, \<open>_einsum_dot\<close> gives one letter to every axis
  of either operand; within an operand all letters differ, and two axes of different operands have the
  same letter exactly when they are paired by the batch or by the contraction lists. The output lists the
  batch axes, then the free axes of the left operand, then those of the right operand, each in order. It
  raises an index error exactly when the axes need more than the 52 letters there are.
\<close>

theorem einsum_subscripts_spec:
  assumes "length ca = length cb" "length ba = length bb"
    and "axes_ok ra (ba @ ca)" and "axes_ok rb (bb @ cb)"
  shows "if 52 < ra + rb - length (ba @ ca) then einsum_subscripts ra rb ca cb ba bb = Inl (index_error ())
    else (\<exists>sa sb. einsum_subscripts ra rb ca cb ba bb =
        Inr (sa, sb, map (\<lambda>a. sa ! nat a) ba @ map ((!) sa) (free_axes ra (ba @ ca)) @ map ((!) sb) (free_axes rb (bb @ cb)))
      \<and> length sa = ra \<and> length sb = rb \<and> distinct sa \<and> distinct sb
      \<and> (\<forall>i < ra. \<forall>j < rb. sa ! i = sb ! j \<longleftrightarrow> (int i, int j) \<in> set (zip ba bb) \<union> set (zip ca cb)))"
proof (cases "52 < ra + rb - length (ba @ ca)")
  case True
  with einsum_subscripts_fail [OF assms] show ?thesis by simp
next
  case False
  let ?P = "nats (ba @ ca)" and ?Q = "nats (bb @ cb)" and ?k = "length (ba @ ca)"
  let ?na = "number ?k ra ?P" and ?nb = "number ra rb ?Q"
  let ?sa = "map (\<lambda>i. L (?na i)) [0..<ra]" and ?sb = "map (\<lambda>i. L (?nb i)) [0..<rb]"
  note A = nats_ok [OF assms(3)] and B = nats_ok [OF assms(4)]
  have pos: "\<forall>a \<in> set (ba @ ca). 0 \<le> a" "\<forall>a \<in> set (bb @ cb). 0 \<le> a"
    using assms(3,4) by (auto simp: axes_ok_def)
  have len: "length ?P = ?k" "length ?Q = ?k" using assms by simp_all
  have k: "?k \<le> ra" "?k \<le> rb" using length_axes [OF A] length_axes [OF B] len by simp_all
  have na: "?na i < ra" if "i < ra" for i
    using that k number_less_hit [OF A(1), of i ?k ra] number_less_miss [OF A that, of ?k] len by (cases "i \<in> set ?P") auto
  have nb: "?nb j < ra + rb - ?k" if "j < rb" for j
    using that k number_less_hit [OF B(1), of j ra rb] number_less_miss [OF B that, of ra] len by (cases "j \<in> set ?Q") auto
  have small: "ra + rb - ?k \<le> 52" "ra \<le> 52" using False k by simp_all
  have La: "L (?na i) = L (?na i') \<longleftrightarrow> i = i'" if "i < ra" "i' < ra" for i i'
    using na that small number_inj [OF A(1), of ?k i ra i'] by (subst L_eq) (auto intro: order.strict_trans2)
  have Lb: "L (?nb j) = L (?nb j') \<longleftrightarrow> j = j'" if "j < rb" "j' < rb" for j j'
    using nb that small k len number_inj [OF B(1), of ra j rb j'] by (subst L_eq) (auto intro: order.strict_trans2)
  have Lab: "L (?na i) = L (?nb j) \<longleftrightarrow> (int i, int j) \<in> set (zip ba bb) \<union> set (zip ca cb)" if "i < ra" "j < rb" for i j
  proof -
    have "L (?na i) = L (?nb j) \<longleftrightarrow> ?na i = ?nb j"
      using na [OF that(1)] nb [OF that(2)] small by (intro L_eq) (auto intro: order.strict_trans2)
    also have "\<dots> \<longleftrightarrow> (i, j) \<in> set (zip ?P ?Q)"
      using number_eq_paired [of ?P ?Q ra rb i j] A B len k that by simp
    also have "\<dots> \<longleftrightarrow> (int i, int j) \<in> set (zip (ba @ ca) (bb @ cb))" using pos by (rule zip_nats)
    finally show ?thesis using assms by (simp add: zip_append)
  qed
  have "map (\<lambda>a. L (?na (nat a))) ba = map L (seq 0 (length ba))"
    using number_paired [of "nats ba" "nats ca" ?k ra] A(1) by (simp add: comp_def)
  moreover have "map (\<lambda>a. ?sa ! nat a) ba = map (\<lambda>a. L (?na (nat a))) ba"
    using A(2) by (intro map_cong) auto
  ultimately have batch: "map L (seq 0 (length ba)) = map (\<lambda>a. ?sa ! nat a) ba" by simp
  have "map ((!) ?sa) (free_axes ra (ba @ ca)) = map (\<lambda>i. L (?na i)) (free_axes ra (ba @ ca))"
    by (intro map_cong) (auto simp: free_axes_def)
  then have fa: "map L (seq ?k (ra - ?k)) = map ((!) ?sa) (free_axes ra (ba @ ca))"
    using number_unpaired [OF A, of ?k, unfolded len unpaired_nats [OF pos(1)]] by (simp only:)
  have "map ((!) ?sb) (free_axes rb (bb @ cb)) = map (\<lambda>j. L (?nb j)) (free_axes rb (bb @ cb))"
    by (intro map_cong) (auto simp: free_axes_def)
  then have fb: "map L (seq ra (rb - ?k)) = map ((!) ?sb) (free_axes rb (bb @ cb))"
    using number_unpaired [OF B, of ra, unfolded len unpaired_nats [OF pos(2)]] by (simp only:)
  have "einsum_subscripts ra rb ca cb ba bb = Inr (?sa, ?sb,
      map (\<lambda>a. ?sa ! nat a) ba @ map ((!) ?sa) (free_axes ra (ba @ ca)) @ map ((!) ?sb) (free_axes rb (bb @ cb)))"
    using einsum_subscripts_eq [OF assms small(1)] by (simp only: batch fa fb)
  moreover have "distinct ?sa" "distinct ?sb" using La Lb by (auto simp: distinct_map inj_on_def)
  moreover have "\<forall>i < ra. \<forall>j < rb. ?sa ! i = ?sb ! j \<longleftrightarrow> (int i, int j) \<in> set (zip ba bb) \<union> set (zip ca cb)"
    using Lab by simp
  moreover have "length ?sa = ra" "length ?sb = rb" by simp_all
  ultimately show ?thesis unfolding if_not_P [OF False] by blast
qed

lemma einsum_subscripts_spec_witness:
  "\<exists>sa sb. einsum_subscripts 3 3 [2] [1] [0] [0] =
       Inr (sa, sb, map (\<lambda>a. sa ! nat a) [0] @ map ((!) sa) (free_axes 3 [0, 2]) @ map ((!) sb) (free_axes 3 [0, 1]))
     \<and> distinct sa \<and> distinct sb \<and> sa ! 2 = sb ! 1 \<and> sa ! 1 \<noteq> sb ! 1"
proof -
  have "axes_ok 3 ([0] @ [2])" "axes_ok 3 ([0] @ [1])" by (auto simp: axes_ok_def)
  from einsum_subscripts_spec [OF _ _ this] obtain sa sb where
    e: "einsum_subscripts 3 3 [2] [1] [0] [0] =
       Inr (sa, sb, map (\<lambda>a. sa ! nat a) [0] @ map ((!) sa) (free_axes 3 [0, 2]) @ map ((!) sb) (free_axes 3 [0, 1]))"
    and d: "distinct sa" "distinct sb"
    and l: "\<forall>i < 3. \<forall>j < 3. sa ! i = sb ! j \<longleftrightarrow> (int i, int j) \<in> set (zip [0] [0]) \<union> set (zip [2] [1])"
    by auto
  from l have "sa ! 2 = sb ! 1" "sa ! 1 \<noteq> sb ! 1"
    using l [rule_format, of 2 1] l [rule_format, of 1 1] by simp_all
  with e d show ?thesis by blast
qed

end
