(* ===== verification/Protocol.thy ===== *)
theory Protocol
  imports PyVal "HOL-Library.Word"
begin

text \<open>
  The wire protocol (\<open>priv/worker/protocol.py\<close>): big-endian fields as \<open>struct\<close> packs and
  unpacks them, exact reads from a stream that delivers its bytes in chunks of any size, the
  4-byte packet prefix and the XTG1 frame. The JSON text of the metadata is read and written by
  the codec's two functions, arguments here; the locale \<open>json_codec\<close> is what a round trip
  needs of them, and \<open>JsonText\<close> interprets it.
\<close>

type_synonym byte = "8 word"

subsection \<open>struct: big-endian fields\<close>

fun be_bytes :: "nat \<Rightarrow> nat \<Rightarrow> byte list" where
  "be_bytes 0 n = []"
| "be_bytes (Suc k) n = be_bytes k (n div 256) @ [word_of_nat (n mod 256)]"

definition be_nat :: "byte list \<Rightarrow> nat" where
  "be_nat bs = foldl (\<lambda>a b. 256 * a + unat b) 0 bs"

definition struct_pack :: "nat \<Rightarrow> nat \<Rightarrow> exn + byte list" where
  "struct_pack k n =
     (if n < 256 ^ k then Inr (be_bytes k n) else Inl (PyErr ''error'' ''argument out of range''))"

definition struct_unpack_from :: "nat \<Rightarrow> byte list \<Rightarrow> nat \<Rightarrow> exn + nat" where
  "struct_unpack_from k buf offset =
     (if offset + k \<le> length buf then Inr (be_nat (take k (drop offset buf)))
      else Inl (PyErr ''error'' ''unpack_from requires a larger buffer''))"

lemma unat_byte_less: "unat (b :: byte) < 256"
  by (rule order_less_le_trans [OF unsigned_less]) simp

lemma length_be_bytes [simp]: "length (be_bytes k n) = k"
  by (induction k arbitrary: n) auto

lemma be_nat_Nil [simp]: "be_nat [] = 0"
  by (simp add: be_nat_def)

lemma be_nat_snoc [simp]: "be_nat (bs @ [b]) = 256 * be_nat bs + unat b"
  by (simp add: be_nat_def)

lemma be_nat_be_bytes: "n < 256 ^ k \<Longrightarrow> be_nat (be_bytes k n) = n"
proof (induction k arbitrary: n)
  case (Suc k)
  then have "n div 256 < 256 ^ k" by (simp add: less_mult_imp_div_less mult.commute)
  with Suc.IH show ?case by (simp add: unat_of_nat)
qed simp

lemma be_nat_bound: "be_nat bs < 256 ^ length bs"
proof (induction bs rule: rev_induct)
  case (snoc b bs)
  from snoc unat_byte_less [of b] show ?case by simp
qed simp

lemma be_bytes_be_nat: "be_bytes (length bs) (be_nat bs) = bs"
proof (induction bs rule: rev_induct)
  case (snoc b bs)
  from unat_byte_less [of b] have "(256 * be_nat bs + unat b) div 256 = be_nat bs"
    and "(256 * be_nat bs + unat b) mod 256 = unat b" by auto
  with snoc show ?case by simp
qed simp

lemma struct_pack_eq_Inr [raises]:
  "struct_pack k n = Inr bs \<longleftrightarrow> n < 256 ^ k \<and> bs = be_bytes k n"
  by (auto simp: struct_pack_def)

subsection \<open>Streams\<close>

text \<open>
  An input stream is the list of chunks its \<open>read\<close> calls can still deliver: \<open>read(k)\<close> returns at
  most \<open>k\<close> bytes of the next chunk, and the empty byte string when the stream is at its end.
\<close>

type_synonym stream = "byte list list"

fun stream_read :: "nat \<Rightarrow> stream \<Rightarrow> byte list \<times> stream" where
  "stream_read k [] = ([], [])"
| "stream_read k (c # cs) = (take k c, if length c \<le> k then cs else drop k c # cs)"

definition stream_ok :: "stream \<Rightarrow> bool" where
  "stream_ok s = ([] \<notin> set s)"

function read_exact_loop :: "byte list \<Rightarrow> nat \<Rightarrow> stream \<Rightarrow> byte list option \<times> stream" where
  "read_exact_loop buf n s =
     (if length buf < n
      then (case stream_read (n - length buf) s of (chunk, s') \<Rightarrow>
              if chunk = [] then (None, s') else read_exact_loop (buf @ chunk) n s')
      else (Some buf, s))"
  by pat_completeness auto
termination
  by (relation "measure (\<lambda>(buf, n, s). n - length buf)")
    (auto simp del: length_greater_0_conv simp: length_greater_0_conv [symmetric])

declare read_exact_loop.simps [simp del]

definition read_exact :: "stream \<Rightarrow> nat \<Rightarrow> byte list option \<times> stream" where
  "read_exact s n = read_exact_loop [] n s"

lemma stream_read_ok: "stream_read k s = (c, s') \<Longrightarrow> stream_ok s \<Longrightarrow> stream_ok s'"
  by (cases s) (auto simp: stream_ok_def split: if_splits)

lemma stream_read_concat: "stream_read k s = (c, s') \<Longrightarrow> c @ concat s' = concat s"
  by (cases s) (auto split: if_splits)

lemma stream_read_length: "stream_read k s = (c, s') \<Longrightarrow> length c \<le> k"
  by (cases s) (auto split: if_splits)

lemma stream_read_Nil:
  "stream_read k s = ([], s') \<Longrightarrow> stream_ok s \<Longrightarrow> 0 < k \<Longrightarrow> concat s = []"
  by (cases s) (auto simp: stream_ok_def split: if_splits)

text \<open>The exact read depends on the bytes that are still to come, not on how they are chunked.\<close>

lemma read_exact_loop_spec:
  assumes "stream_ok s" and "length buf \<le> n"
  shows "\<exists>r. stream_ok r \<and> read_exact_loop buf n s =
           (if n - length buf \<le> length (concat s)
            then (Some (buf @ take (n - length buf) (concat s)), r) else (None, r))
         \<and> (n - length buf \<le> length (concat s) \<longrightarrow> concat r = drop (n - length buf) (concat s))"
  using assms
proof (induction buf n s rule: read_exact_loop.induct)
  case (1 buf n s)
  obtain chunk s' where r: "stream_read (n - length buf) s = (chunk, s')" by fastforce
  note ok = stream_read_ok [OF r "1.prems"(1)]
  show ?case
  proof (cases "length buf < n")
    case False
    with "1.prems" show ?thesis by (auto simp: read_exact_loop.simps [of buf n s])
  next
    case less: True
    show ?thesis
    proof (cases "chunk = []")
      case True
      with stream_read_Nil [of "n - length buf" s s'] r less "1.prems"(1)
      have "concat s = []" by simp
      with True less r ok show ?thesis
        by (simp add: read_exact_loop.simps [of buf n s] del: concat_eq_Nil_conv)
    next
      case False
      have len: "length chunk \<le> n - length buf" and cc: "concat s = chunk @ concat s'"
        using stream_read_length [OF r] stream_read_concat [OF r] by auto
      from len less have "length (buf @ chunk) \<le> n" by simp
      from "1.IH" [OF less r [symmetric] False ok this] obtain rr where
        "stream_ok rr" and "read_exact_loop (buf @ chunk) n s' =
           (if n - length (buf @ chunk) \<le> length (concat s')
            then (Some ((buf @ chunk) @ take (n - length (buf @ chunk)) (concat s')), rr)
            else (None, rr))"
        and "n - length (buf @ chunk) \<le> length (concat s') \<longrightarrow>
           concat rr = drop (n - length (buf @ chunk)) (concat s')" by blast
      with less False r len cc show ?thesis
        by (intro exI [of _ rr]) (auto simp: read_exact_loop.simps [of buf n s])
    qed
  qed
qed

lemma read_exact_Some:
  assumes "stream_ok s" and "n \<le> length (concat s)"
  obtains r where "read_exact s n = (Some (take n (concat s)), r)" "stream_ok r"
    "concat r = drop n (concat s)"
  using read_exact_loop_spec [of s "[]" n] assms by (auto simp: read_exact_def)

lemma read_exact_None:
  assumes "stream_ok s" and "length (concat s) < n"
  obtains r where "read_exact s n = (None, r)" "stream_ok r"
  using read_exact_loop_spec [of s "[]" n] assms by (auto simp: read_exact_def)

subsection \<open>Packets\<close>

definition MAX_FRAME_BYTES :: nat where
  "MAX_FRAME_BYTES = 2 * 1024 * 1024 * 1024"

definition read_packet :: "stream \<Rightarrow> exn + (byte list option \<times> stream)" where
  "read_packet s =
     (case read_exact s 4 of
        (None, s') \<Rightarrow> Inr (None, s')
      | (Some header, s') \<Rightarrow>
          rbind (struct_unpack_from 4 header 0) (\<lambda>len.
          rbind (ensure (len \<le> MAX_FRAME_BYTES) (protocol_error ''incoming frame too large'')) (\<lambda>_.
          (case read_exact s' len of
             (None, s'') \<Rightarrow> Inl (protocol_error ''truncated frame: EOF inside packet body'')
           | (Some payload, s'') \<Rightarrow> Inr (Some payload, s'')))))"

definition write_packet :: "byte list \<Rightarrow> byte list \<Rightarrow> exn + byte list" where
  "write_packet out payload =
     rbind (struct_pack 4 (length payload)) (\<lambda>prefix. Inr (out @ prefix @ payload))"

subsection \<open>XTG1 frames\<close>

definition MAGIC :: "byte list" where
  "MAGIC = [0x58, 0x54, 0x47, 0x31]"

definition header_size :: nat where
  "header_size = 20"

definition header_pack :: "nat \<Rightarrow> nat \<Rightarrow> nat \<Rightarrow> exn + byte list" where
  "header_pack req_id json_len blob_count =
     rbind (struct_pack 8 req_id) (\<lambda>a.
     rbind (struct_pack 4 json_len) (\<lambda>b.
     rbind (struct_pack 2 blob_count) (\<lambda>c.
     Inr (MAGIC @ a @ b @ c @ [0, 0]))))"

text \<open>\<open>payload[i : j]\<close>\<close>

definition byte_slice :: "byte list \<Rightarrow> nat \<Rightarrow> nat \<Rightarrow> byte list" where
  "byte_slice bs i j = take (j - i) (drop i bs)"

fun read_lengths :: "byte list \<Rightarrow> nat \<Rightarrow> nat \<Rightarrow> exn + (nat list \<times> nat)" where
  "read_lengths payload offset 0 = Inr ([], offset)"
| "read_lengths payload offset (Suc k) =
     rbind (struct_unpack_from 8 payload offset) (\<lambda>blen.
     rbind (read_lengths payload (offset + 8) k) (\<lambda>(ls, offset'). Inr (blen # ls, offset')))"

fun read_blobs :: "byte list \<Rightarrow> nat \<Rightarrow> nat list \<Rightarrow> exn + (byte list list \<times> nat)" where
  "read_blobs payload offset [] = Inr ([], offset)"
| "read_blobs payload offset (blen # ls) =
     (let blob = byte_slice payload offset (offset + blen) in
      rbind (ensure (length blob = blen) (protocol_error ''truncated blob'')) (\<lambda>_.
      rbind (read_blobs payload (offset + blen) ls) (\<lambda>(bs, offset'). Inr (blob # bs, offset'))))"

definition decode_frame ::
    "(byte list \<Rightarrow> py option) \<Rightarrow> byte list \<Rightarrow> exn + (nat \<times> py \<times> byte list list)" where
  "decode_frame loads payload =
     rbind (ensure (header_size \<le> length payload) (protocol_error ''frame shorter than header'')) (\<lambda>_.
     rbind (struct_unpack_from 8 payload 4) (\<lambda>req_id.
     rbind (struct_unpack_from 4 payload 12) (\<lambda>json_len.
     rbind (struct_unpack_from 2 payload 16) (\<lambda>blob_count.
     rbind (ensure (byte_slice payload 0 4 = MAGIC) (protocol_error ''bad magic'')) (\<lambda>_.
     rbind (ensure (header_size + blob_count * 8 \<le> length payload)
              (protocol_error ''truncated blob length table'')) (\<lambda>_.
     rbind (read_lengths payload header_size blob_count) (\<lambda>(blob_lengths, offset).
     (let meta_bytes = byte_slice payload offset (offset + json_len) in
      rbind (ensure (length meta_bytes = json_len) (protocol_error ''truncated metadata'')) (\<lambda>_.
      rbind (case loads meta_bytes of
               None \<Rightarrow> Inl (protocol_error ''invalid JSON metadata'')
             | Some v \<Rightarrow> Inr v) (\<lambda>meta.
      rbind (ensure (is_dict meta) (protocol_error ''metadata must be a JSON object'')) (\<lambda>_.
      rbind (read_blobs payload (offset + json_len) blob_lengths) (\<lambda>(blobs, offset').
      rbind (ensure (offset' = length payload) (protocol_error ''trailing bytes after frame'')) (\<lambda>_.
      Inr (req_id, meta, blobs))))))))))))))"

definition encode_frame ::
    "(py \<Rightarrow> byte list) \<Rightarrow> nat \<Rightarrow> py \<Rightarrow> byte list list \<Rightarrow> exn + byte list" where
  "encode_frame dumps req_id meta blobs =
     (let meta_bytes = dumps meta in
      rbind (header_pack req_id (length meta_bytes) (length blobs)) (\<lambda>h.
      rbind (rmap (\<lambda>b. struct_pack 8 (length b)) blobs) (\<lambda>ls.
      Inr (h @ concat ls @ meta_bytes @ concat blobs))))"

subsection \<open>Reading what was written\<close>

lemma struct_unpack_from_append:
  "length bs = k \<Longrightarrow> struct_unpack_from k (pre @ bs @ post) (length pre) = Inr (be_nat bs)"
  by (simp add: struct_unpack_from_def)

lemma read_lengths_total:
  "offset + 8 * k \<le> length payload \<Longrightarrow> \<exists>ls. read_lengths payload offset k = Inr (ls, offset + 8 * k)
     \<and> length ls = k \<and> take (8 * k) (drop offset payload) = concat (map (be_bytes 8) ls)"
proof (induction k arbitrary: offset)
  case (Suc k)
  then have le: "offset + 8 + 8 * k \<le> length payload" by simp
  let ?b = "take 8 (drop offset payload)"
  from Suc.IH [OF le] obtain ls where
    ls: "read_lengths payload (offset + 8) k = Inr (ls, offset + 8 + 8 * k)" "length ls = k"
      "take (8 * k) (drop (offset + 8) payload) = concat (map (be_bytes 8) ls)" by auto
  have len: "length ?b = 8" using le by simp
  have "take (8 * Suc k) (drop offset payload) = ?b @ take (8 * k) (drop (offset + 8) payload)"
    by (simp add: take_add add.commute [of _ offset])
  moreover have "be_bytes 8 (be_nat ?b) = ?b" using be_bytes_be_nat [of ?b] len by simp
  ultimately show ?case using ls le
    by (intro exI [of _ "be_nat ?b # ls"]) (simp add: struct_unpack_from_def)
qed simp

lemma read_lengths_encoded:
  assumes "\<forall>b \<in> set blobs. length b < 256 ^ 8"
  shows "read_lengths (pre @ concat (map (\<lambda>b. be_bytes 8 (length b)) blobs) @ post)
     (length pre) (length blobs) = Inr (map length blobs, length pre + 8 * length blobs)"
  using assms
proof (induction blobs arbitrary: pre)
  case (Cons b blobs)
  have "read_lengths ((pre @ be_bytes 8 (length b)) @ concat (map (\<lambda>b. be_bytes 8 (length b)) blobs) @ post)
      (length (pre @ be_bytes 8 (length b))) (length blobs)
     = Inr (map length blobs, length (pre @ be_bytes 8 (length b)) + 8 * length blobs)"
    using Cons.prems by (intro Cons.IH) simp
  moreover have "struct_unpack_from 8 (pre @ be_bytes 8 (length b) @
      concat (map (\<lambda>b. be_bytes 8 (length b)) blobs) @ post) (length pre) = Inr (length b)"
    using Cons.prems by (subst struct_unpack_from_append) (simp_all add: be_nat_be_bytes del: be_bytes.simps)
  ultimately show ?case by (simp del: be_bytes.simps)
qed simp

lemma read_blobs_encoded:
  "read_blobs (pre @ concat blobs @ post) (length pre) (map length blobs)
     = Inr (blobs, length pre + length (concat blobs))"
proof (induction blobs arbitrary: pre)
  case (Cons b blobs)
  have "read_blobs ((pre @ b) @ concat blobs @ post) (length (pre @ b)) (map length blobs)
     = Inr (blobs, length (pre @ b) + length (concat blobs))" by (rule Cons.IH)
  then show ?case by (simp add: byte_slice_def)
qed simp

lemma read_blobs_sound:
  "read_blobs payload offset ls = Inr (bs, offset') \<Longrightarrow> offset \<le> length payload \<Longrightarrow>
     map length bs = ls \<and> offset' = offset + sum_list ls \<and> offset' \<le> length payload \<and>
     take (sum_list ls) (drop offset payload) = concat bs"
proof (induction ls arbitrary: offset bs)
  case (Cons l ls)
  let ?b = "take l (drop offset payload)"
  from Cons.prems obtain bs' where bs: "length ?b = l" "bs = ?b # bs'"
    "read_blobs payload (offset + l) ls = Inr (bs', offset')"
    by (auto simp: Let_def byte_slice_def raises)
  from bs(1) Cons.prems(2) have "offset + l \<le> length payload" by auto
  from Cons.IH [OF bs(3) this] bs(1,2) show ?case
    by (auto simp: take_add add.commute [of _ offset])
qed simp

lemma read_blobs_error: "read_blobs payload offset ls = Inl e \<Longrightarrow> e = protocol_error ''truncated blob''"
  by (induction ls arbitrary: offset) (auto simp: Let_def raises split: prod.splits)

subsection \<open>The codec's contract\<close>

locale json_codec =
  fixes loads :: "byte list \<Rightarrow> py option"
    and dumps :: "py \<Rightarrow> byte list"
    and canonical :: "py \<Rightarrow> bool"
  assumes loads_dumps: "canonical v \<Longrightarrow> loads (dumps v) = Some v"
begin

lemma decode_encode:
  assumes "canonical meta" and "is_dict meta"
    and enc: "encode_frame dumps req_id meta blobs = Inr frame"
  shows "decode_frame loads frame = Inr (req_id, meta, blobs)"
proof -
  let ?m = "dumps meta" and ?ls = "concat (map (\<lambda>b. be_bytes 8 (length b)) blobs)"
  let ?h = "MAGIC @ be_bytes 8 req_id @ be_bytes 4 (length ?m) @ be_bytes 2 (length blobs) @ [0, 0]"
  from enc have bounds: "req_id < 256 ^ 8" "length ?m < 256 ^ 4" "length blobs < 256 ^ 2"
      "\<forall>b \<in> set blobs. length b < 256 ^ 8"
    and frame: "frame = ?h @ ?ls @ ?m @ concat blobs"
    by (auto simp: encode_frame_def header_pack_def raises Let_def list_all2_conv_all_nth
        set_conv_nth intro!: arg_cong [where f = concat] nth_equalityI simp del: be_bytes.simps)
  have len_h: "length ?h = 20" "length MAGIC = 4" by (simp_all add: MAGIC_def)
  have len_ls: "length ?ls = 8 * length blobs" by (induction blobs) auto
  have "read_lengths frame 20 (length blobs) = Inr (map length blobs, 20 + 8 * length blobs)"
    using read_lengths_encoded [OF bounds(4), of ?h "?m @ concat blobs"] frame len_h by simp
  moreover have "read_blobs frame (20 + 8 * length blobs + length ?m) (map length blobs)
      = Inr (blobs, length frame)"
    using read_blobs_encoded [of "?h @ ?ls @ ?m" blobs "[]"] frame len_h len_ls
    by (simp add: add.assoc)
  moreover have "struct_unpack_from 8 frame 4 = Inr req_id"
    using struct_unpack_from_append [of "be_bytes 8 req_id" 8 MAGIC] frame len_h bounds(1)
    by (simp add: be_nat_be_bytes del: be_bytes.simps)
  moreover have "struct_unpack_from 4 frame 12 = Inr (length ?m)"
    using struct_unpack_from_append [of "be_bytes 4 (length ?m)" 4 "MAGIC @ be_bytes 8 req_id"]
      frame len_h bounds(2) by (simp add: be_nat_be_bytes del: be_bytes.simps)
  moreover have "struct_unpack_from 2 frame 16 = Inr (length blobs)"
    using struct_unpack_from_append [of "be_bytes 2 (length blobs)" 2
        "MAGIC @ be_bytes 8 req_id @ be_bytes 4 (length ?m)"] frame len_h bounds(3)
    by (simp add: be_nat_be_bytes del: be_bytes.simps)
  moreover have "byte_slice frame 0 4 = MAGIC" using frame len_h by (simp add: byte_slice_def)
  moreover have "byte_slice frame (20 + 8 * length blobs) (20 + 8 * length blobs + length ?m) = ?m"
    using frame len_h len_ls by (simp add: byte_slice_def)
  moreover have "20 + 8 * length blobs \<le> length frame" using frame len_h len_ls by simp
  ultimately show ?thesis using assms(1,2) loads_dumps
    by (simp add: decode_frame_def header_size_def mult.commute [of _ 8])
qed

end

subsection \<open>Properties\<close>

lemma be_nat_take4: "stream_ok s \<Longrightarrow> 4 \<le> length (concat s) \<Longrightarrow>
    struct_unpack_from 4 (take 4 (concat s)) 0 = Inr (be_nat (take 4 (concat s)))"
  by (simp add: struct_unpack_from_def)

text \<open>The four cases of a read, by the bytes \<open>bs\<close> still to come and the announced length.\<close>

lemma read_packet_short:
  assumes "stream_ok s" and "length (concat s) < 4"
  obtains s' where "read_packet s = Inr (None, s')"
proof -
  from read_exact_None [OF assms] obtain r where "read_exact s 4 = (None, r)" by blast
  then show ?thesis by (intro that) (simp add: read_packet_def)
qed

lemma read_packet_prefix:
  assumes "stream_ok s" and "4 \<le> length (concat s)"
  obtains r where "stream_ok r" "concat r = drop 4 (concat s)"
    "read_packet s = rbind (ensure (be_nat (take 4 (concat s)) \<le> MAX_FRAME_BYTES) (protocol_error ''incoming frame too large''))
       (\<lambda>_. case read_exact r (be_nat (take 4 (concat s))) of
          (None, _) \<Rightarrow> Inl (protocol_error ''truncated frame: EOF inside packet body'')
        | (Some payload, s'') \<Rightarrow> Inr (Some payload, s''))"
proof -
  from read_exact_Some [OF assms] obtain r where
    r: "read_exact s 4 = (Some (take 4 (concat s)), r)" "stream_ok r" "concat r = drop 4 (concat s)" .
  with be_nat_take4 [OF assms] show ?thesis by (intro that) (simp_all add: read_packet_def)
qed

lemma read_packet_large:
  assumes "stream_ok s" "4 \<le> length (concat s)" "MAX_FRAME_BYTES < be_nat (take 4 (concat s))"
  shows "read_packet s = Inl (protocol_error ''incoming frame too large'')"
  using assms(3) by (rule_tac read_packet_prefix [OF assms(1,2)]) (simp add: ensure_def)

lemma read_packet_cut:
  assumes "stream_ok s" "4 \<le> length (concat s)" "be_nat (take 4 (concat s)) \<le> MAX_FRAME_BYTES"
    and "length (concat s) < 4 + be_nat (take 4 (concat s))"
  shows "read_packet s = Inl (protocol_error ''truncated frame: EOF inside packet body'')"
proof (rule read_packet_prefix [OF assms(1,2)])
  fix r assume r: "stream_ok r" "concat r = drop 4 (concat s)" and eq: "read_packet s =
    rbind (ensure (be_nat (take 4 (concat s)) \<le> MAX_FRAME_BYTES) (protocol_error ''incoming frame too large''))
       (\<lambda>_. case read_exact r (be_nat (take 4 (concat s))) of
          (None, _) \<Rightarrow> Inl (protocol_error ''truncated frame: EOF inside packet body'')
        | (Some payload, s'') \<Rightarrow> Inr (Some payload, s''))"
  have "length (concat r) < be_nat (take 4 (concat s))" unfolding r(2) length_drop using assms(2,4) by linarith
  from read_exact_None [OF r(1) this] obtain q where "read_exact r (be_nat (take 4 (concat s))) = (None, q)" .
  with eq assms(3) show ?thesis by simp
qed

lemma read_packet_whole:
  assumes "stream_ok s" "be_nat (take 4 (concat s)) \<le> MAX_FRAME_BYTES"
    and "4 + be_nat (take 4 (concat s)) \<le> length (concat s)"
  obtains s' where "read_packet s = Inr (Some (take (be_nat (take 4 (concat s))) (drop 4 (concat s))), s')"
    "stream_ok s'" "concat s' = drop (4 + be_nat (take 4 (concat s))) (concat s)"
proof (rule read_packet_prefix [OF assms(1)])
  show "4 \<le> length (concat s)" using assms(3) by linarith
next
  fix r assume r: "stream_ok r" "concat r = drop 4 (concat s)" and eq: "read_packet s =
    rbind (ensure (be_nat (take 4 (concat s)) \<le> MAX_FRAME_BYTES) (protocol_error ''incoming frame too large''))
       (\<lambda>_. case read_exact r (be_nat (take 4 (concat s))) of
          (None, _) \<Rightarrow> Inl (protocol_error ''truncated frame: EOF inside packet body'')
        | (Some payload, s'') \<Rightarrow> Inr (Some payload, s''))"
  have "be_nat (take 4 (concat s)) \<le> length (concat r)" unfolding r(2) length_drop using assms(3) by linarith
  from read_exact_Some [OF r(1) this] obtain q where q: "read_exact r (be_nat (take 4 (concat s))) =
     (Some (take (be_nat (take 4 (concat s))) (concat r)), q)" "stream_ok q"
     "concat q = drop (be_nat (take 4 (concat s))) (concat r)" .
  show ?thesis
    by (rule that [of q]) (use eq q r(2) assms(2) in \<open>simp_all add: add.commute\<close>)
qed

text \<open>A packet as it is written, and reading it back.\<close>

definition packet :: "byte list \<Rightarrow> byte list" where
  "packet payload = be_bytes 4 (length payload) @ payload"

lemma read_packet_full:
  assumes "stream_ok s" and "concat s = packet payload @ rest" and "length payload \<le> MAX_FRAME_BYTES"
  obtains s' where "read_packet s = Inr (Some payload, s')" "stream_ok s'" "concat s' = rest"
proof -
  have b: "length payload < 256 ^ 4" using assms(3) by (simp add: MAX_FRAME_BYTES_def)
  have len: "be_nat (take 4 (concat s)) = length payload"
    using be_nat_be_bytes [OF b] by (simp add: assms(2) packet_def del: be_bytes.simps)
  show ?thesis
    by (rule read_packet_whole [OF assms(1)])
      (use len assms(2,3) that in \<open>simp_all add: packet_def del: be_bytes.simps\<close>)
qed

lemma write_packet_ok: "length payload < 256 ^ 4 \<Longrightarrow> write_packet out payload = Inr (out @ packet payload)"
  by (simp add: write_packet_def struct_pack_def packet_def del: be_bytes.simps)

text \<open>
  C6. What \<open>read_packet\<close> returns on a stream is decided by the bytes still to come, however they
  are chunked: fewer than four bytes are an end of input (a partial length prefix too), a length
  over the bound or a body cut short is a \<open>ProtocolError\<close>, and otherwise the payload is exactly the
  announced number of bytes and the stream stands right behind it.
\<close>
theorem read_packet_spec:
  assumes "stream_ok s"
  shows "let bs = concat s; len = be_nat (take 4 bs) in
     (length bs < 4 \<longrightarrow> (\<exists>s'. read_packet s = Inr (None, s'))) \<and>
     (4 \<le> length bs \<and> MAX_FRAME_BYTES < len \<longrightarrow>
        read_packet s = Inl (protocol_error ''incoming frame too large'')) \<and>
     (4 \<le> length bs \<and> len \<le> MAX_FRAME_BYTES \<and> length bs < 4 + len \<longrightarrow>
        read_packet s = Inl (protocol_error ''truncated frame: EOF inside packet body'')) \<and>
     (4 + len \<le> length bs \<and> len \<le> MAX_FRAME_BYTES \<longrightarrow>
        (\<exists>s'. read_packet s = Inr (Some (take len (drop 4 bs)), s') \<and> stream_ok s'
              \<and> concat s' = drop (4 + len) bs))"
proof -
  consider "length (concat s) < 4" | "4 \<le> length (concat s)" by linarith
  then show ?thesis
  proof cases
    case 1
    then show ?thesis using read_packet_short [OF assms] by (auto simp: Let_def)
  next
    case 2
    then show ?thesis
      using read_packet_large [OF assms] read_packet_cut [OF assms] read_packet_whole [OF assms] by (auto simp: Let_def)
  qed
qed

theorem read_packet_spec_witness:
  "\<exists>s'. read_packet [[0, 0], [0, 2, 7], [8, 9]] = Inr (Some [7, 8], s') \<and> concat s' = [9]"
proof -
  have "stream_ok [[0, 0], [0, 2, 7], [8, 9]]" by (simp add: stream_ok_def)
  from read_packet_spec [OF this] show ?thesis
    by (simp add: Let_def be_nat_def MAX_FRAME_BYTES_def) blast
qed

text \<open>
  C7. A packet that is written is read back: \<open>write_packet\<close> succeeds on every payload within the
  bound, and whatever chunks its bytes arrive in and whatever follows them, \<open>read_packet\<close> returns
  the payload and leaves exactly what follows.
\<close>
theorem packet_roundtrip:
  assumes "length payload \<le> MAX_FRAME_BYTES"
  shows "\<exists>w. (\<forall>out. write_packet out payload = Inr (out @ w)) \<and>
     (\<forall>s rest. stream_ok s \<and> concat s = w @ rest \<longrightarrow>
        (\<exists>s'. read_packet s = Inr (Some payload, s') \<and> stream_ok s' \<and> concat s' = rest))"
proof -
  have "write_packet out payload = Inr (out @ packet payload)" for out
    using assms by (intro write_packet_ok) (simp add: MAX_FRAME_BYTES_def)
  with read_packet_full [OF _ _ assms] show ?thesis by blast
qed

theorem packet_roundtrip_witness:
  "\<exists>w. write_packet [5] [1, 2] = Inr (5 # w) \<and>
     (\<exists>s'. read_packet [w, [3]] = Inr (Some [1, 2], s') \<and> concat s' = [3])"
proof -
  have "length [1 :: byte, 2] \<le> MAX_FRAME_BYTES" by (simp add: MAX_FRAME_BYTES_def)
  from packet_roundtrip [OF this] obtain w where w: "\<forall>out. write_packet out [1, 2] = Inr (out @ w)"
    "\<And>s rest. stream_ok s \<Longrightarrow> concat s = w @ rest \<Longrightarrow>
      \<exists>s'. read_packet s = Inr (Some [1, 2], s') \<and> stream_ok s' \<and> concat s' = rest" by blast
  from w(1) have "w \<noteq> []" by (auto simp: write_packet_def struct_pack_def)
  with w(2) [of "[w, [3]]" "[3]"] w(1) show ?thesis by (auto simp: stream_ok_def)
qed

lemma drop_split2: "drop a p = take b (drop a p) @ take c (drop (a + b) p) @ drop (a + b + c) p"
  by (metis append_take_drop_id drop_drop add.commute)

lemma header_split:
  "p = take 4 p @ take 8 (drop 4 p) @ take 4 (drop 12 p) @ take 2 (drop 16 p) @ take 2 (drop 18 p)
     @ drop 20 p" for p :: "byte list"
proof -
  have "take (4 + (8 + (4 + (2 + 2)))) p =
      take 4 p @ take 8 (drop 4 p) @ take 4 (drop 12 p) @ take 2 (drop 16 p) @ take 2 (drop 18 p)"
    by (simp only: take_add drop_drop append_assoc) simp
  then show ?thesis using append_take_drop_id [of 20 p] by simp
qed

text \<open>
  C4. A frame that \<open>decode_frame\<close> accepts has the layout of the protocol and nothing else: magic,
  request id, metadata length, blob count, two reserved bytes, the table of blob lengths, the
  metadata text, the blobs back to back. The metadata text parses to the object returned, and
  every byte of the payload belongs to one of these fields.
\<close>
theorem decode_frame_layout:
  assumes "decode_frame loads payload = Inr (req_id, meta, blobs)"
  shows "\<exists>m reserved. length reserved = 2 \<and> loads m = Some meta \<and> is_dict meta \<and> req_id < 256 ^ 8 \<and>
     payload = MAGIC @ be_bytes 8 req_id @ be_bytes 4 (length m) @ be_bytes 2 (length blobs) @ reserved
       @ concat (map (\<lambda>b. be_bytes 8 (length b)) blobs) @ m @ concat blobs"
proof -
  let ?id = "take 8 (drop 4 payload)" and ?jl = "take 4 (drop 12 payload)"
    and ?bc = "take 2 (drop 16 payload)"
  from assms obtain ls off m where
    size: "20 \<le> length payload" and id: "req_id = be_nat ?id"
    and mag: "take 4 payload = MAGIC" and tab: "20 + be_nat ?bc * 8 \<le> length payload"
    and ls: "read_lengths payload 20 (be_nat ?bc) = Inr (ls, off)"
    and m: "m = take (be_nat ?jl) (drop off payload)" "length m = be_nat ?jl"
    and meta: "loads m = Some meta" "is_dict meta"
    and bl: "read_blobs payload (off + be_nat ?jl) ls = Inr (blobs, length payload)"
    by (auto simp: decode_frame_def header_size_def byte_slice_def struct_unpack_from_def Let_def raises
        split: option.splits)
  have tab': "20 + 8 * be_nat ?bc \<le> length payload" using tab by simp
  from read_lengths_total [OF tab'] ls have ls': "length ls = be_nat ?bc" "off = 20 + 8 * be_nat ?bc"
    "take (8 * be_nat ?bc) (drop 20 payload) = concat (map (be_bytes 8) ls)" by auto
  from m have moff: "off + be_nat ?jl \<le> length payload" using ls'(2) tab' by auto
  have bs: "map length blobs = ls" "length payload = off + be_nat ?jl + sum_list ls"
    "take (sum_list ls) (drop (off + be_nat ?jl) payload) = concat blobs"
    using read_blobs_sound [OF bl moff] by blast+
  have "length (drop (off + be_nat ?jl) payload) \<le> sum_list ls" using bs(2) by (simp only: length_drop)
  then have tail: "drop (off + be_nat ?jl) payload = concat blobs" using bs(3) by (simp only: take_all)
  have len: "length ?id = 8" "length ?jl = 4" "length ?bc = 2" using size by auto
  note enc = be_bytes_be_nat [of ?id, unfolded len] be_bytes_be_nat [of ?jl, unfolded len]
    be_bytes_be_nat [of ?bc, unfolded len]
  have "length blobs = be_nat ?bc" using arg_cong [OF bs(1), of length] ls'(1) by (simp only: length_map)
  then have fields: "be_bytes 8 req_id = ?id" "be_bytes 4 (length m) = ?jl"
    "be_bytes 2 (length blobs) = ?bc"
    using enc unfolding id m(2) by (simp_all only:)
  have "drop 20 payload = take (8 * be_nat ?bc) (drop 20 payload) @ take (be_nat ?jl) (drop off payload)
      @ drop (off + be_nat ?jl) payload"
    unfolding ls'(2) by (rule drop_split2)
  then have rest: "drop 20 payload = concat (map (\<lambda>b. be_bytes 8 (length b)) blobs) @ m @ concat blobs"
    unfolding ls'(3) m(1) [symmetric] tail bs(1) [symmetric] by (simp only: map_map comp_def)
  have "req_id < 256 ^ 8" using be_nat_bound [of ?id] len id by simp
  moreover have "payload = MAGIC @ be_bytes 8 req_id @ be_bytes 4 (length m) @ be_bytes 2 (length blobs)
      @ take 2 (drop 18 payload) @ concat (map (\<lambda>b. be_bytes 8 (length b)) blobs) @ m @ concat blobs"
    unfolding fields rest [symmetric] mag [symmetric] by (rule header_split)
  moreover have "length (take 2 (drop 18 payload)) = 2" using size by simp
  ultimately show ?thesis using meta by blast
qed

theorem decode_frame_layout_witness:
  "\<exists>m reserved. length reserved = 2 \<and> m = [123, 125] \<and>
     MAGIC @ [0, 0, 0, 0, 0, 0, 0, 9, 0, 0, 0, 2, 0, 1, 7, 7, 0, 0, 0, 0, 0, 0, 0, 1, 123, 125, 5] =
       MAGIC @ be_bytes 8 9 @ be_bytes 4 (length m) @ be_bytes 2 (length [[5 :: byte]]) @ reserved
       @ concat (map (\<lambda>b. be_bytes 8 (length b)) [[5 :: byte]]) @ m @ concat [[5 :: byte]]"
proof -
  let ?loads = "\<lambda>bs :: byte list. if bs = [123, 125] then Some (PDict []) else None"
  have "decode_frame ?loads (MAGIC @ [0, 0, 0, 0, 0, 0, 0, 9, 0, 0, 0, 2, 0, 1, 7, 7, 0, 0, 0, 0, 0, 0,
     0, 1, 123, 125, 5]) = Inr (9, PDict [], [[5]])"
    by code_simp
  from decode_frame_layout [OF this] show ?thesis
    by (auto split: if_splits simp del: be_bytes.simps)
qed



end
