(* ===== verification/Wire.thy ===== *)
theory Wire
  imports Tensor Protocol
begin

text \<open>
  Tensors on the wire (\<open>wire_tensor\<close> and \<open>wire_numpy\<close> of \<open>priv/worker/dtype.py\<close>): between a numpy array
  in the transport carrier and a tinygrad tensor. \<open>bf16\<close> rides in \<open>uint16\<close> and is bitcast, a complex array
  becomes a real tensor with a trailing [real, imag] axis. The arrays are numpy's: \<open>host\<close> is the
  parameter that stands for what the worker uses of it, with one function for the operations that
  yield an array.
\<close>

datatype npcall =
    NReshape "int list"
  | NCopy
  | NReal
  | NImag
  | NAstype npdtype
  | NStackLast
  | NContiguous "npdtype option"
  | NLast int
  | NTimesJ
  | NAdd
  | NArange int npdtype
  | NAddInt int

record ('t, 'h) host =
  np :: "npcall \<Rightarrow> 'h list \<Rightarrow> exn + 'h"
  frombuffer :: "byte list \<Rightarrow> npdtype \<Rightarrow> exn + 'h"
  np_shape :: "'h \<Rightarrow> int list"
  np_dtype :: "'h \<Rightarrow> npdtype"
  tobytes :: "'h \<Rightarrow> byte list"
  array_equal :: "'h \<Rightarrow> 'h \<Rightarrow> bool \<Rightarrow> bool"
  to_tensor :: "'h \<Rightarrow> string \<Rightarrow> exn + 't"
  to_numpy :: "'t \<Rightarrow> exn + 'h"

text \<open>\<open>np.frombuffer(blob, dtype=numpy_dtype(dtype)).reshape(shape).copy()\<close>\<close>

definition load_array :: "('t, 'h) host \<Rightarrow> byte list \<Rightarrow> py \<Rightarrow> py \<Rightarrow> exn + 'h" where
  "load_array H blob dtype shape =
     rbind (numpy_dtype dtype) (\<lambda>d.
     rbind (frombuffer H blob d) (\<lambda>flat.
     rbind (to_ints shape) (\<lambda>sh.
     rbind (np H (NReshape sh) [flat]) (\<lambda>view.
     np H NCopy [view]))))"

definition wire_tensor :: "'t tg \<Rightarrow> ('t, 'h) host \<Rightarrow> 'h \<Rightarrow> py \<Rightarrow> string \<Rightarrow> exn + 't" where
  "wire_tensor T H arr name device =
     rbind (is_complex name) (\<lambda>cx.
     if cx then
       rbind (component_dtype name) (\<lambda>c.
       rbind (numpy_dtype (PStr c)) (\<lambda>comp.
       rbind (np H NReal [arr]) (\<lambda>re. rbind (np H (NAstype comp) [re]) (\<lambda>re'.
       rbind (np H NImag [arr]) (\<lambda>im. rbind (np H (NAstype comp) [im]) (\<lambda>im'.
       rbind (np H NStackLast [re', im']) (\<lambda>stacked.
       rbind (np H (NContiguous None) [stacked]) (\<lambda>whole.
       to_tensor H whole device))))))))
     else
       rbind (to_tensor H arr device) (\<lambda>t.
       if name = PStr ''bf16'' then
         rbind (tinygrad_dtype (PStr ''bf16'')) (\<lambda>d. call T (Bitcast d) [t])
       else Inr t))"

definition wire_numpy :: "'t tg \<Rightarrow> ('t, 'h) host \<Rightarrow> 't \<Rightarrow> py \<Rightarrow> exn + 'h" where
  "wire_numpy T H tensor name =
     (if name = PStr ''bf16'' then
        rbind (call T (Bitcast TgUInt16) [tensor]) (to_numpy H)
      else
        rbind (is_complex name) (\<lambda>cx.
        if cx then
          rbind (to_numpy H tensor) (\<lambda>arr.
          rbind (np H (NLast 0) [arr]) (\<lambda>re.
          rbind (numpy_dtype name) (\<lambda>d.
          rbind (np H (NAstype d) [re]) (\<lambda>re'.
          rbind (np H (NLast 1) [arr]) (\<lambda>im.
          rbind (np H NTimesJ [im]) (\<lambda>imj.
          rbind (np H NAdd [re', imj]) (\<lambda>out.
          rbind (np H (NAstype d) [out]) (\<lambda>out'.
          np H (NContiguous None) [out']))))))))
        else to_numpy H tensor))"

end
