(* ===== verification/Run.thy ===== *)
theory Run
  imports Prelude
begin

text \<open>
  Computations of the executor: they change a state, may raise, and may not end. A run takes the
  state and gives \<open>None\<close> when the fuel it was given is not enough, and otherwise the result or the
  exception together with the state reached, which an exception does not undo.
\<close>

type_synonym ('s, 'e, 'a) run = "'s \<Rightarrow> (('e + 'a) \<times> 's) option"

named_theorems runs

definition lift :: "'e + 'a \<Rightarrow> ('s, 'e, 'a) run" where
  "lift m s = Some (m, s)"

definition ret :: "'a \<Rightarrow> ('s, 'e, 'a) run" where
  "ret x = lift (Inr x)"

definition bnd :: "('s, 'e, 'a) run \<Rightarrow> ('a \<Rightarrow> ('s, 'e, 'b) run) \<Rightarrow> ('s, 'e, 'b) run" where
  "bnd m f s = (case m s of
       None \<Rightarrow> None
     | Some (Inl e, s') \<Rightarrow> Some (Inl e, s')
     | Some (Inr x, s') \<Rightarrow> f x s')"

text \<open>\<open>try: m except Exception as e: h(e)\<close>\<close>

definition catch :: "('s, 'e, 'a) run \<Rightarrow> ('e \<Rightarrow> ('s, 'e, 'a) run) \<Rightarrow> ('s, 'e, 'a) run" where
  "catch m h s = (case m s of
       None \<Rightarrow> None
     | Some (Inl e, s') \<Rightarrow> h e s'
     | Some (Inr x, s') \<Rightarrow> Some (Inr x, s'))"

definition reads :: "('s \<Rightarrow> 'a) \<Rightarrow> ('s, 'e, 'a) run" where
  "reads f s = Some (Inr (f s), s)"

definition modify :: "('s \<Rightarrow> 's) \<Rightarrow> ('s, 'e, unit) run" where
  "modify f s = Some (Inr (), f s)"

definition diverge :: "('s, 'e, 'a) run" where
  "diverge s = None"

fun mmap :: "('a \<Rightarrow> ('s, 'e, 'b) run) \<Rightarrow> 'a list \<Rightarrow> ('s, 'e, 'b list) run" where
  "mmap f [] = ret []"
| "mmap f (x # xs) = bnd (f x) (\<lambda>y. bnd (mmap f xs) (\<lambda>ys. ret (y # ys)))"

fun mfold :: "('c \<Rightarrow> 'a \<Rightarrow> ('s, 'e, 'c) run) \<Rightarrow> 'c \<Rightarrow> 'a list \<Rightarrow> ('s, 'e, 'c) run" where
  "mfold f c [] = ret c"
| "mfold f c (x # xs) = bnd (f c x) (\<lambda>c'. mfold f c' xs)"

lemma lift_eq [runs]: "lift m s = Some (r, s') \<longleftrightarrow> r = m \<and> s' = s"
  by (auto simp: lift_def)

lemma ret_eq [runs]: "ret x s = Some (r, s') \<longleftrightarrow> r = Inr x \<and> s' = s"
  by (auto simp: ret_def lift_def)

lemma reads_eq [runs]: "reads f s = Some (r, s') \<longleftrightarrow> r = Inr (f s) \<and> s' = s"
  by (auto simp: reads_def)

lemma modify_eq [runs]: "modify f s = Some (r, s') \<longleftrightarrow> r = Inr () \<and> s' = f s"
  by (auto simp: modify_def)

lemma bnd_Inr [runs]: "bnd m f s = Some (Inr y, s') \<longleftrightarrow> (\<exists>x s1. m s = Some (Inr x, s1) \<and> f x s1 = Some (Inr y, s'))"
  by (auto simp: bnd_def split: option.splits sum.splits)

lemma bnd_Inl [runs]: "bnd m f s = Some (Inl e, s') \<longleftrightarrow>
    m s = Some (Inl e, s') \<or> (\<exists>x s1. m s = Some (Inr x, s1) \<and> f x s1 = Some (Inl e, s'))"
  by (auto simp: bnd_def split: option.splits sum.splits)

lemma bnd_Some: "m s = Some (Inr x, s1) \<Longrightarrow> bnd m f s = f x s1"
  by (simp add: bnd_def)

lemma catch_Inr [runs]: "catch m h s = Some (Inr x, s') \<longleftrightarrow>
    m s = Some (Inr x, s') \<or> (\<exists>e s1. m s = Some (Inl e, s1) \<and> h e s1 = Some (Inr x, s'))"
  by (auto simp: catch_def split: option.splits sum.splits)

lemma catch_Inl [runs]: "catch m h s = Some (Inl x, s') \<longleftrightarrow>
    (\<exists>e s1. m s = Some (Inl e, s1) \<and> h e s1 = Some (Inl x, s'))"
  by (auto simp: catch_def split: option.splits sum.splits)

lemma bnd_lift [simp]: "bnd (lift (Inr x)) f = f x" "bnd (ret x) f = f x"
  by (auto simp: bnd_def lift_def ret_def)

lemma mfold_append: "mfold f c (xs @ ys) s = bnd (mfold f c xs) (\<lambda>c'. mfold f c' ys) s"
  by (induction xs arbitrary: c s) (auto simp: bnd_def ret_def lift_def split: option.splits sum.splits)

subsection \<open>What every run keeps of the state\<close>

text \<open>
  A reflexive and transitive relation between the state before and the state after, whatever the
  result is. It is closed under the combinators, so it holds of a command when it holds of its updates.
\<close>

locale state_relation =
  fixes R :: "'s \<Rightarrow> 's \<Rightarrow> bool"
  assumes refl: "R s s"
    and trans: "R s t \<Longrightarrow> R t u \<Longrightarrow> R s u"
begin

definition keeps :: "('s, 'e, 'a) run \<Rightarrow> bool" where
  "keeps m = (\<forall>s r s'. m s = Some (r, s') \<longrightarrow> R s s')"

lemma keepsD: "keeps m \<Longrightarrow> m s = Some (r, s') \<Longrightarrow> R s s'"
  by (auto simp: keeps_def)

lemma keeps_lift [simp, intro]: "keeps (lift m)"
  by (simp add: keeps_def lift_def refl)

lemma keeps_ret [simp, intro]: "keeps (ret x)"
  by (simp add: ret_def)

lemma keeps_reads [simp, intro]: "keeps (reads f)"
  by (simp add: keeps_def reads_def refl)

lemma keeps_modify: "(\<And>s. R s (f s)) \<Longrightarrow> keeps (modify f)"
  by (simp add: keeps_def modify_def)

lemma keeps_bnd [intro]: "keeps m \<Longrightarrow> (\<And>x. keeps (f x)) \<Longrightarrow> keeps (bnd m f)"
  unfolding keeps_def bnd_def by (fastforce split: option.splits sum.splits intro: trans)

lemma keeps_bnd_reads: "(\<And>s r s'. f (g s) s = Some (r, s') \<Longrightarrow> R s s') \<Longrightarrow> keeps (bnd (reads g) f)"
  by (simp add: keeps_def bnd_def reads_def)

text \<open>Reading a pair and storing its second component.\<close>

lemma keeps_reads_modify:
  assumes "\<And>s. R s (u (snd (g s)) s)" and "\<And>x. keeps (h x)"
  shows "keeps (bnd (reads g) (\<lambda>(a, b). bnd (modify (u b)) (\<lambda>_. h a)))"
  using assms(2) unfolding keeps_def bnd_def reads_def modify_def
  by (fastforce split: prod.splits dest: arg_cong [of "g _" _ snd] intro: trans assms(1))

lemma keeps_catch [intro]: "keeps m \<Longrightarrow> (\<And>e. keeps (h e)) \<Longrightarrow> keeps (catch m h)"
  unfolding keeps_def catch_def by (fastforce split: option.splits sum.splits intro: trans)

lemma keeps_mmap [intro]: "(\<And>x. keeps (f x)) \<Longrightarrow> keeps (mmap f xs)"
  by (induction xs) auto

lemma keeps_if [intro]: "(c \<Longrightarrow> keeps m) \<Longrightarrow> (\<not> c \<Longrightarrow> keeps n) \<Longrightarrow> keeps (if c then m else n)"
  by simp

lemma keeps_option [intro]:
  "keeps m \<Longrightarrow> (\<And>x. y = Some x \<Longrightarrow> keeps (f x)) \<Longrightarrow> keeps (case y of None \<Rightarrow> m | Some x \<Rightarrow> f x)"
  by (cases y) auto

lemma keeps_prod [intro]: "(\<And>x y. keeps (f x y)) \<Longrightarrow> keeps (case p of (x, y) \<Rightarrow> f x y)"
  by (cases p) auto

end

text \<open>A run that leaves the state alone.\<close>

interpretation pure: state_relation "(=)"
  by unfold_locales auto

end
