(* ===== verification/Executable.thy ===== *)
theory Executable
  imports Planning ComplexOps Wire Run
begin

text \<open>
  Compiled executables (\<open>priv/worker/executable.py\<close>): constants, evaluation of a node list, the reduce
  folds, while loops with their captured step functions, captured segments, capture and replay.
  \<open>exe\<close> gathers what an executable is built from: the libraries, its device and blobs, and TinyJit.
  \<open>jit f n args vars\<close> stands for the \<open>n\<close>-th call of a \<open>TinyJit(f)\<close> object with those tensors and bound
  variables, whatever it replays. \<open>clone_nth\<close> is \<open>clone().realize()\<close> of a repeated input; it takes the
  number of clones made before, because each clone is a new object, and \<open>oid\<close> is \<open>id(tensor)\<close>.
  The evaluation is by fuel: \<open>None\<close> means that the fuel was not enough.
\<close>

type_synonym 't traced = "'t list \<Rightarrow> sint list \<Rightarrow> exn + 't list"

record ('t, 'h) exe =
  tg :: "'t tg"
  host :: "('t, 'h) host"
  jit :: "'t traced \<Rightarrow> nat \<Rightarrow> 't list \<Rightarrow> sint list \<Rightarrow> exn + 't list"
  clone_nth :: "nat \<Rightarrow> 't \<Rightarrow> exn + 't"
  oid :: "'t \<Rightarrow> nat"
  kernels :: nat
  xblobs :: "byte list list"
  xdevice :: string

subsection \<open>Constants\<close>

definition realize :: "'t tg \<Rightarrow> 't \<Rightarrow> exn + 't" where
  "realize T t = call T Realize [t]"

definition clone_realize :: "'t tg \<Rightarrow> 't \<Rightarrow> exn + 't" where
  "clone_realize T t = rbind (call T Clone [t]) (realize T)"

definition const_blob :: "('t, 'h) exe \<Rightarrow> py \<Rightarrow> exn + 't" where
  "const_blob E const =
     rbind (py_item const ''dtype'') (\<lambda>dtype.
     rbind (py_item const ''shape'') (\<lambda>shape.
     rbind (rbind (py_item const ''data_index'') to_int) (\<lambda>di.
     rbind (lget (xblobs E) di) (\<lambda>blob.
     rbind (load_array (host E) blob dtype shape) (\<lambda>arr.
     rbind (wire_tensor (tg E) (host E) arr dtype (xdevice E)) (realize (tg E)))))))"

text \<open>\<open>Tensor.full(shape or (1,), value, device, dtype)\<close>, back to rank 0 when \<open>shape\<close> is empty.\<close>

definition full_part :: "('t, 'h) exe \<Rightarrow> int list \<Rightarrow> py \<Rightarrow> tgdtype \<Rightarrow> exn + 't" where
  "full_part E shape v cdt =
     rbind (num_of v) (\<lambda>s. call (tg E) (Full (if shape = [] then [1] else shape) s cdt (xdevice E)) [])"

definition make_constant :: "('t, 'h) exe \<Rightarrow> py \<Rightarrow> exn + 't val" where
  "make_constant E const =
     rbind (rbind (py_item const ''shape'') to_ints) (\<lambda>shape.
     rbind (py_item const ''dtype'') (\<lambda>dtype.
     rbind (is_complex dtype) (\<lambda>cx.
     if cx then
       rbind (rbind (component_dtype dtype) (\<lambda>c. tinygrad_dtype (PStr c))) (\<lambda>cdt.
       if has_key const ''data_index'' then as_cx (const_blob E const)
       else
         rbind (py_item const ''value'') (\<lambda>value.
         rbind (rbind (py_item value ''re'') (\<lambda>v. full_part E shape v cdt)) (\<lambda>re.
         rbind (rbind (py_item value ''im'') (\<lambda>v. full_part E shape v cdt)) (\<lambda>im.
         rbind (if shape = [] then reshape (tg E) re [] else Inr re) (\<lambda>re'.
         rbind (if shape = [] then reshape (tg E) im [] else Inr im) (\<lambda>im'.
         as_cx (rbind (cxt (tg E) re' im') (realize (tg E)))))))))
     else if has_key const ''data_index'' then as_tn (const_blob E const)
     else
       rbind (rbind (py_item const ''value'') num_of) (\<lambda>v.
       rbind (tinygrad_dtype dtype) (\<lambda>d.
       as_tn (rbind (if shape = [] then call (tg E) (Const v d (xdevice E)) []
                     else call (tg E) (Full shape v d (xdevice E)) []) (realize (tg E))))))))"

definition const_env :: "('t, 'h) exe \<Rightarrow> py list \<Rightarrow> exn + (int \<rightharpoonup> 't val)" where
  "const_env E consts =
     rfold (\<lambda>m c. rbind (item_id c) (\<lambda>i. rbind (make_constant E c) (\<lambda>v. Inr (m(i \<mapsto> v))))) Map.empty consts"

subsection \<open>State\<close>

text \<open>
  What an executable changes when it runs, with the process's counters \<open>WHILE_STATS\<close>: its caches, how many
  repeated inputs it has cloned, and how often its captured graph function has been called, if it has one.
  A cached while step: interpretation, or the closure of a captured body, which is its plan, its
  constants, its loop-invariant positions, its arity and how often its TinyJit has been called.
\<close>

record 't while_closure =
  wc_plan :: while_plan
  wc_consts :: "int \<rightharpoonup> 't val"
  wc_invariant :: "nat list"
  wc_calls :: nat

datatype 't wstep = WInterpret | WJit "'t while_closure"

datatype sstep = SInterpret | SJit nat

record 't est =
  while_steps :: "nat list \<rightharpoonup> 't wstep"
  segment_steps :: "nat \<rightharpoonup> sstep"
  counters :: "string \<Rightarrow> nat"
  clones :: nat
  replays :: "nat option"

type_synonym ('t, 'a) xrun = "('t est, exn, 'a) run"

definition bump :: "string \<Rightarrow> ('t, unit) xrun" where
  "bump k = modify (\<lambda>s. s\<lparr>counters := (counters s)(k := Suc (counters s k))\<rparr>)"

definition set_while_step :: "nat list \<Rightarrow> 't wstep \<Rightarrow> ('t, unit) xrun" where
  "set_while_step key w = modify (\<lambda>s. s\<lparr>while_steps := (while_steps s)(key \<mapsto> w)\<rparr>)"

definition set_segment_step :: "nat \<Rightarrow> sstep \<Rightarrow> ('t, unit) xrun" where
  "set_segment_step idx w = modify (\<lambda>s. s\<lparr>segment_steps := (segment_steps s)(idx \<mapsto> w)\<rparr>)"

definition set_val :: "'t env \<Rightarrow> int \<Rightarrow> 't val \<Rightarrow> 't env" where
  "set_val env i v = env\<lparr>vals := (vals env)(i \<mapsto> v)\<rparr>"

text \<open>The evaluator that the definitions below call for the nodes of a sub-graph.\<close>

type_synonym 't evaluator = "occ list \<Rightarrow> 't env \<Rightarrow> ('t, 't env) xrun"

definition outcome :: "('t, 'a) xrun \<Rightarrow> 't est \<Rightarrow> exn + 'a" where
  "outcome m s = (case m s of None \<Rightarrow> Inl (PyErr ''RecursionError'' ''out of fuel'') | Some (r, _) \<Rightarrow> r)"

subsection \<open>Sub-graphs and folds\<close>

definition out_node :: "'t env \<Rightarrow> py \<Rightarrow> exn + 't val" where
  "out_node env o' = rbind (py_item o' ''node'') (lookup env)"

definition bind_input :: "'t val list \<Rightarrow> (int \<rightharpoonup> 't val) \<Rightarrow> py \<Rightarrow> exn + (int \<rightharpoonup> 't val)" where
  "bind_input params m inp =
     rbind (rbind (py_item inp ''index'') to_int) (\<lambda>j. rbind (lget params j) (\<lambda>v.
     rbind (item_id inp) (\<lambda>i. Inr (m(i \<mapsto> v)))))"

definition interpret_sub ::
    "'t evaluator \<Rightarrow> ('t, 'h) exe \<Rightarrow> nat list \<Rightarrow> py \<Rightarrow> 't val list \<Rightarrow> sint list \<Rightarrow> ('t, 't val list) xrun" where
  "interpret_sub ev E path sub params syms =
     bnd (lift (rbind (items_of sub ''constants'') (const_env E))) (\<lambda>m0.
     bnd (lift (rbind (items_of sub ''inputs'') (rfold (bind_input params) m0))) (\<lambda>m.
     bnd (lift (items_of sub ''nodes'')) (\<lambda>nodes.
     bnd (ev (label path nodes) \<lparr>vals = m, sym = syms\<rparr>) (\<lambda>env.
     lift (rbind (items_of sub ''outputs'') (rmap (out_node env)))))))"

text \<open>\<open>for i in range(count): acc = self._interpret(fn, [acc, flat[..., i]])[0]\<close>\<close>

definition fold_flat ::
    "'t evaluator \<Rightarrow> ('t, 'h) exe \<Rightarrow> nat list \<Rightarrow> py \<Rightarrow> 't \<Rightarrow> nat \<Rightarrow> 't val \<Rightarrow> ('t, 't val) xrun" where
  "fold_flat ev E path fn flat count acc0 =
     mfold (\<lambda>acc i.
       bnd (lift (call (tg E) (Index [Dots, At (int i)]) [flat])) (\<lambda>x.
       bnd (interpret_sub ev E path fn [acc, Tn x] []) (\<lambda>outs.
       lift (lget outs 0)))) acc0 [0..<count]"

definition expand_acc :: "'t tg \<Rightarrow> 't val \<Rightarrow> int list \<Rightarrow> exn + 't val" where
  "expand_acc T acc batch =
     rbind (as_tensor acc) (\<lambda>a.
     if shp T a = [] then rbind (reshape T a (ones (length batch))) (\<lambda>r. as_tn (expand T r batch))
     else Inr acc)"

definition run_reduce :: "'t evaluator \<Rightarrow> ('t, 'h) exe \<Rightarrow> occ \<Rightarrow> 't env \<Rightarrow> ('t, 't val) xrun" where
  "run_reduce ev E node env =
     (let T = tg E; n = snd node in
      bnd (lift (node_in n env 0)) (\<lambda>v.
      bnd (lift (node_in n env 1)) (\<lambda>acc.
      bnd (lift (attr_ints n ''axes'')) (\<lambda>axes.
      bnd (lift (attr n ''keep_axes'')) (\<lambda>keep.
      bnd (lift (attr n ''fn'')) (\<lambda>body.
      bnd (lift (as_tensor v)) (\<lambda>t.
      let rank = length (shp T t); non = non_axes rank axes in
      bnd (lift (shape_at (shp T t) non)) (\<lambda>batch.
      bnd (lift (rbind (shape_at (shp T t) axes) (\<lambda>ns. Inr (prod ns)))) (\<lambda>count.
      bnd (lift (rbind (permute T t (non @ axes)) (\<lambda>p. reshape T p (batch @ [count])))) (\<lambda>flat.
      bnd (lift (if batch = [] then Inr acc else expand_acc T acc batch)) (\<lambda>acc0.
      bnd (fold_flat ev E (fst node @ [0]) body flat (nat count) acc0) (\<lambda>r.
      if py_truth keep then
        lift (rbind (as_tensor r) (\<lambda>x. as_tn (reshape T x
          (map (\<lambda>a. if int a \<in> set axes then 1 else shp T t ! a) [0..<rank]))))
      else ret r))))))))))))"

definition run_window_reduce :: "'t evaluator \<Rightarrow> ('t, 'h) exe \<Rightarrow> occ \<Rightarrow> 't env \<Rightarrow> ('t, 't val) xrun" where
  "run_window_reduce ev E node env =
     (let T = tg E; n = snd node in
      bnd (lift (node_in n env 0)) (\<lambda>v.
      bnd (lift (node_in n env 1)) (\<lambda>acc.
      bnd (lift (as_tensor v)) (\<lambda>t.
      bnd (lift (rbind (attr n ''padding'') to_pairs)) (\<lambda>padding.
      bnd (lift (ensure (\<not> any_padding padding)
             (WorkerErr CompileErrorC ''window_reduce with padding is not supported'' []))) (\<lambda>_.
      bnd (lift (rbind (attr_ints n ''window'') (\<lambda>win. rbind (attr_ints n ''strides'') (\<lambda>st.
             rbind (attr_ints n ''window_dilations'') (\<lambda>dil. call T (Pool win st dil) [t]))))) (\<lambda>pooled.
      let rank = length (shp T t); out_dims = take rank (shp T pooled);
          count = prod (drop rank (shp T pooled)) in
      bnd (lift (reshape T pooled (out_dims @ [count]))) (\<lambda>flat.
      bnd (lift (expand_acc T acc out_dims)) (\<lambda>acc0.
      bnd (lift (attr n ''fn'')) (\<lambda>body.
      fold_flat ev E (fst node @ [0]) body flat (nat count) acc0))))))))))"

subsection \<open>While loops\<close>

text \<open>\<open>{inp["index"]: inp["id"]}\<close>, and the positions \<open>j\<close> whose output is loop variable \<open>j\<close> itself.\<close>

definition invariant_positions :: "py \<Rightarrow> exn + nat list" where
  "invariant_positions body =
     rbind (items_of body ''inputs'') (\<lambda>ins.
     rbind (rmap (\<lambda>inp. rbind (rbind (py_item inp ''index'') to_int) (\<lambda>j.
        rbind (item_id inp) (\<lambda>i. Inr (j, i)))) ins) (\<lambda>byindex.
     rbind (items_of body ''outputs'') (\<lambda>outs.
     rbind (rmap (\<lambda>o'. rbind (py_item o' ''node'') to_key) outs) (\<lambda>refs.
     Inr (filter (\<lambda>j. map_of (rev byindex) (int j) = Some (refs ! j)) [0..<length refs])))))"

definition make_while_step :: "('t, 'h) exe \<Rightarrow> py \<Rightarrow> exn + 't wstep" where
  "make_while_step E body =
     rbind (sub_requires_eager body) (\<lambda>e.
     if e then Inr WInterpret
     else
       rbind (symbolic_while_plan body) (\<lambda>p.
       rbind (invariant_positions body) (\<lambda>invs.
       rbind (const_env E (anc_consts p)) (\<lambda>cs.
       Inr (WJit \<lparr>wc_plan = p, wc_consts = cs, wc_invariant = invs, wc_calls = 0\<rparr>)))))"

fun step_kind :: "'t wstep \<Rightarrow> string" where
  "step_kind WInterpret = ''interpreted''"
| "step_kind (WJit c) = (if plan_uses (wc_plan c) = [] then ''jit'' else ''symbolic'')"

text \<open>The traced function: the rewritten body, without the invariant outputs, realized ones cloned.\<close>

definition fix_output :: "'t tg \<Rightarrow> 't val \<Rightarrow> exn + 't" where
  "fix_output T v = rbind (as_tensor v) (\<lambda>t. if realized T t then call T Clone [t] else Inr t)"

definition while_traced ::
    "'t evaluator \<Rightarrow> ('t, 'h) exe \<Rightarrow> nat list \<Rightarrow> 't while_closure \<Rightarrow> 't est \<Rightarrow> 't traced" where
  "while_traced ev E path c s args syms =
     rbind (outcome (interpret_sub ev E (path @ [1]) (sym_body (wc_plan c)) (map Tn args) syms) s) (\<lambda>outs.
     rmap (fix_output (tg E)) (map snd (filter (\<lambda>(j, _). j \<notin> set (wc_invariant c)) (enumerate 0 outs))))"

text \<open>The value of each start, clamped and bound.\<close>

definition bind_use :: "'t tg \<Rightarrow> 't env \<Rightarrow> var_use \<Rightarrow> exn + sint" where
  "bind_use T scratch u =
     (case vals scratch (use_id u) of None \<Rightarrow> Inl (key_error ''id'')
      | Some v \<Rightarrow> rbind (as_tensor v) (\<lambda>t. rbind (item T t) (\<lambda>x. rbind (py_int x) (\<lambda>raw.
          Inr (Var (use_name u) (use_hi u) (clamp raw (use_hi u)) 1 0)))))"

definition bind_uses ::
    "'t evaluator \<Rightarrow> ('t, 'h) exe \<Rightarrow> nat list \<Rightarrow> py \<Rightarrow> 't while_closure \<Rightarrow> 't list \<Rightarrow> ('t, sint list) xrun" where
  "bind_uses ev E path body c state =
     (if plan_uses (wc_plan c) = [] then ret []
      else
        bnd (lift (rbind (items_of body ''inputs'') (rfold (bind_input (map Tn state)) (wc_consts c)))) (\<lambda>m.
        bnd (ev (label (path @ [2]) (anc_nodes (wc_plan c))) \<lparr>vals = m, sym = []\<rparr>) (\<lambda>scratch.
        lift (rmap (bind_use (tg E) scratch) (plan_uses (wc_plan c))))))"

text \<open>The jit's tensor arguments: copies, except the first invariant variable on each buffer.\<close>

definition step_input ::
    "'t tg \<Rightarrow> nat list \<Rightarrow> nat set \<times> 't list \<Rightarrow> nat \<times> 't \<Rightarrow> exn + nat set \<times> 't list" where
  "step_input T invs st jt =
     (if fst jt \<in> set invs \<and> base_id T (snd jt) \<notin> fst st then
        Inr (insert (base_id T (snd jt)) (fst st), snd st @ [snd jt])
      else rbind (clone_realize T (snd jt)) (\<lambda>t. Inr (fst st, snd st @ [t])))"

text \<open>\<open>[state[j] if j in invariant else next(outs) for j in range(n_state)]\<close>\<close>

fun merge_outputs :: "nat list \<Rightarrow> nat \<Rightarrow> 't list \<Rightarrow> 't list \<Rightarrow> exn + 't list" where
  "merge_outputs invs j [] outs = Inr []"
| "merge_outputs invs j (t # ts) outs =
     (if j \<in> set invs then rbind (merge_outputs invs (Suc j) ts outs) (\<lambda>r. Inr (t # r))
      else (case outs of
          [] \<Rightarrow> Inl (PyErr ''StopIteration'' '''')
        | x # xs \<Rightarrow> rbind (merge_outputs invs (Suc j) ts xs) (\<lambda>r. Inr (x # r))))"

definition jit_step ::
    "'t evaluator \<Rightarrow> ('t, 'h) exe \<Rightarrow> nat list \<Rightarrow> py \<Rightarrow> 't while_closure \<Rightarrow> 't list \<Rightarrow> ('t, 't list) xrun" where
  "jit_step ev E path body c state =
     bnd (bind_uses ev E path body c state) (\<lambda>bound.
     bnd (lift (rfold (step_input (tg E) (wc_invariant c)) ({}, []) (enumerate 0 state))) (\<lambda>(_, inputs).
     bnd (set_while_step path (WJit (c\<lparr>wc_calls := Suc (wc_calls c)\<rparr>))) (\<lambda>_.
     bnd (reads (\<lambda>s. jit E (while_traced ev E path c s) (wc_calls c) inputs bound)) (\<lambda>r.
     bnd (lift r) (\<lambda>outs.
     lift (merge_outputs (wc_invariant c) 0 state outs))))))"

definition interpret_step ::
    "'t evaluator \<Rightarrow> ('t, 'h) exe \<Rightarrow> nat list \<Rightarrow> py \<Rightarrow> 't list \<Rightarrow> ('t, 't list) xrun" where
  "interpret_step ev E path body state =
     bnd (interpret_sub ev E (path @ [1]) body (map Tn state) []) (\<lambda>outs. lift (rmap as_tensor outs))"

text \<open>One iteration's step: the captured one, with interpretation from the same state when it fails.\<close>

definition while_step ::
    "'t evaluator \<Rightarrow> ('t, 'h) exe \<Rightarrow> nat list \<Rightarrow> py \<Rightarrow> 't wstep \<Rightarrow> 't list \<Rightarrow> ('t, 't wstep \<times> 't list) xrun" where
  "while_step ev E path body w state =
     (case w of
        WInterpret \<Rightarrow> bnd (interpret_step ev E path body state) (\<lambda>s'. ret (WInterpret, s'))
      | WJit c \<Rightarrow>
          catch (bnd (jit_step ev E path body c state) (\<lambda>s'. ret (WJit (c\<lparr>wc_calls := Suc (wc_calls c)\<rparr>), s')))
            (\<lambda>_. bnd (bump ''while_jit_fallbacks'') (\<lambda>_.
                 bnd (set_while_step path WInterpret) (\<lambda>_.
                 bnd (interpret_step ev E path body state) (\<lambda>s'. ret (WInterpret, s'))))))"

definition read_cond ::
    "'t evaluator \<Rightarrow> ('t, 'h) exe \<Rightarrow> nat list \<Rightarrow> py \<Rightarrow> 't list \<Rightarrow> ('t, bool) xrun" where
  "read_cond ev E path cond state =
     bnd (interpret_sub ev E (path @ [0]) cond (map Tn state) []) (\<lambda>outs.
     lift (rbind (lget outs 0) (\<lambda>v. rbind (as_tensor v) (\<lambda>t. rbind (item (tg E) t) (\<lambda>x. Inr (py_truth x))))))"

fun while_loop ::
    "nat \<Rightarrow> 't evaluator \<Rightarrow> ('t, 'h) exe \<Rightarrow> nat list \<Rightarrow> py \<Rightarrow> py \<Rightarrow> 't wstep \<Rightarrow> 't list \<Rightarrow> ('t, 't list) xrun" where
  "while_loop 0 ev E path cond body w state = diverge"
| "while_loop (Suc k) ev E path cond body w state =
     bnd (read_cond ev E path cond state) (\<lambda>go.
     if \<not> go then ret state
     else
       bnd (while_step ev E path body w state) (\<lambda>(w', new_state).
       bnd (bump (''while_steps_'' @ step_kind w')) (\<lambda>_.
       bnd (lift (rmap (realize (tg E)) new_state)) (\<lambda>state'.
       while_loop k ev E path cond body w' state'))))"

definition loop_var :: "'t tg \<Rightarrow> 't env \<Rightarrow> py \<Rightarrow> exn + 't" where
  "loop_var T env ref =
     rbind (lookup env ref) (\<lambda>v. rbind (as_tensor v) (\<lambda>t0. rbind (realize T t0) (\<lambda>t.
     if realized T t then Inr t else clone_realize T t)))"

definition run_while :: "nat \<Rightarrow> 't evaluator \<Rightarrow> ('t, 'h) exe \<Rightarrow> occ \<Rightarrow> 't env \<Rightarrow> ('t, 't list) xrun" where
  "run_while k ev E node env =
     bnd (lift (rbind (node_inputs (snd node)) (rmap (loop_var (tg E) env)))) (\<lambda>state.
     bnd (lift (attr (snd node) ''cond'')) (\<lambda>cond.
     bnd (lift (attr (snd node) ''body'')) (\<lambda>body.
     bnd (reads (\<lambda>s. while_steps s (fst node))) (\<lambda>cached.
     bnd (case cached of
            Some w \<Rightarrow> ret w
          | None \<Rightarrow> bnd (lift (make_while_step E body)) (\<lambda>w.
              bnd (set_while_step (fst node) w) (\<lambda>_. ret w))) (\<lambda>w.
     while_loop k ev E (fst node) cond body w state)))))"

subsection \<open>Nodes\<close>

definition eval_node :: "nat \<Rightarrow> 't evaluator \<Rightarrow> ('t, 'h) exe \<Rightarrow> 't env \<Rightarrow> occ \<Rightarrow> ('t, 't env) xrun" where
  "eval_node k ev E env node =
     bnd (lift (node_op (snd node))) (\<lambda>op.
     if op = PStr ''while'' then
       bnd (lift (items_of (snd node) ''outputs'')) (\<lambda>outs.
       bnd (run_while k ev E node env) (\<lambda>results.
       lift (rfold (\<lambda>e (out, r). rbind (item_id out) (\<lambda>i. Inr (set_val e i (Tn r)))) env (zip outs results))))
     else
       bnd (if op = PStr ''reduce'' then run_reduce ev E node env
            else if op = PStr ''window_reduce'' then run_window_reduce ev E node env
            else lift (apply_node (tg E) (snd node) env)) (\<lambda>v.
       lift (rbind (item_id (snd node)) (\<lambda>i. Inr (set_val env i v)))))"

fun eval_nodes :: "nat \<Rightarrow> ('t, 'h) exe \<Rightarrow> 't evaluator" where
  "eval_nodes 0 E nodes env = diverge"
| "eval_nodes (Suc k) E nodes env = mfold (eval_node k (eval_nodes k E) E) env nodes"

end
