(* ===== verification/Capture.thy ===== *)
theory Capture
  imports Executable
begin

text \<open>
  The executable object (\<open>Executable\<close> of \<open>priv/worker/executable.py\<close>): evaluation by segments, the graph
  function, capture with its validation replay, the de-duplication of inputs and \<open>run\<close>.
\<close>

record 't executable =
  x_id :: int
  x_graph :: py
  x_blobs :: "byte list list"
  x_constants :: "int \<rightharpoonup> 't val"
  x_const_ids :: "int set"
  x_eager :: bool
  x_segments :: "segment list option"
  x_dtypes :: "(int \<times> py) list"
  x_jit :: "nat option"
  x_clones :: nat
  x_kernels :: nat
  x_while :: "nat list \<rightharpoonup> 't wstep"
  x_segsteps :: "nat \<rightharpoonup> sstep"

subsection \<open>Segments\<close>

definition id_dtype :: "'t executable \<Rightarrow> int \<Rightarrow> exn + py" where
  "id_dtype X i = (case map_of (x_dtypes X) i of None \<Rightarrow> Inl (key_error ''id'') | Some d \<Rightarrow> Inr d)"

definition wrap :: "py \<Rightarrow> 't \<Rightarrow> exn + 't val" where
  "wrap dtype t = rbind (is_complex dtype) (\<lambda>c. Inr (if c then Cx t else Tn t))"

fun unwrap :: "'t val \<Rightarrow> 't" where
  "unwrap (Tn t) = t"
| "unwrap (Cx t) = t"

definition env_of :: "(int \<rightharpoonup> 't val) \<Rightarrow> 't env" where
  "env_of m = \<lparr>vals = m, sym = []\<rparr>"

definition get_val :: "'t env \<Rightarrow> int \<Rightarrow> exn + 't val" where
  "get_val env i = (case vals env i of None \<Rightarrow> Inl (key_error ''id'') | Some v \<Rightarrow> Inr v)"

text \<open>\<open>for ref, dtype, tensor in zip(refs, dtypes, args): env[ref] = Cx(tensor) if is_complex(dtype) else tensor\<close>\<close>

definition bind_args :: "int list \<Rightarrow> py list \<Rightarrow> 't list \<Rightarrow> 't env \<Rightarrow> exn + 't env" where
  "bind_args refs dtypes args env0 =
     rfold (\<lambda>env (i, d, t). rbind (wrap d t) (\<lambda>v. Inr (set_val env i v))) env0 (zip refs (zip dtypes args))"

definition segment_output :: "'t tg \<Rightarrow> 't env \<Rightarrow> int \<Rightarrow> exn + 't" where
  "segment_output T env i = rbind (get_val env i) (\<lambda>v.
     if realized T (unwrap v) then call T Clone [unwrap v] else Inr (unwrap v))"

definition segment_traced ::
    "'t evaluator \<Rightarrow> ('t, 'h) exe \<Rightarrow> 't executable \<Rightarrow> occ list \<Rightarrow> int list \<Rightarrow> py list \<Rightarrow> int list \<Rightarrow> 't est \<Rightarrow> 't traced" where
  "segment_traced ev E X nodes ins in_dtypes outs s args _ =
     rbind (bind_args ins in_dtypes args (env_of (x_constants X))) (\<lambda>env0.
     rbind (outcome (ev nodes env0) s) (\<lambda>env.
     rmap (segment_output (tg E) env) outs))"

text \<open>A jit argument: a real buffer, materialised when it is a view, copied when its buffer repeats.\<close>

definition own_buffer :: "'t tg \<Rightarrow> 't \<Rightarrow> exn + 't" where
  "own_buffer T t =
     (if \<not> realized T t then clone_realize T t
      else rbind (call T Contiguous [t]) (\<lambda>c. if same_uop T c t then Inr t else realize T c))"

definition segment_arg :: "'t tg \<Rightarrow> nat set \<times> 't list \<Rightarrow> 't val \<Rightarrow> exn + nat set \<times> 't list" where
  "segment_arg T st v =
     rbind (own_buffer T (unwrap v)) (\<lambda>t.
     if base_id T t \<in> fst st then rbind (clone_realize T t) (\<lambda>c. Inr (fst st, snd st @ [c]))
     else Inr (insert (base_id T t) (fst st), snd st @ [t]))"

definition segment_call ::
    "'t evaluator \<Rightarrow> ('t, 'h) exe \<Rightarrow> 't executable \<Rightarrow> nat \<Rightarrow> nat \<Rightarrow> occ list \<Rightarrow> int list \<Rightarrow> py list \<Rightarrow> int list \<Rightarrow>
     py list \<Rightarrow> 't env \<Rightarrow> ('t, 't val list) xrun" where
  "segment_call ev E X idx n nodes ins in_dtypes outs out_dtypes env =
     bnd (lift (rmap (get_val env) ins)) (\<lambda>values.
     bnd (lift (rfold (segment_arg (tg E)) ({}, []) values)) (\<lambda>(_, args).
     bnd (set_segment_step idx (SJit (Suc n))) (\<lambda>_.
     bnd (reads (\<lambda>s. jit E (segment_traced ev E X nodes ins in_dtypes outs s) n args [])) (\<lambda>r.
     bnd (lift r) (\<lambda>res.
     lift (rmap (\<lambda>(t, d). wrap d t) (zip res out_dtypes)))))))"

definition store_results :: "int list \<Rightarrow> 't val list \<Rightarrow> 't env \<Rightarrow> 't env" where
  "store_results outs results env = foldl (\<lambda>e (i, v). set_val e i v) env (zip outs results)"

definition eval_jit_segment ::
    "'t evaluator \<Rightarrow> ('t, 'h) exe \<Rightarrow> 't executable \<Rightarrow> nat \<Rightarrow> occ list \<Rightarrow> int list \<Rightarrow> int list \<Rightarrow> 't env \<Rightarrow> ('t, 't env) xrun" where
  "eval_jit_segment ev E X idx nodes ins outs env =
     (if outs = [] then ret env
      else
        bnd (reads (\<lambda>s. segment_steps s idx)) (\<lambda>cached.
        bnd (case cached of
               Some w \<Rightarrow> ret w
             | None \<Rightarrow> bnd (lift (rbind (rmap (id_dtype X) ins) (\<lambda>_. rmap (id_dtype X) outs))) (\<lambda>_.
                 bnd (set_segment_step idx (SJit 0)) (\<lambda>_. ret (SJit 0)))) (\<lambda>w.
        case w of
          SInterpret \<Rightarrow> bnd (bump ''graph_segments_interpreted'') (\<lambda>_. ev nodes env)
        | SJit n \<Rightarrow>
            bnd (lift (rmap (id_dtype X) ins)) (\<lambda>in_dtypes.
            bnd (lift (rmap (id_dtype X) outs)) (\<lambda>out_dtypes.
            catch (bnd (segment_call ev E X idx n nodes ins in_dtypes outs out_dtypes env) (\<lambda>results.
                   bnd (bump ''graph_segments_jit'') (\<lambda>_. ret (store_results outs results env))))
              (\<lambda>_. bnd (bump ''graph_segment_fallbacks'') (\<lambda>_.
                   bnd (set_segment_step idx SInterpret) (\<lambda>_. ev nodes env))))))))"

definition eval_segment ::
    "'t evaluator \<Rightarrow> ('t, 'h) exe \<Rightarrow> 't executable \<Rightarrow> 't env \<Rightarrow> nat \<times> segment \<Rightarrow> ('t, 't env) xrun" where
  "eval_segment ev E X env isg =
     (case snd isg of
        Eager node \<Rightarrow> ev [node] env
      | Jit nodes ins outs \<Rightarrow> eval_jit_segment ev E X (fst isg) nodes ins outs env)"

definition eval_segments ::
    "'t evaluator \<Rightarrow> ('t, 'h) exe \<Rightarrow> 't executable \<Rightarrow> segment list \<Rightarrow> 't env \<Rightarrow> ('t, 't env) xrun" where
  "eval_segments ev E X segs env = mfold (eval_segment ev E X) env (enumerate 0 segs)"

subsection \<open>The graph function\<close>

definition input_specs :: "'t executable \<Rightarrow> py list" where
  "input_specs X = list_of (field (x_graph X) ''inputs'')"

definition output_specs :: "'t executable \<Rightarrow> py list" where
  "output_specs X = list_of (field (x_graph X) ''outputs'')"

definition bind_spec :: "'t env \<Rightarrow> py \<times> 't \<Rightarrow> exn + 't env" where
  "bind_spec env st =
     rbind (py_item (fst st) ''dtype'') (\<lambda>d. rbind (wrap d (snd st)) (\<lambda>v.
     rbind (item_id (fst st)) (\<lambda>i. Inr (set_val env i v))))"

definition graph_output :: "'t tg \<Rightarrow> 't env \<Rightarrow> py \<Rightarrow> exn + 't" where
  "graph_output T env out =
     rbind (out_node env out) (\<lambda>v.
     rbind (call T Contiguous [unwrap v]) (\<lambda>c.
     if same_uop T c (unwrap v) then call T Clone [unwrap v] else Inr c))"

definition graph_nodes_occ :: "'t executable \<Rightarrow> occ list" where
  "graph_nodes_occ X = label [] (list_of (field (x_graph X) ''nodes''))"

definition graph_fn :: "'t evaluator \<Rightarrow> ('t, 'h) exe \<Rightarrow> 't executable \<Rightarrow> 't list \<Rightarrow> ('t, 't list) xrun" where
  "graph_fn ev E X inputs =
     bnd (lift (rfold bind_spec (env_of (x_constants X)) (zip (input_specs X) inputs))) (\<lambda>env0.
     bnd (case (x_eager X, x_segments X) of
            (True, Some segs) \<Rightarrow> eval_segments ev E X segs env0
          | _ \<Rightarrow> ev (graph_nodes_occ X) env0) (\<lambda>env.
     lift (rbind (rmap (graph_output (tg E) env) (output_specs X)) (rmap (realize (tg E))))))"

definition graph_traced :: "'t evaluator \<Rightarrow> ('t, 'h) exe \<Rightarrow> 't executable \<Rightarrow> 't est \<Rightarrow> 't traced" where
  "graph_traced ev E X s args _ = outcome (graph_fn ev E X args) s"

subsection \<open>Capture\<close>

definition expected_shape :: "py \<Rightarrow> exn + int list" where
  "expected_shape spec =
     rbind (rbind (py_item spec ''dtype'') is_complex) (\<lambda>c. rbind (node_shape spec) (\<lambda>s.
     Inr (if c then s @ [2] else s)))"

definition compile_error :: "string \<Rightarrow> exn" where
  "compile_error msg = WorkerErr CompileErrorC msg []"

definition dummy :: "('t, 'h) exe \<Rightarrow> int \<Rightarrow> py \<Rightarrow> exn + 't" where
  "dummy E seed spec =
     rbind (node_shape spec) (\<lambda>shape.
     rbind (py_item spec ''dtype'') (\<lambda>dtype.
     rbind (is_complex dtype) (\<lambda>cx.
     if cx then
       rbind (rbind (component_dtype dtype) (\<lambda>c. numpy_dtype (PStr c))) (\<lambda>cdt.
       rbind (np (host E) (NArange (prod shape * 2) cdt) []) (\<lambda>a0.
       rbind (np (host E) (NAddInt seed) [a0]) (\<lambda>a1.
       rbind (np (host E) (NReshape (shape @ [2])) [a1]) (\<lambda>arr.
       rbind (to_tensor (host E) arr (xdevice E)) (clone_realize (tg E))))))
     else
       rbind (numpy_dtype dtype) (\<lambda>d.
       rbind (np (host E) (NArange (prod shape) d) []) (\<lambda>a0.
       rbind (np (host E) (NAddInt seed) [a0]) (\<lambda>a1.
       rbind (np (host E) (NReshape shape) [a1]) (\<lambda>arr.
       rbind (wire_tensor (tg E) (host E) arr dtype (xdevice E)) (clone_realize (tg E)))))))))"

definition host_value :: "('t, 'h) exe \<Rightarrow> 't \<times> py \<Rightarrow> exn + 'h" where
  "host_value E os =
     rbind (py_item (snd os) ''dtype'') (\<lambda>d.
     rbind (wire_numpy (tg E) (host E) (fst os) d) (\<lambda>a. np (host E) (NContiguous None) [a]))"

fun np_floating :: "npdtype \<Rightarrow> bool" where
  "np_floating Float16 = True"
| "np_floating Float32 = True"
| "np_floating Float64 = True"
| "np_floating _ = False"

definition validate_replay :: "('t, 'h) exe \<Rightarrow> py list \<Rightarrow> 'h list \<Rightarrow> 't list \<Rightarrow> exn + unit" where
  "validate_replay E specs reference replayed =
     riter (\<lambda>(expected, tensor, spec).
       rbind (host_value E (tensor, spec)) (\<lambda>actual.
       rbind (rbind (py_item spec ''dtype'') numpy_dtype) (\<lambda>d.
       rbind (ensure (np_dtype (host E) actual = d) (compile_error ''captured output {index} dtype {actual.dtype} != {expected_dtype}'')) (\<lambda>_.
       ensure (array_equal (host E) actual expected (np_floating (np_dtype (host E) actual)))
         (compile_error ''TinyJit replay mismatch for output {index}'')))))
     (zip reference (zip replayed specs))"

definition check_outputs :: "('t, 'h) exe \<Rightarrow> py list \<Rightarrow> 't list \<Rightarrow> exn + unit" where
  "check_outputs E specs outs =
     rbind (ensure (length outs = length specs) (compile_error ''captured {len(outs)} outputs, expected {len(self.output_specs)}'')) (\<lambda>_.
     riter (\<lambda>(t, spec). rbind (expected_shape spec) (\<lambda>s.
       ensure (shp (tg E) t = s) (compile_error ''captured output shape {list(out.shape)} != {_expected_shape(spec)}'')))
       (zip outs specs))"

text \<open>The calls of the captured graph function are numbered; the first two trace and capture.\<close>

definition jit_call :: "'t evaluator \<Rightarrow> ('t, 'h) exe \<Rightarrow> 't executable \<Rightarrow> nat \<Rightarrow> 't list \<Rightarrow> ('t, 't list) xrun" where
  "jit_call ev E X n args = bnd (reads (\<lambda>s. jit E (graph_traced ev E X s) n args [])) lift"

definition capture :: "'t evaluator \<Rightarrow> ('t, 'h) exe \<Rightarrow> bool \<Rightarrow> 't executable \<Rightarrow> ('t, 't executable) xrun" where
  "capture ev E check X =
     (if input_specs X = [] \<or> x_eager X then ret X
      else
        bnd (lift (rmap (dummy E 1) (input_specs X))) (\<lambda>d1.
        bnd (jit_call ev E X 0 d1) (\<lambda>_.
        bnd (lift (rmap (dummy E 2) (input_specs X))) (\<lambda>d2.
        bnd (jit_call ev E X 1 d2) (\<lambda>outs2.
        bnd (if check then
               bnd (lift (rmap (dummy E 3) (input_specs X))) (\<lambda>d3.
               bnd (graph_fn ev E X d3) (\<lambda>expected.
               bnd (lift (rmap (\<lambda>os. rbind (host_value E os) (\<lambda>a. np (host E) NCopy [a]))
                     (zip expected (output_specs X)))) (\<lambda>reference.
               bnd (jit_call ev E X 2 d3) (\<lambda>outs3. ret (reference, outs3)))))
             else ret ([], outs2)) (\<lambda>(reference, outs).
        bnd (lift (check_outputs E (output_specs X) outs)) (\<lambda>_.
        bnd (lift (if check then validate_replay E (output_specs X) reference outs else Inr ())) (\<lambda>_.
        bnd (modify (\<lambda>s. s\<lparr>replays := Some (if check then 3 else 2)\<rparr>)) (\<lambda>_.
        ret (X\<lparr>x_kernels := kernels E\<rparr>))))))))))"

definition new_executable :: "'t evaluator \<Rightarrow> ('t, 'h) exe \<Rightarrow> int \<Rightarrow> py \<Rightarrow> bool \<Rightarrow> ('t, 't executable) xrun" where
  "new_executable ev E exec_id graph check =
     bnd (lift (items_of graph ''constants'')) (\<lambda>consts.
     bnd (lift (const_env E consts)) (\<lambda>cs.
     bnd (lift (rmap item_id consts)) (\<lambda>cids.
     bnd (lift (items_of graph ''nodes'')) (\<lambda>nodes.
     bnd (lift (rany requires_eager nodes)) (\<lambda>eager.
     bnd (lift (if eager then id_dtypes graph else Inr [])) (\<lambda>dts.
     bnd (lift (if eager then
                  rbind (items_of graph ''outputs'') (\<lambda>outs.
                  rbind (rmap (\<lambda>o'. rbind (py_item o' ''node'') to_key) outs) (\<lambda>outrefs.
                  plan_segments (set cids) (set outrefs) (label [] nodes)))
                else Inr None)) (\<lambda>segs.
     capture ev E check
       \<lparr>x_id = exec_id, x_graph = graph, x_blobs = xblobs E, x_constants = cs, x_const_ids = set cids, x_eager = eager,
        x_segments = segs, x_dtypes = dts, x_jit = None, x_clones = 0, x_kernels = 0,
        x_while = Map.empty, x_segsteps = Map.empty\<rparr>)))))))"

subsection \<open>run\<close>

text \<open>\<open>_dedup\<close>: a tensor object that occurs again is replaced by a clone; the clones are counted.\<close>

definition dedup_step :: "('t, 'h) exe \<Rightarrow> nat set \<times> 't list \<Rightarrow> 't \<Rightarrow> ('t, nat set \<times> 't list) xrun" where
  "dedup_step E st t0 =
     (case st of (seen, result) \<Rightarrow>
        bnd (lift (realize (tg E) t0)) (\<lambda>t.
        if oid E t \<in> seen then
          bnd (reads clones) (\<lambda>n.
          bnd (lift (clone_nth E n t)) (\<lambda>c.
          bnd (modify (\<lambda>s. s\<lparr>clones := Suc (clones s)\<rparr>)) (\<lambda>_. ret (seen, result @ [c]))))
        else ret (insert (oid E t) seen, result @ [t])))"

definition dedup :: "('t, 'h) exe \<Rightarrow> 't list \<Rightarrow> ('t, 't list) xrun" where
  "dedup E inputs = bnd (mfold (dedup_step E) ({}, []) inputs) (\<lambda>(_, r). ret r)"

definition run_exec :: "'t evaluator \<Rightarrow> ('t, 'h) exe \<Rightarrow> 't executable \<Rightarrow> 't list \<Rightarrow> ('t, 't list) xrun" where
  "run_exec ev E X inputs =
     bnd (reads replays) (\<lambda>r. case r of
        None \<Rightarrow> graph_fn ev E X inputs
      | Some n \<Rightarrow>
          bnd (dedup E inputs) (\<lambda>args.
          bnd (modify (\<lambda>s. s\<lparr>replays := Some (Suc n)\<rparr>)) (\<lambda>_.
          jit_call ev E X n args)))"

subsection \<open>compile\<close>

definition compile_graph ::
    "'t evaluator \<Rightarrow> ('t, 'h) exe \<Rightarrow> int \<Rightarrow> py \<Rightarrow> bool \<Rightarrow> ('t, 't executable) xrun" where
  "compile_graph ev E exec_id graph validate_capture =
     bnd (lift (validate graph (xblobs E) MAX_NODES)) (\<lambda>_. new_executable ev E exec_id graph validate_capture)"

end
