(* ===== verification/Runs.thy ===== *)
theory Runs
  imports Capture
begin

text \<open>
  How evaluations run: \<open>run\<close> hands the captured function pairwise distinct tensor objects, an evaluation
  without while loops always ends, and a while loop ends exactly when its condition fails after finitely many
  iterations.
\<close>

subsection \<open>Repeated inputs\<close>

text \<open>
  What \<open>_dedup\<close> relies on of tinygrad: \<open>realize\<close> returns the object it is called on, and a clone is a new
  object, whose identity differs from that of every object around and of every other clone, with the same contents.
\<close>

definition clone_laws :: "('t, 'h) exe \<Rightarrow> nat set \<Rightarrow> ('t \<Rightarrow> 'v) \<Rightarrow> bool" where
  "clone_laws E objects content =
     ((\<forall>t r. realize (tg E) t = Inr r \<longrightarrow> oid E r = oid E t \<and> content r = content t) \<and>
      (\<forall>n t c. clone_nth E n t = Inr c \<longrightarrow> oid E c \<notin> objects \<and> content c = content t) \<and>
      (\<forall>m n t u c d. clone_nth E m t = Inr c \<longrightarrow> clone_nth E n u = Inr d \<longrightarrow> m \<noteq> n \<longrightarrow> oid E c \<noteq> oid E d))"

text \<open>The state of the loop: what was seen, the arguments so far; in the executable's state only the clone counter moves.\<close>

definition dedup_inv ::
    "('t, 'h) exe \<Rightarrow> ('t \<Rightarrow> 'v) \<Rightarrow> 't est \<Rightarrow> 't list \<Rightarrow> nat set \<times> 't list \<Rightarrow> 't est \<Rightarrow> bool" where
  "dedup_inv E content s0 before st s = (case st of (seen, result) \<Rightarrow>
     seen = oid E ` set before \<and> map content result = map content before \<and>
     distinct (map (oid E) result) \<and>
     s = s0\<lparr>clones := clones s\<rparr> \<and> clones s0 \<le> clones s \<and> clones s + card seen = clones s0 + length before \<and>
     (\<forall>t \<in> set result. oid E t \<in> seen \<or> (\<exists>k u. clones s0 \<le> k \<and> k < clones s \<and> clone_nth E k u = Inr t)) \<and>
     (\<forall>i < length before. oid E (before ! i) \<notin> oid E ` set (take i before) \<longrightarrow> oid E (result ! i) = oid E (before ! i)))"

lemma dedup_step_inv:
  assumes laws: "clone_laws E objects content" and inv: "dedup_inv E content s0 before st s"
    and step: "dedup_step E st t s = Some (Inr st', s')" and objs: "oid E ` set before \<subseteq> objects" "oid E t \<in> objects"
  shows "dedup_inv E content s0 (before @ [t]) st' s'"
proof -
  obtain seen result where st: "st = (seen, result)" by (cases st)
  from step st obtain r where r: "realize (tg E) t = Inr r" by (auto simp: dedup_step_def runs dest: sym)
  with laws have ro: "oid E r = oid E t" "content r = content t" by (auto simp: clone_laws_def)
  from inv st have I: "seen = oid E ` set before" "map content result = map content before"
    "distinct (map (oid E) result)" "clones s0 \<le> clones s" "clones s + card seen = clones s0 + length before"
    "\<And>u. u \<in> set result \<Longrightarrow> oid E u \<in> seen \<or> (\<exists>k v. clones s0 \<le> k \<and> k < clones s \<and> clone_nth E k v = Inr u)"
    "\<And>i. i < length before \<Longrightarrow> oid E (before ! i) \<notin> oid E ` set (take i before) \<Longrightarrow> oid E (result ! i) = oid E (before ! i)"
    and s: "s = s0\<lparr>clones := clones s\<rparr>"
    unfolding dedup_inv_def by blast+
  have len: "length result = length before" using I(2) by (metis length_map)
  show ?thesis
  proof (cases "oid E t \<in> seen")
    case True
    with step st r ro obtain c where c: "clone_nth E (clones s) r = Inr c" "st' = (seen, result @ [c])"
      and s': "s' = s\<lparr>clones := Suc (clones s)\<rparr>"
      by (auto simp: dedup_step_def runs dest: sym)
    with laws ro have co: "oid E c \<notin> objects" "content c = content t" unfolding clone_laws_def by auto
    have "oid E c \<noteq> oid E u" if "u \<in> set result" for u
    proof -
      from I(6) [OF that] consider "oid E u \<in> seen" | k v where "k < clones s" "clone_nth E k v = Inr u" by blast
      then show ?thesis
      proof cases
        case 1
        with I(1) objs co show ?thesis by auto
      next
        case 2
        with laws c(1) show ?thesis unfolding clone_laws_def by (metis less_irrefl)
      qed
    qed
    moreover have "oid E u \<in> seen \<or> (\<exists>k v. clones s0 \<le> k \<and> k < Suc (clones s) \<and> clone_nth E k v = Inr u)"
      if "u \<in> set (result @ [c])" for u
      using that I(4,6) c(1) by (auto intro: less_SucI)
    moreover have "s' = s0\<lparr>clones := Suc (clones s)\<rparr>" using s s' by (metis est.fold_congs(4) est.surjective est.update_convs(4))
    ultimately show ?thesis using True c co I(1-5,7) len
      by (auto simp: dedup_inv_def nth_append less_Suc_eq insert_absorb)
  next
    case False
    with step st r ro have st': "st' = (insert (oid E t) seen, result @ [r])" and s': "s' = s"
      by (auto simp: dedup_step_def runs)
    have "oid E u \<noteq> oid E t" if "u \<in> set result" for u
    proof -
      from I(6) [OF that] consider "oid E u \<in> seen" | k v where "clone_nth E k v = Inr u" by blast
      then show ?thesis
      proof cases
        case 2
        with laws have "oid E u \<notin> objects" unfolding clone_laws_def by blast
        with objs(2) show ?thesis by auto
      qed (use False in auto)
    qed
    then have new: "oid E t \<notin> oid E ` set result" by (auto simp: image_iff) metis
    have kept: "oid E ((result @ [r]) ! i) = oid E ((before @ [t]) ! i)"
      if "i < length (before @ [t])" "oid E ((before @ [t]) ! i) \<notin> oid E ` set (take i (before @ [t]))" for i
      using that I(7) [of i] ro(1) len by (cases "i = length before") (auto simp: nth_append)
    have origin: "\<forall>u \<in> set (result @ [r]). oid E u \<in> insert (oid E t) seen \<or>
        (\<exists>k v. clones s0 \<le> k \<and> k < clones s \<and> clone_nth E k v = Inr u)"
      using I(6) ro(1) by auto
    have "finite seen" using I(1) by simp
    with False I(5) have "clones s + card (insert (oid E t) seen) = clones s0 + length (before @ [t])" by simp
    with new st' s' s ro I(1-4) kept origin show ?thesis by (simp add: dedup_inv_def image_iff)
  qed
qed

lemma dedup_loop_inv:
  assumes "clone_laws E objects content" and "dedup_inv E content s0 before st s"
    and "mfold (dedup_step E) st inputs s = Some (Inr st', s')" and "oid E ` set (before @ inputs) \<subseteq> objects"
  shows "dedup_inv E content s0 (before @ inputs) st' s'"
  using assms(2-4)
proof (induction inputs arbitrary: before st s)
  case (Cons t inputs)
  then obtain st1 s1 where st1: "dedup_step E st t s = Some (Inr st1, s1)"
      "mfold (dedup_step E) st1 inputs s1 = Some (Inr st', s')"
    by (auto simp: runs)
  from dedup_step_inv [OF assms(1) Cons.prems(1) st1(1)] Cons.prems(3)
  have "dedup_inv E content s0 (before @ [t]) st1 s1" by auto
  from Cons.IH [OF this st1(2)] Cons.prems(3) show ?case by simp
qed (simp add: runs)

text \<open>
  C24. \<open>_dedup\<close> gives the captured function pairwise distinct tensor objects with the contents of the inputs, one
  for each, and copies no more than it must: an input object that has not occurred before is passed as it is, and of the
  executable's state only the clone counter changes, by the number of repeated inputs.
\<close>

theorem dedup_distinct:
  assumes "clone_laws E (oid E ` set inputs) content" and "dedup E inputs s = Some (Inr args, s')"
  shows "distinct (map (oid E) args) \<and> map content args = map content inputs \<and>
     s' = s\<lparr>clones := clones s + (length inputs - card (oid E ` set inputs))\<rparr> \<and>
     (\<forall>i < length inputs. oid E (inputs ! i) \<notin> oid E ` set (take i inputs) \<longrightarrow> oid E (args ! i) = oid E (inputs ! i))"
proof -
  from assms(2) obtain seen where loop: "mfold (dedup_step E) ({}, []) inputs s = Some (Inr (seen, args), s')"
    by (auto simp: dedup_def runs split: prod.splits)
  have "dedup_inv E content s [] ({}, []) s" by (simp add: dedup_inv_def)
  from dedup_loop_inv [OF assms(1) this loop] have inv: "dedup_inv E content s inputs (seen, args) s'" by simp
  have "card (oid E ` set inputs) \<le> length inputs"
    by (metis card_image_le card_length finite_set le_trans)
  with inv have "clones s' = clones s + (length inputs - card (oid E ` set inputs))" by (auto simp: dedup_inv_def)
  with inv show ?thesis by (auto simp: dedup_inv_def)
qed

text \<open>Objects as pairs of an identity and a content; the clone number \<open>n\<close> is the object \<open>100 + n\<close>.\<close>

definition object_exe :: "(nat \<times> nat, unit) exe" where
  "object_exe = \<lparr>tg = \<lparr>call = (\<lambda>c ts. Inr (hd ts)), shp = (\<lambda>_. []), dt = (\<lambda>_. TgInt32), item = (\<lambda>_. Inr PNone),
       realized = (\<lambda>_. True), base_id = fst, same_uop = (=)\<rparr>,
     host = \<lparr>np = (\<lambda>_ _. Inr ()), frombuffer = (\<lambda>_ _. Inr ()), np_shape = (\<lambda>_. []), np_dtype = (\<lambda>_. Int32),
       tobytes = (\<lambda>_. []), array_equal = (\<lambda>_ _ _. True), to_tensor = (\<lambda>_ _. Inr (0, 0)), to_numpy = (\<lambda>_. Inr ())\<rparr>,
     jit = (\<lambda>f n args vars. f args vars), clone_nth = (\<lambda>n t. Inr (100 + n, snd t)), oid = fst, kernels = 0,
     xblobs = [], xdevice = ''CPU''\<rparr>"

definition demo_est :: "'t est" where
  "demo_est = \<lparr>while_steps = Map.empty, segment_steps = Map.empty, counters = (\<lambda>_. 0), clones = 0, replays = None\<rparr>"

theorem dedup_distinct_witness:
  "distinct (map (oid object_exe) [(1, 5), (2, 6), (100, 5), (101, 5)]) \<and>
   dedup object_exe [(1, 5), (2, 6), (1, 5), (1, 5)] demo_est =
     Some (Inr [(1, 5), (2, 6), (100, 5), (101, 5)], demo_est\<lparr>clones := 2\<rparr>)"
proof -
  let ?inputs = "[(1, 5), (2, 6), (1, 5), (1, 5)] :: (nat \<times> nat) list"
  have laws: "clone_laws object_exe (oid object_exe ` set ?inputs) snd"
    by (simp add: clone_laws_def object_exe_def realize_def)
  have run: "dedup object_exe ?inputs demo_est = Some (Inr [(1, 5), (2, 6), (100, 5), (101, 5)], demo_est\<lparr>clones := 2\<rparr>)"
    by (simp add: dedup_def dedup_step_def object_exe_def realize_def demo_est_def bnd_def ret_def lift_def reads_def modify_def)
  from dedup_distinct [OF laws run] run show ?thesis by blast
qed

subsection \<open>Evaluations without while loops end\<close>

text \<open>No dictionary in the value is a while node.\<close>

fun no_while :: "py \<Rightarrow> bool" where
  "no_while (PList xs) = list_all no_while xs"
| "no_while (PDict kvs) = (map_of kvs ''op'' \<noteq> Some (PStr ''while'') \<and> list_all (\<lambda>kv. no_while (snd kv)) kvs)"
| "no_while _ = True"

lemma no_while_item: "py_item v k = Inr x \<Longrightarrow> no_while v \<Longrightarrow> no_while x"
  by (cases v) (fastforce simp: py_item_def list_all_iff split: option.splits dest: map_of_SomeD)+

lemma to_list_Inr: "to_list v = Inr xs \<longleftrightarrow> v = PList xs"
  by (cases v) (auto simp: to_list_def)

lemma items_of_Inr: "items_of v k = Inr xs \<longleftrightarrow> py_item v k = Inr (PList xs)"
  by (auto simp: items_of_def rbind_eq_Inr to_list_Inr)

lemma no_while_items: "items_of v k = Inr xs \<Longrightarrow> no_while v \<Longrightarrow> x \<in> set xs \<Longrightarrow> no_while x"
  using no_while_item [of v k "PList xs"] by (simp add: items_of_Inr list_all_iff)

lemma size_items: "items_of v k = Inr xs \<Longrightarrow> x \<in> set xs \<Longrightarrow> size x < size v"
  using size_py_item [of v k "PList xs"] size_list_of [of x "PList xs"] by (simp add: items_of_Inr)

lemma no_while_op: "no_while v \<Longrightarrow> node_op v \<noteq> Inr (PStr ''while'')"
  by (cases v) (auto simp: node_op_def py_item_def split: option.splits)

lemma attr_below:
  assumes "attr v k = Inr x"
  shows "size x < size v" "no_while v \<Longrightarrow> no_while x"
proof -
  from assms obtain a where a: "py_item v ''attrs'' = Inr a" "py_item a k = Inr x" by (auto simp: attr_def rbind_eq_Inr)
  then show "size x < size v" by (meson less_trans size_py_item)
  show "no_while x" if "no_while v" using a that by (blast intro: no_while_item)
qed

definition ends :: "('s, 'e, 'a) run \<Rightarrow> bool" where
  "ends m = (\<forall>s. m s \<noteq> None)"

lemma ends_lift [simp]: "ends (lift m)" "ends (ret x)" "ends (reads f)" "ends (modify g)"
  by (simp_all add: ends_def lift_def ret_def reads_def modify_def)

lemma ends_bnd: "ends m \<Longrightarrow> (\<And>x. ends (f x)) \<Longrightarrow> ends (bnd m f)"
  by (fastforce simp: ends_def bnd_def split: option.splits sum.splits)

lemma ends_bnd_lift: "(\<And>x. m = Inr x \<Longrightarrow> ends (f x)) \<Longrightarrow> ends (bnd (lift m) f)"
  by (auto simp: ends_def bnd_def lift_def split: sum.splits)

lemma ends_mfold: "(\<And>c x. x \<in> set xs \<Longrightarrow> ends (f c x)) \<Longrightarrow> ends (mfold f c xs)"
  by (induction xs arbitrary: c) (auto intro: ends_bnd)

lemma ends_if: "(c \<Longrightarrow> ends m) \<Longrightarrow> (\<not> c \<Longrightarrow> ends n) \<Longrightarrow> ends (if c then m else n)"
  by simp

lemmas ends_intros = ends_lift ends_bnd_lift ends_bnd ends_if ends_mfold

definition all_below :: "nat \<Rightarrow> occ list \<Rightarrow> bool" where
  "all_below k os = (\<forall>o' \<in> set os. no_while (snd o') \<and> size (snd o') < k)"

lemma label_below: "\<forall>n \<in> set nodes. no_while n \<and> size n < k \<Longrightarrow> all_below k (label path nodes)"
  by (auto simp: all_below_def label_def in_set_enumerate_eq)

lemma ends_sub:
  assumes "\<And>os env. all_below k os \<Longrightarrow> ends (ev os env)" and "no_while sub" "size sub \<le> k"
  shows "ends (interpret_sub ev E path sub params syms)"
  unfolding interpret_sub_def
proof (intro ends_intros)
  fix nodes m assume "items_of sub ''nodes'' = Inr nodes"
  with assms(2,3) show "ends (ev (label path nodes) \<lparr>vals = m, sym = syms\<rparr>)"
    by (intro assms(1) label_below) (auto dest: no_while_items size_items)
qed

lemma ends_fold:
  assumes "\<And>os env. all_below k os \<Longrightarrow> ends (ev os env)" and "no_while fn" "size fn \<le> k"
  shows "ends (fold_flat ev E path fn flat count acc)"
  unfolding fold_flat_def by (intro ends_intros ends_sub [OF assms(1) assms(2,3)])

lemma ends_node:
  assumes ev: "\<And>os env. all_below k os \<Longrightarrow> ends (ev os env)" and "no_while (snd node)" "size (snd node) \<le> k"
  shows "ends (eval_node j ev E env node)"
proof -
  have fold: "ends (fold_flat ev E path fn flat count acc)" if "attr (snd node) ''fn'' = Inr fn" for path fn flat count acc
    using attr_below [OF that] assms(2,3) by (intro ends_fold [OF ev]) auto
  have "ends (run_reduce ev E node env)" "ends (run_window_reduce ev E node env)"
    unfolding run_reduce_def run_window_reduce_def Let_def by (intro ends_intros fold; assumption)+
  then show ?thesis unfolding eval_node_def using no_while_op [OF assms(2)] by (intro ends_intros) auto
qed

lemma ends_nodes: "all_below k os \<Longrightarrow> ends (eval_nodes (Suc k) E os env)"
proof (induction k arbitrary: os env)
  case 0
  then show ?case by (cases os) (auto simp: all_below_def)
next
  case (Suc k)
  show ?case unfolding eval_nodes.simps(2) [of "Suc k"]
  proof (intro ends_mfold)
    fix c x assume "x \<in> set os"
    with Suc.prems have x: "no_while (snd x)" "size (snd x) \<le> k" by (auto simp: all_below_def)
    show "ends (eval_node (Suc k) (eval_nodes (Suc k) E) E c x)"
      by (rule ends_node [OF Suc.IH x])
  qed
qed

lemma ends_catch: "ends m \<Longrightarrow> (\<And>e. ends (h e)) \<Longrightarrow> ends (catch m h)"
  by (fastforce simp: ends_def catch_def split: option.splits sum.splits)

lemma ends_jit_call: "ends (jit_call ev E X n args)"
  by (simp add: jit_call_def ends_bnd)

definition segments_below :: "nat \<Rightarrow> 't executable \<Rightarrow> bool" where
  "segments_below k X = (all_below k (graph_nodes_occ X) \<and>
     (\<forall>segs. x_segments X = Some segs \<longrightarrow> (\<forall>seg \<in> set segs. all_below k (segment_nodes seg))))"

lemma ends_segment:
  assumes ev: "\<And>os env. all_below k os \<Longrightarrow> ends (ev os env)" and "all_below k (segment_nodes (snd seg))"
  shows "ends (eval_segment ev E X env seg)"
proof (cases "snd seg")
  case (Eager n)
  with assms show ?thesis by (simp add: eval_segment_def)
next
  case (Jit nodes ins outs)
  with assms(2) have nodes: "ends (ev nodes env)" by (intro ev) simp
  have call: "ends (segment_call ev E X idx n nodes ins d outs d' env)" for idx n d d'
    by (simp add: segment_call_def set_segment_step_def case_prod_unfold ends_bnd)
  have bump: "ends (bump k)" for k by (simp add: bump_def)
  have set: "ends (set_segment_step i w)" for i w by (simp add: set_segment_step_def)
  show ?thesis unfolding eval_segment_def Jit segment.case eval_jit_segment_def
    by (intro ends_if ends_bnd ends_catch ends_lift nodes call bump set)
      (auto split: option.split sstep.split intro!: ends_bnd ends_catch nodes call bump set)
qed

lemma ends_graph_fn:
  assumes ev: "\<And>os env. all_below k os \<Longrightarrow> ends (ev os env)" and "segments_below k X"
  shows "ends (graph_fn ev E X inputs)"
proof -
  have "ends (ev (graph_nodes_occ X) env)" for env using assms by (simp add: segments_below_def)
  moreover have "ends (eval_segments ev E X segs env)" if "x_segments X = Some segs" for segs env
    unfolding eval_segments_def using that assms(2)
    by (intro ends_mfold ends_segment [OF ev]) (auto simp: segments_below_def in_set_enumerate_eq)
  ultimately show ?thesis unfolding graph_fn_def
    by (intro ends_bnd ends_lift) (auto split: bool.split option.split)
qed

lemma ends_capture:
  assumes ev: "\<And>os env. all_below k os \<Longrightarrow> ends (ev os env)" and "segments_below k X"
  shows "ends (capture ev E check X)"
  unfolding capture_def case_prod_unfold
  by (intro ends_if ends_bnd ends_lift ends_jit_call ends_graph_fn [OF assms])

lemma segments_below_new:
  assumes "no_while graph" "size graph \<le> k" and "items_of graph ''nodes'' = Inr nodes" and "x_graph X = graph"
    and "x_segments X = None \<or> plan_segments C outs (label [] nodes) = Inr (x_segments X)"
  shows "segments_below k X"
proof -
  have below: "all_below k (label [] nodes)"
    using assms(1-3) by (intro label_below) (auto dest: no_while_items size_items)
  moreover have "list_of (field (x_graph X) ''nodes'') = nodes"
    using assms(3,4) by (auto simp: items_of_Inr py_item_eq_Inr dest!: sym [of "PList _"])
  moreover have "all_below k (segment_nodes seg)" if "x_segments X = Some segs" "seg \<in> set segs" for segs seg
  proof -
    from that(1) assms(5) have "plan_segments C outs (label [] nodes) = Inr (Some segs)" by simp
    then obtain plan where P: "planned C outs (label [] nodes) segs plan" by (rule plan_segments_planned)
    have "set (label [] nodes) = (\<Union>seg \<in> set segs. set (segment_nodes seg))"
      using planned_nodes [OF P, symmetric] by simp
    with below that(2) show ?thesis by (auto simp: all_below_def)
  qed
  ultimately show ?thesis by (auto simp: segments_below_def graph_nodes_occ_def)
qed

lemma capture_parts:
  "capture ev E check X s = Some (Inr X', s') \<Longrightarrow> x_graph X' = x_graph X \<and> x_segments X' = x_segments X"
  by (auto simp: capture_def runs split: if_splits prod.splits)

lemma ends_compile:
  assumes ev: "\<And>os env. all_below k os \<Longrightarrow> ends (ev os env)" and graph: "no_while graph" "size graph \<le> k"
  shows "ends (compile_graph ev E i graph check)"
  unfolding compile_graph_def new_executable_def
proof (intro ends_bnd_lift ends_capture [OF ev])
  fix cs cids nodes eager dts segs
  assume nodes: "items_of graph ''nodes'' = Inr nodes"
    and segs: "(if eager then rbind (items_of graph ''outputs'') (\<lambda>outs. rbind (rmap (\<lambda>o'. rbind (py_item o' ''node'') to_key) outs)
        (\<lambda>outrefs. plan_segments (set cids) (set outrefs) (label [] nodes))) else Inr None) = Inr segs"
  let ?X = "\<lparr>x_id = i, x_graph = graph, x_blobs = xblobs E, x_constants = cs, x_const_ids = set cids, x_eager = eager,
        x_segments = segs, x_dtypes = dts, x_jit = None, x_clones = 0, x_kernels = 0,
        x_while = Map.empty, x_segsteps = Map.empty\<rparr>"
  from segs obtain outs where "segs = None \<or> plan_segments (set cids) outs (label [] nodes) = Inr segs"
    by (auto simp: rbind_eq_Inr split: if_splits)
  with nodes graph show "segments_below k ?X" by (intro segments_below_new) auto
qed

lemma compiled_below:
  assumes "compile_graph ev E i graph check s = Some (Inr X, s')" and "no_while graph" "size graph \<le> k"
  shows "segments_below k X"
proof -
  from assms(1) obtain nodes C outs where nodes: "items_of graph ''nodes'' = Inr nodes"
    and X: "x_graph X = graph" "x_segments X = None \<or> plan_segments C outs (label [] nodes) = Inr (x_segments X)"
    by (auto simp: compile_graph_def new_executable_def runs rbind_eq_Inr dest!: sym [of "Inr _"] capture_parts split: if_splits) blast+
  with assms(2,3) show ?thesis by (intro segments_below_new)
qed

lemma ends_run_exec:
  assumes ev: "\<And>os env. all_below k os \<Longrightarrow> ends (ev os env)" and "segments_below k X"
  shows "ends (run_exec ev E X inputs)"
proof -
  have "ends (dedup E inputs)" unfolding dedup_def dedup_step_def case_prod_unfold
    by (intro ends_bnd ends_mfold ends_if ends_lift)
  then show ?thesis unfolding run_exec_def
    by (auto split: option.split intro!: ends_bnd ends_jit_call ends_graph_fn [OF assms])
qed



subsection \<open>While loops\<close>

text \<open>
  One iteration, as the loop means it: the condition holds, the body's step gives new loop variables (by a captured
  step or by interpretation), the step is counted and the variables are realized.
\<close>

inductive iteration ::
    "'t evaluator \<Rightarrow> ('t, 'h) exe \<Rightarrow> nat list \<Rightarrow> py \<Rightarrow> py \<Rightarrow>
     't wstep \<times> 't list \<times> 't est \<Rightarrow> 't wstep \<times> 't list \<times> 't est \<Rightarrow> bool"
  for ev E path cond body where
  iterate: "read_cond ev E path cond state s = Some (Inr True, s1) \<Longrightarrow>
     while_step ev E path body w state s1 = Some (Inr (w', new), s2) \<Longrightarrow>
     bump (''while_steps_'' @ step_kind w') s2 = Some (Inr (), s3) \<Longrightarrow>
     rmap (realize (tg E)) new = Inr state' \<Longrightarrow>
     iteration ev E path cond body (w, state, s) (w', state', s3)"

inductive_cases iterationE: "iteration ev E path cond body c c'"

lemma while_loop_iterate:
  assumes "iteration ev E path cond body (w, state, s) (w', state', s')"
  shows "while_loop (Suc k) ev E path cond body w state s = while_loop k ev E path cond body w' state' s'"
  using assms by (elim iterationE) (simp add: bnd_Some lift_def bnd_def)

lemma while_loop_stop:
  "read_cond ev E path cond state s = Some (Inr False, s') \<Longrightarrow>
     while_loop (Suc k) ev E path cond body w state s = Some (Inr state, s')"
  by (simp add: bnd_def ret_def lift_def)

lemma while_loop_more:
  "while_loop k ev E path cond body w state s = Some r \<Longrightarrow> while_loop (k + n) ev E path cond body w state s = Some r"
proof (induction k arbitrary: w state s)
  case (Suc k)
  then show ?case by (auto simp: bnd_def lift_def split: option.splits sum.splits if_splits prod.splits)
qed (simp add: diverge_def)

lemma while_loop_Inr:
  assumes "while_loop (Suc k) ev E path cond body w state s = Some (Inr out, s')"
  shows "(out = state \<and> read_cond ev E path cond state s = Some (Inr False, s')) \<or>
    (\<exists>w' state' s1. iteration ev E path cond body (w, state, s) (w', state', s1) \<and>
       while_loop k ev E path cond body w' state' s1 = Some (Inr out, s'))"
proof -
  from assms obtain go s1 where c: "read_cond ev E path cond state s = Some (Inr go, s1)"
    and rest: "(if \<not> go then ret state else bnd (while_step ev E path body w state) (\<lambda>(w', new_state).
       bnd (bump (''while_steps_'' @ step_kind w')) (\<lambda>_.
       bnd (lift (rmap (realize (tg E)) new_state)) (\<lambda>state'. while_loop k ev E path cond body w' state')))) s1 =
       Some (Inr out, s')"
    by (auto simp: runs)
  show ?thesis
  proof (cases go)
    case False
    with c rest show ?thesis by (simp add: ret_def lift_def)
  next
    case True
    with rest obtain w' new s2 s3 state' where "while_step ev E path body w state s1 = Some (Inr (w', new), s2)"
      "bump (''while_steps_'' @ step_kind w') s2 = Some (Inr (), s3)" "rmap (realize (tg E)) new = Inr state'"
      "while_loop k ev E path cond body w' state' s3 = Some (Inr out, s')"
      by (auto simp: runs split: prod.splits dest!: sym [of "Inr _"])
    with c [unfolded True [THEN eqTrueI]] show ?thesis by (blast intro: iterate)
  qed
qed


text \<open>A condition that reads loop variable 0, which is false in \<open>object_exe\<close>.\<close>

definition demo_cond :: py where
  "demo_cond = PDict [(''constants'', PList []), (''inputs'', PList [PDict [(''index'', PInt 0), (''id'', PInt 4)]]),
     (''nodes'', PList []), (''outputs'', PList [PDict [(''node'', PInt 4)]])]"


end
