(* ===== verification/Registry.thy ===== *)
theory Registry
  imports PyVal
begin

text \<open>
  The registries of resident objects: \<open>TensorRegistry\<close> (\<open>priv/worker/registry.py\<close>) and
  \<open>ExecutableRegistry\<close> (\<open>priv/worker/executable.py\<close>). A dictionary keyed by id is an association
  list in insertion order. Ids that requests carry are Python values: a lookup finds the key they
  are equal to, and an unhashable one raises \<open>TypeError\<close>, also in the middle of a \<open>release\<close>, which
  keeps what it removed before. The locale \<open>id_registry\<close> states what the worker relies on, that a
  released id never comes back, and both registries interpret it.
\<close>

subsection \<open>Dictionaries keyed by id\<close>

type_synonym 'v idmap = "(int \<times> 'v) list"

fun idmap_put :: "'v idmap \<Rightarrow> int \<Rightarrow> 'v \<Rightarrow> 'v idmap" where
  "idmap_put [] k v = [(k, v)]"
| "idmap_put ((k', w) # m) k v = (if k' = k then (k, v) # m else (k', w) # idmap_put m k v)"

definition idmap_pop :: "'v idmap \<Rightarrow> int \<Rightarrow> 'v idmap" where
  "idmap_pop m k = filter (\<lambda>(k', _). k' \<noteq> k) m"

definition idmap_ok :: "'v idmap \<Rightarrow> bool" where
  "idmap_ok m = distinct (map fst m)"

lemma map_of_idmap_put [simp]: "map_of (idmap_put m k v) = (map_of m)(k \<mapsto> v)"
  by (induction m k v rule: idmap_put.induct) auto

lemma map_of_idmap_pop [simp]: "map_of (idmap_pop m k) = (map_of m)(k := None)"
proof
  show "map_of (idmap_pop m k) x = ((map_of m)(k := None)) x" for x
    by (induction m) (auto simp: idmap_pop_def)
qed

lemma fst_idmap_put: "set (map fst (idmap_put m k v)) = insert k (set (map fst m))"
  by (induction m k v rule: idmap_put.induct) auto

lemma idmap_put_ok: "idmap_ok m \<Longrightarrow> idmap_ok (idmap_put m k v)"
  unfolding idmap_ok_def
  by (induction m k v rule: idmap_put.induct) (auto simp: fst_idmap_put [simplified])

lemma idmap_pop_ok: "idmap_ok m \<Longrightarrow> idmap_ok (idmap_pop m k)"
  by (simp add: idmap_ok_def idmap_pop_def distinct_map_filter)

lemma idmap_put_new: "k \<notin> fst ` set m \<Longrightarrow> idmap_put m k v = m @ [(k, v)]"
  by (induction m k v rule: idmap_put.induct) auto

lemma map_of_None_fst: "map_of m k = None \<longleftrightarrow> k \<notin> fst ` set m"
  by (simp add: map_of_eq_None_iff)

lemma idmap_pop_absent: "map_of m k = None \<Longrightarrow> idmap_pop m k = m"
  by (force simp: idmap_pop_def map_of_eq_None_iff intro!: filter_True)

lemma length_idmap_pop:
  "idmap_ok m \<Longrightarrow> map_of m k \<noteq> None \<Longrightarrow> Suc (length (idmap_pop m k)) = length m"
  unfolding idmap_ok_def
proof (induction m)
  case (Cons kv m)
  show ?case
  proof (cases "fst kv = k")
    case True
    with Cons.prems(1) have "map_of m k = None" by (auto simp: map_of_eq_None_iff)
    from idmap_pop_absent [OF this] True show ?thesis by (simp add: idmap_pop_def case_prod_unfold)
  next
    case False
    with Cons show ?thesis by (auto simp: idmap_pop_def case_prod_unfold split: if_splits)
  qed
qed simp

text \<open>Iterating over a Python value.\<close>

definition py_iter :: "py \<Rightarrow> exn + py list" where
  "py_iter v = (case v of
     PList xs \<Rightarrow> Inr xs
   | PStr s \<Rightarrow> Inr (map (\<lambda>c. PStr [c]) s)
   | PDict kvs \<Rightarrow> Inr (map (PStr \<circ> fst) kvs)
   | _ \<Rightarrow> Inl (type_error ''object is not iterable''))"

subsection \<open>Resident buffers\<close>

record 't buffer =
  b_id :: int
  b_tensor :: 't
  b_shape :: "py list"
  b_dtype :: string
  b_nbytes :: int

record 't tensor_registry =
  buffers :: "'t buffer idmap"
  next_id :: int

definition registry_init :: "'t tensor_registry" where
  "registry_init = \<lparr>buffers = [], next_id = 1\<rparr>"

definition allocate_id :: "'t tensor_registry \<Rightarrow> int \<times> 't tensor_registry" where
  "allocate_id r = (next_id r, r\<lparr>next_id := next_id r + 1\<rparr>)"

definition store_buffer :: "'t tensor_registry \<Rightarrow> int \<Rightarrow> 't buffer \<Rightarrow> 't tensor_registry" where
  "store_buffer r i b = r\<lparr>buffers := idmap_put (buffers r) i b\<rparr>"

definition put :: "'t tensor_registry \<Rightarrow> 't \<Rightarrow> py list \<Rightarrow> string \<Rightarrow> int \<Rightarrow> int option
    \<Rightarrow> int \<times> 't tensor_registry" where
  "put r t shape dt nbytes buffer_id =
     (case (case buffer_id of None \<Rightarrow> allocate_id r | Some i \<Rightarrow> (i, r)) of
        (i, r') \<Rightarrow> (i, store_buffer r' i
          \<lparr>b_id = i, b_tensor = t, b_shape = shape, b_dtype = dt, b_nbytes = nbytes\<rparr>))"

definition get :: "'t tensor_registry \<Rightarrow> py \<Rightarrow> exn + 't buffer" where
  "get r i =
     (if \<not> hashable i then Inl (type_error ''unhashable type'')
      else case Option.bind (int_key i) (map_of (buffers r)) of
        None \<Rightarrow> Inl (WorkerErr StaleReferenceC ''buffer {buffer_id} is not resident in this worker generation''
          [(''buffer_id'', i)])
      | Some b \<Rightarrow> Inr b)"

definition drop_buffer :: "'t tensor_registry \<Rightarrow> int \<Rightarrow> 't tensor_registry" where
  "drop_buffer r k = r\<lparr>buffers := idmap_pop (buffers r) k\<rparr>"

fun release_loop :: "'t tensor_registry \<Rightarrow> int \<Rightarrow> py list \<Rightarrow> (exn + int) \<times> 't tensor_registry" where
  "release_loop r removed [] = (Inr removed, r)"
| "release_loop r removed (i # ids) =
     (if \<not> hashable i then (Inl (type_error ''unhashable type''), r)
      else case int_key i of
        None \<Rightarrow> release_loop r removed ids
      | Some k \<Rightarrow>
          if map_of (buffers r) k = None then release_loop r removed ids
          else release_loop (drop_buffer r k) (removed + 1) ids)"

definition release :: "'t tensor_registry \<Rightarrow> py \<Rightarrow> (exn + int) \<times> 't tensor_registry" where
  "release r ids = (case py_iter ids of Inl e \<Rightarrow> (Inl e, r) | Inr xs \<Rightarrow> release_loop r 0 xs)"

definition count :: "'t tensor_registry \<Rightarrow> nat" where
  "count r = length (buffers r)"

definition total_bytes :: "'t tensor_registry \<Rightarrow> int" where
  "total_bytes r = sum_list (map (b_nbytes \<circ> snd) (buffers r))"

definition clear :: "'t tensor_registry \<Rightarrow> 't tensor_registry" where
  "clear r = r\<lparr>buffers := []\<rparr>"

subsection \<open>Compiled executables\<close>

text \<open>The entries are any values here; \<open>Executable\<close> supplies them.\<close>

record 'x exec_registry =
  executables :: "'x idmap"
  exec_next_id :: int

definition exec_registry_init :: "'x exec_registry" where
  "exec_registry_init = \<lparr>executables = [], exec_next_id = 1\<rparr>"

definition exec_allocate_id :: "'x exec_registry \<Rightarrow> int \<times> 'x exec_registry" where
  "exec_allocate_id r = (exec_next_id r, r\<lparr>exec_next_id := exec_next_id r + 1\<rparr>)"

definition exec_put :: "'x exec_registry \<Rightarrow> int \<Rightarrow> 'x \<Rightarrow> 'x exec_registry" where
  "exec_put r i x = r\<lparr>executables := idmap_put (executables r) i x\<rparr>"

definition exec_get :: "'x exec_registry \<Rightarrow> py \<Rightarrow> exn + 'x" where
  "exec_get r i =
     (if \<not> hashable i then Inl (type_error ''unhashable type'')
      else case Option.bind (int_key i) (map_of (executables r)) of
        None \<Rightarrow> Inl (WorkerErr StaleReferenceC ''executable {exec_id} not found'' [(''executable_id'', i)])
      | Some x \<Rightarrow> Inr x)"

definition exec_count :: "'x exec_registry \<Rightarrow> nat" where
  "exec_count r = length (executables r)"

definition exec_drop :: "'x exec_registry \<Rightarrow> int \<Rightarrow> 'x exec_registry" where
  "exec_drop r k = r\<lparr>executables := idmap_pop (executables r) k\<rparr>"

fun exec_release_loop :: "'x exec_registry \<Rightarrow> int \<Rightarrow> py list \<Rightarrow> (exn + int) \<times> 'x exec_registry" where
  "exec_release_loop r removed [] = (Inr removed, r)"
| "exec_release_loop r removed (i # ids) =
     (if \<not> hashable i then (Inl (type_error ''unhashable type''), r)
      else case int_key i of
        None \<Rightarrow> exec_release_loop r removed ids
      | Some k \<Rightarrow>
          if map_of (executables r) k = None then exec_release_loop r removed ids
          else exec_release_loop (exec_drop r k) (removed + 1) ids)"

definition exec_release :: "'x exec_registry \<Rightarrow> py \<Rightarrow> (exn + int) \<times> 'x exec_registry" where
  "exec_release r ids = (case py_iter ids of Inl e \<Rightarrow> (Inl e, r) | Inr xs \<Rightarrow> exec_release_loop r 0 xs)"

subsection \<open>The interface: ids are fresh and never come back\<close>

locale id_registry =
  fixes lookup :: "'r \<Rightarrow> int \<Rightarrow> 'v option"
    and upcoming :: "'r \<Rightarrow> int"
    and alloc :: "'r \<Rightarrow> int \<times> 'r"
    and store :: "'r \<Rightarrow> int \<Rightarrow> 'v \<Rightarrow> 'r"
    and discard :: "'r \<Rightarrow> int \<Rightarrow> 'r"
  assumes alloc_id: "fst (alloc r) = upcoming r"
    and alloc_upcoming: "upcoming (snd (alloc r)) = upcoming r + 1"
    and alloc_lookup: "lookup (snd (alloc r)) = lookup r"
    and store_upcoming: "upcoming (store r i v) = upcoming r"
    and store_lookup: "lookup (store r i v) = (lookup r)(i \<mapsto> v)"
    and discard_upcoming: "upcoming (discard r i) = upcoming r"
    and discard_lookup: "lookup (discard r i) = (lookup r)(i := None)"
begin

inductive reg_step :: "'r \<Rightarrow> 'r \<Rightarrow> bool" where
  add: "reg_step r (store (snd (alloc r)) (fst (alloc r)) v)"
| burn: "reg_step r (snd (alloc r))"
| remove: "reg_step r (discard r i)"
| update: "lookup r i = Some v \<Longrightarrow> reg_step r (store r i v')"

inductive_cases reg_stepE: "reg_step r r'"

definition in_range :: "'r \<Rightarrow> bool" where
  "in_range r = (\<forall>i v. lookup r i = Some v \<longrightarrow> i < upcoming r)"

lemma reg_step_range: "reg_step r r' \<Longrightarrow> in_range r \<Longrightarrow> in_range r'"
  by (elim reg_stepE)
    (fastforce simp: in_range_def alloc_id alloc_upcoming alloc_lookup store_upcoming store_lookup
      discard_upcoming discard_lookup split: if_splits)+

lemma reg_step_upcoming: "reg_step r r' \<Longrightarrow> upcoming r \<le> upcoming r'"
  by (elim reg_stepE) (simp_all add: alloc_upcoming store_upcoming discard_upcoming)

lemma reg_step_stale: "reg_step r r' \<Longrightarrow> i < upcoming r \<Longrightarrow> lookup r i = None \<Longrightarrow> lookup r' i = None"
  by (elim reg_stepE) (auto simp: alloc_id alloc_lookup store_lookup discard_lookup)

lemma reg_steps_range: "reg_step\<^sup>*\<^sup>* r r' \<Longrightarrow> in_range r \<Longrightarrow> in_range r'"
  by (induction rule: rtranclp_induct) (auto intro: reg_step_range)

lemma reg_steps_upcoming: "reg_step\<^sup>*\<^sup>* r r' \<Longrightarrow> upcoming r \<le> upcoming r'"
  by (induction rule: rtranclp_induct) (auto dest: reg_step_upcoming)

lemma reg_steps_stale:
  "reg_step\<^sup>*\<^sup>* r r' \<Longrightarrow> i < upcoming r \<Longrightarrow> lookup r i = None \<Longrightarrow> lookup r' i = None"
proof (induction rule: rtranclp_induct)
  case (step s t)
  then have "i < upcoming s" using reg_steps_upcoming [OF step.hyps(1)] by simp
  with step show ?case by (auto intro: reg_step_stale)
qed

lemma alloc_fresh: "in_range r \<Longrightarrow> lookup r (fst (alloc r)) = None"
  by (metis alloc_id in_range_def not_None_eq order_less_irrefl)

end

interpretation tensors: id_registry "\<lambda>r. map_of (buffers r)" next_id allocate_id store_buffer drop_buffer
  by unfold_locales (simp_all add: allocate_id_def store_buffer_def drop_buffer_def)

interpretation execs: id_registry "\<lambda>r. map_of (executables r)" exec_next_id exec_allocate_id exec_put exec_drop
  by unfold_locales (simp_all add: exec_allocate_id_def exec_put_def exec_drop_def)

subsection \<open>What the operations do\<close>

definition registry_ok :: "'t tensor_registry \<Rightarrow> bool" where
  "registry_ok r =
     (idmap_ok (buffers r) \<and> (\<forall>(i, b) \<in> set (buffers r). 0 < i \<and> i < next_id r \<and> b_id b = i))"

lemma registry_ok_in_range: "registry_ok r \<Longrightarrow> tensors.in_range r"
  by (auto simp: registry_ok_def tensors.in_range_def dest: map_of_SomeD)

lemma put_None:
  "put r t shape dt n None = (next_id r, r\<lparr>next_id := next_id r + 1, buffers := idmap_put (buffers r)
     (next_id r) \<lparr>b_id = next_id r, b_tensor = t, b_shape = shape, b_dtype = dt, b_nbytes = n\<rparr>\<rparr>)"
  by (simp add: put_def allocate_id_def store_buffer_def)

lemma registry_ok_new: "registry_ok r \<Longrightarrow> next_id r \<notin> fst ` set (buffers r)"
  by (auto simp: registry_ok_def)

lemma put_step: "tensors.reg_step r (snd (put r t shape dt n None))"
  using tensors.reg_step.add [of r] by (simp add: put_def case_prod_unfold)

lemma release_loop_steps: "tensors.reg_step\<^sup>*\<^sup>* r (snd (release_loop r k ids))"
proof (induction r k ids rule: release_loop.induct)
  case (2 r removed i ids)
  have "tensors.reg_step r (drop_buffer r j)" for j by (rule tensors.reg_step.remove)
  with 2 show ?case by (auto split: option.splits intro: converse_rtranclp_into_rtranclp)
qed simp

lemma release_steps: "tensors.reg_step\<^sup>*\<^sup>* r (snd (release r ids))"
  by (simp add: release_def release_loop_steps split: sum.splits)

lemma drop_buffer_ok: "registry_ok r \<Longrightarrow> registry_ok (drop_buffer r k)"
  using idmap_pop_ok [of "buffers r" k] by (auto simp: registry_ok_def drop_buffer_def idmap_pop_def)

lemma put_ok: "registry_ok r \<Longrightarrow> 0 < next_id r \<Longrightarrow> registry_ok (snd (put r t shape dt n None))"
  using registry_ok_new [of r]
  by (auto simp: put_None registry_ok_def idmap_put_new idmap_ok_def)

lemma release_loop_ok: "registry_ok r \<Longrightarrow> registry_ok (snd (release_loop r k ids))"
  by (induction r k ids rule: release_loop.induct) (auto simp: drop_buffer_ok split: option.splits)

lemma release_ok: "registry_ok r \<Longrightarrow> registry_ok (snd (release r ids))"
  by (simp add: release_def release_loop_ok split: sum.splits)

lemma release_next_id: "next_id (snd (release r ids)) = next_id r"
proof -
  have "next_id (snd (release_loop r k xs)) = next_id r" for k xs
    by (induction r k xs rule: release_loop.induct) (auto simp: drop_buffer_def split: option.splits)
  then show ?thesis by (simp add: release_def split: sum.splits)
qed

text \<open>
  C8. A stored buffer is what a later lookup returns, under an id the registry has never handed
  out, and no other entry changes: \<open>put\<close> without an explicit id allocates the next one.
\<close>
theorem put_get:
  assumes "registry_ok r"
  shows "let (i, r') = put r t shape dt nbytes None in
     get r' (PInt i) = Inr \<lparr>b_id = i, b_tensor = t, b_shape = shape, b_dtype = dt, b_nbytes = nbytes\<rparr> \<and>
     (\<exists>e. get r (PInt i) = Inl e) \<and> next_id r' = next_id r + 1 \<and>
     (\<forall>j. j \<noteq> i \<longrightarrow> get r' (PInt j) = get r (PInt j)) \<and>
     total_bytes r' = total_bytes r + nbytes \<and> count r' = count r + 1"
proof -
  have new: "map_of (buffers r) (next_id r) = None"
    using registry_ok_new [OF assms] by (simp add: map_of_eq_None_iff)
  moreover have "int_key (PInt k) = Some k" for k by (simp add: int_key_def)
  ultimately show ?thesis using registry_ok_new [OF assms]
    by (simp add: put_None get_def total_bytes_def count_def idmap_put_new map_of_append
        option.case_eq_if map_add_def)
qed

theorem put_get_witness:
  "get (snd (put (registry_init :: nat tensor_registry) 7 [PInt 2] ''f32'' 8 None)) (PInt 1)
     = Inr \<lparr>b_id = 1, b_tensor = 7, b_shape = [PInt 2], b_dtype = ''f32'', b_nbytes = 8\<rparr>"
proof -
  have "registry_ok (registry_init :: nat tensor_registry)"
    by (simp add: registry_ok_def registry_init_def idmap_ok_def)
  from put_get [OF this, of 7 "[PInt 2]" "''f32''" 8] show ?thesis
    by (simp add: put_None Let_def registry_init_def)
qed

text \<open>The operations a worker performs on its buffers, in any order.\<close>

datatype 't reg_op = RPut 't "py list" string int | RRelease py

fun reg_apply :: "'t tensor_registry \<Rightarrow> 't reg_op \<Rightarrow> 't tensor_registry" where
  "reg_apply r (RPut t shape dt n) = snd (put r t shape dt n None)"
| "reg_apply r (RRelease ids) = snd (release r ids)"

text \<open>
  C9. A released buffer id stays stale: once an id below the next one is not resident, no
  sequence of stores and releases makes a lookup of it succeed again. A handle that a client kept
  after releasing it can never name another client's buffer.
\<close>
theorem released_id_stays_stale:
  assumes "k < next_id r" and "get r (PInt k) = Inl e"
  shows "get (foldl reg_apply r ops) (PInt k) = Inl e"
proof -
  have one: "tensors.reg_step\<^sup>*\<^sup>* s (reg_apply s op)" for s :: "'a tensor_registry" and op
    by (cases op) (auto simp: release_steps intro: r_into_rtranclp put_step)
  have "tensors.reg_step\<^sup>*\<^sup>* r (foldl reg_apply r ops)"
    by (induction ops arbitrary: r) (auto intro: rtranclp_trans one)
  moreover note assms(1)
  moreover have "map_of (buffers r) k = None"
    using assms(2) by (auto simp: get_def int_key_def split: option.splits)
  ultimately have "map_of (buffers (foldl reg_apply r ops)) k = None"
    by (rule tensors.reg_steps_stale)
  with assms(2) show ?thesis by (auto simp: get_def int_key_def split: option.splits)
qed

theorem released_id_stays_stale_witness:
  "get (foldl reg_apply (snd (release (snd (put (registry_init :: nat tensor_registry) 7 [] ''u8'' 1 None))
     (PList [PInt 1]))) [RPut 8 [] ''u8'' 1, RRelease (PList [PInt 5])]) (PInt 1)
   = Inl (WorkerErr StaleReferenceC ''buffer {buffer_id} is not resident in this worker generation''
       [(''buffer_id'', PInt 1)])"
  by (rule released_id_stays_stale) (simp_all add: put_None registry_init_def release_def py_iter_def
      int_key_def drop_buffer_def idmap_pop_def get_def)

lemma map_of_filter_fst: "map_of (filter (\<lambda>(k, _). k \<notin> S) m) = (map_of m) |` (- S)"
proof
  show "map_of (filter (\<lambda>(k, _). k \<notin> S) m) x = ((map_of m) |` (- S)) x" for x
    by (induction m) (auto simp: restrict_map_def)
qed

lemma release_loop_ints:
  assumes "idmap_ok (buffers r)"
  shows "release_loop r n (map PInt ids) =
     (Inr (n + int (card (set ids \<inter> dom (map_of (buffers r))))),
      r\<lparr>buffers := filter (\<lambda>(k, _). k \<notin> set ids) (buffers r)\<rparr>)"
  using assms
proof (induction ids arbitrary: r n)
  case (Cons i ids)
  have key: "int_key (PInt i) = Some i" by (simp add: int_key_def)
  show ?case
  proof (cases "map_of (buffers r) i")
    case None
    then have "insert i (set ids) \<inter> dom (map_of (buffers r)) = set ids \<inter> dom (map_of (buffers r))"
      by auto
    moreover have "filter (\<lambda>(k, _). k \<notin> set (i # ids)) (buffers r) = filter (\<lambda>(k, _). k \<notin> set ids) (buffers r)"
      using None by (intro filter_cong) (auto simp: map_of_eq_None_iff rev_image_eqI)
    ultimately show ?thesis using Cons None key by simp
  next
    case (Some b)
    have "insert i (set ids) \<inter> dom (map_of (buffers r))
        = insert i (set ids \<inter> dom (map_of (buffers (drop_buffer r i))))"
      using Some by (auto simp: drop_buffer_def)
    moreover have "finite (set ids \<inter> dom (map_of (buffers (drop_buffer r i))))" by simp
    ultimately have card: "card (insert i (set ids) \<inter> dom (map_of (buffers r)))
        = Suc (card (set ids \<inter> dom (map_of (buffers (drop_buffer r i)))))"
      by (simp add: drop_buffer_def)
    have "idmap_ok (buffers (drop_buffer r i))"
      using Cons.prems by (simp add: drop_buffer_def idmap_pop_ok)
    from Cons.IH [OF this, of "n + 1"] Some key card show ?thesis
      by (simp add: drop_buffer_def idmap_pop_def case_prod_unfold conj_commute)
  qed
qed (simp add: case_prod_unfold)

text \<open>
  C10. \<open>release\<close> is exact and idempotent: over a list of integer ids it never fails, it returns how
  many distinct resident buffers the list names, those are gone, every other one stays, and
  releasing the same ids again removes nothing.
\<close>
theorem release_exact:
  assumes "registry_ok r"
  shows "let (n, r') = release r (PList (map PInt ids)) in
     n = Inr (int (card (set ids \<inter> dom (map_of (buffers r))))) \<and>
     map_of (buffers r') = (map_of (buffers r)) |` (- set ids) \<and>
     release r' (PList (map PInt ids)) = (Inr 0, r')"
proof -
  have ok: "idmap_ok (buffers r)" using assms by (simp add: registry_ok_def)
  let ?r = "r\<lparr>buffers := filter (\<lambda>(k, _). k \<notin> set ids) (buffers r)\<rparr>"
  have rel: "release r (PList (map PInt ids)) = (Inr (int (card (set ids \<inter> dom (map_of (buffers r))))), ?r)"
    using release_loop_ints [OF ok, of 0 ids] by (simp add: release_def py_iter_def)
  have ok': "idmap_ok (buffers ?r)"
    using ok by (simp add: idmap_ok_def distinct_map_filter)
  have gone: "set ids \<inter> dom (map_of (buffers ?r)) = {}"
    by (auto dest!: map_of_SomeD)
  have "filter (\<lambda>(k, _). k \<notin> set ids) (buffers ?r) = buffers ?r" by simp
  with release_loop_ints [OF ok', of 0 ids] gone
  have again: "release ?r (PList (map PInt ids)) = (Inr 0, ?r)"
    by (simp add: release_def py_iter_def)
  from rel again show ?thesis by (simp add: Let_def map_of_filter_fst)
qed

theorem release_exact_witness:
  "fst (release (snd (put (registry_init :: nat tensor_registry) 7 [] ''u8'' 1 None)) (PList (map PInt [1, 1, 9])))
     = Inr 1"
proof -
  have "registry_ok (snd (put (registry_init :: nat tensor_registry) 7 [] ''u8'' 1 None))"
    by (rule put_ok) (simp_all add: registry_ok_def registry_init_def idmap_ok_def)
  from release_exact [OF this, of "[1, 1, 9]"] show ?thesis
    by (simp add: Let_def case_prod_unfold put_None registry_init_def)
qed

end
