(* ===== verification/Device.thy ===== *)
theory Device
  imports PyVal
begin

text \<open>
  Device strings and the environment (\<open>priv/worker/device.py\<close>, and \<open>configure_environment\<close> of
  \<open>main.py\<close>): parsing \<open>[<IFACE>+]<BACKEND>[:<RENDERER>]\<close>, the \<open>DEV\<close> variable tinygrad reads at
  import, the ROCm report and the probe. Opening a device and the smoke computation are tinygrad's:
  the probe takes their outcomes as arguments. White space and case are those of ASCII text.
\<close>

subsection \<open>Strings\<close>

definition is_space :: "char \<Rightarrow> bool" where
  "is_space c = (let n = (of_char c :: nat) in n = 32 \<or> 9 \<le> n \<and> n \<le> 13 \<or> 28 \<le> n \<and> n \<le> 31)"

definition strip :: "string \<Rightarrow> string" where
  "strip s = rev (dropWhile is_space (rev (dropWhile is_space s)))"

definition upper_char :: "char \<Rightarrow> char" where
  "upper_char c = (let n = (of_char c :: nat) in if 97 \<le> n \<and> n \<le> 122 then char_of (n - 32) else c)"

definition upper :: "string \<Rightarrow> string" where
  "upper s = map upper_char s"

text \<open>\<open>a, b = s.split(sep, 1)\<close> where \<open>sep in s\<close>\<close>

definition split_first :: "char \<Rightarrow> string \<Rightarrow> string \<times> string" where
  "split_first c s = (takeWhile (\<lambda>d. d \<noteq> c) s, tl (dropWhile (\<lambda>d. d \<noteq> c) s))"

fun substr :: "string \<Rightarrow> string \<Rightarrow> bool" where
  "substr p [] = (p = [])"
| "substr p (c # s) = (take (length p) (c # s) = p \<or> substr p s)"

subsection \<open>Parsing\<close>

record device =
  d_spec :: string
  d_backend :: string
  d_interface :: "string option"
  d_renderer :: "string option"
  d_tinygrad_device :: string
  d_dev :: string

definition split_iface :: "string \<Rightarrow> string option \<times> string" where
  "split_iface spec =
     (if CHR ''+'' \<in> set spec then (case split_first CHR ''+'' spec of (i, r) \<Rightarrow> (Some i, r))
      else (None, spec))"

definition split_renderer :: "string \<Rightarrow> string \<times> string option" where
  "split_renderer rest =
     (if CHR '':'' \<in> set rest then (case split_first CHR '':'' rest of (b, r) \<Rightarrow> (b, Some r))
      else (rest, None))"

definition parse_device :: "string option \<Rightarrow> device" where
  "parse_device arg =
     (let stripped = strip (case arg of None \<Rightarrow> [] | Some s \<Rightarrow> s);
          spec = (if stripped = [] then ''CPU'' else stripped);
          (iface, rest) = split_iface spec;
          (backend, renderer) = split_renderer rest;
          backend = upper backend;
          iface = (case iface of None \<Rightarrow> None | Some i \<Rightarrow> if i = [] then None else Some (upper i));
          renderer = (case renderer of None \<Rightarrow> None | Some r \<Rightarrow> if r = [] then None else Some (upper r))
      in if backend = ''AMD'' then
           (let i = (case iface of None \<Rightarrow> ''KFD'' | Some i \<Rightarrow> i);
                r = (case renderer of None \<Rightarrow> ''LLVM'' | Some r \<Rightarrow> r)
            in \<lparr>d_spec = spec, d_backend = backend, d_interface = Some i, d_renderer = Some r,
                d_tinygrad_device = backend, d_dev = i @ ''+AMD:'' @ r\<rparr>)
         else
           \<lparr>d_spec = spec, d_backend = backend, d_interface = iface, d_renderer = renderer,
            d_tinygrad_device = backend,
            d_dev = (case iface of None \<Rightarrow> [] | Some i \<Rightarrow> i @ ''+'') @ backend @
                    (case renderer of None \<Rightarrow> [] | Some r \<Rightarrow> CHR '':'' # r)\<rparr>)"

subsection \<open>Environment\<close>

type_synonym environ = "string \<rightharpoonup> string"

text \<open>\<open>os.environ.setdefault\<close>: an existing value wins.\<close>

definition apply_env :: "environ \<Rightarrow> device \<Rightarrow> environ" where
  "apply_env env d = (case env ''DEV'' of None \<Rightarrow> env(''DEV'' \<mapsto> d_dev d) | Some _ \<Rightarrow> env)"

definition env_or :: "string option \<Rightarrow> string option \<Rightarrow> string option" where
  "env_or a b = (case a of None \<Rightarrow> b | Some s \<Rightarrow> if s = [] then b else a)"

definition configure_environment :: "environ \<Rightarrow> device \<times> environ" where
  "configure_environment env =
     (let spec = env_or (env_or (env ''NX_TINYGRAD_DEVICE'') (env ''DEV'')) (Some ''CPU'');
          parsed = parse_device spec
      in (parsed, apply_env env parsed))"

subsection \<open>ROCm report and probe\<close>

definition ROCM_LIBS :: "string list" where
  "ROCM_LIBS = [''libamdhip64'', ''libhsa-runtime64'', ''libamd_comgr'', ''librocblas'', ''libMIOpen'']"

text \<open>\<open>maps\<close> is the text of \<open>/proc/self/maps\<close>, \<open>None\<close> where it cannot be read.\<close>

definition loaded_rocm_libraries :: "string option \<Rightarrow> (string \<times> bool) list" where
  "loaded_rocm_libraries maps =
     map (\<lambda>name. (name, case maps of None \<Rightarrow> False | Some t \<Rightarrow> substr name t)) ROCM_LIBS"

text \<open>
  What tinygrad answers for a device name: the message of the exception that opening it raises, or the
  device's optional \<open>arch\<close> and \<open>device\<close> attributes, and the smoke result or its exception.
\<close>

record tg_devices =
  open_device :: "string \<Rightarrow> string + (string option \<times> string option)"
  smoke :: "string \<Rightarrow> string + int list"

definition opt_str :: "string option \<Rightarrow> py" where
  "opt_str s = (case s of None \<Rightarrow> PNone | Some t \<Rightarrow> PStr t)"

definition probe :: "tg_devices \<Rightarrow> string option \<Rightarrow> environ \<Rightarrow> string option \<Rightarrow> (exn + py) \<times> environ" where
  "probe tg maps env spec =
     (let parsed = parse_device spec; env' = apply_env env parsed; dev = d_tinygrad_device parsed in
      (case open_device tg dev of
         Inl _ \<Rightarrow> Inl (WorkerErr DeviceUnavailableC
             ''could not open tinygrad device {tg_device!r} for {spec!r}: {exc}''
             [(''requested'', PStr (d_spec parsed))])
       | Inr (arch, selected) \<Rightarrow>
           (case smoke tg dev of
              Inl _ \<Rightarrow> Inl (WorkerErr DeviceUnavailableC ''smoke computation failed on {spec!r}: {exc}''
                  [(''requested'', PStr (d_spec parsed))])
            | Inr ys \<Rightarrow>
                (let sel = (case selected of None \<Rightarrow> dev | Some d \<Rightarrow> d) in
                 Inr (PDict
                  [(''requested'', PStr (d_spec parsed)), (''selected'', PStr sel),
                   (''renderer'', opt_str (d_renderer parsed)), (''interface'', opt_str (d_interface parsed)),
                   (''architecture'', opt_str arch),
                   (''device_name'', PStr (case arch of Some a \<Rightarrow> if a = [] then sel else a | None \<Rightarrow> sel)),
                   (''usable'', PBool (ys = [2, 4, 6])),
                   (''rocm_libraries_loaded'',
                     PDict (map (\<lambda>(n, b). (n, PBool b)) (loaded_rocm_libraries maps)))]))), env'))"

text \<open>
  The module run as a program: the device is the first argument, else \<open>DEV\<close>, else the CPU. What it prints (a JSON
  object, as a value) and its exit status; any other exception ends it as it does the probe.
\<close>

definition device_main :: "tg_devices \<Rightarrow> string option \<Rightarrow> environ \<Rightarrow> string list \<Rightarrow> (exn + py \<times> int) \<times> environ" where
  "device_main tg maps env argv =
     (let requested = (case argv of _ # a # _ \<Rightarrow> a
            | _ \<Rightarrow> (case env ''DEV'' of None \<Rightarrow> ''CPU'' | Some d \<Rightarrow> d)) in
      (case probe tg maps env (Some requested) of
         (Inr info, env') \<Rightarrow> (Inr (info, 0), env')
       | (Inl (WorkerErr DeviceUnavailableC message _), env') \<Rightarrow>
           (Inr (PDict [(''error'', PStr (error_class DeviceUnavailableC)), (''message'', PStr message)], 1), env')
       | (Inl e, env') \<Rightarrow> (Inl e, env')))"

subsection \<open>Properties\<close>

text \<open>A part of a device string: not empty, without separators or white space.\<close>

definition part :: "string \<Rightarrow> bool" where
  "part s = (s \<noteq> [] \<and> (\<forall>c \<in> set s. c \<noteq> CHR ''+'' \<and> c \<noteq> CHR '':'' \<and> \<not> is_space c))"

definition render :: "string option \<Rightarrow> string \<Rightarrow> string option \<Rightarrow> string" where
  "render i b r = (case i of None \<Rightarrow> [] | Some i \<Rightarrow> i @ ''+'') @ b @ (case r of None \<Rightarrow> [] | Some r \<Rightarrow> CHR '':'' # r)"

lemma strip_id:
  assumes "s \<noteq> []" and "\<not> is_space (hd s)" and "\<not> is_space (last s)"
  shows "strip s = s"
proof -
  have "dropWhile is_space s = s" using assms by (cases s) auto
  moreover have "dropWhile is_space (rev s) = rev s"
    using assms by (cases s rule: rev_cases) auto
  ultimately show ?thesis by (simp add: strip_def)
qed

lemma split_first_append: "c \<notin> set s \<Longrightarrow> split_first c (s @ c # t) = (s, t)"
  unfolding split_first_def by (subst takeWhile_append2; (subst dropWhile_append2)?; auto)

lemma part_props:
  assumes "part s"
  shows "s \<noteq> []" "CHR ''+'' \<notin> set s" "CHR '':'' \<notin> set s" "\<not> is_space (hd s)" "\<not> is_space (last s)"
  using assms by (auto simp: part_def)

lemma render_strip:
  assumes "part b" and "\<forall>x \<in> set_option i. part x" and "\<forall>x \<in> set_option r. part x"
  shows "strip (render i b r) = render i b r" "render i b r \<noteq> []"
proof -
  have "\<not> is_space CHR '':''" "\<not> is_space CHR ''+''" by (simp_all add: is_space_def)
  with assms show "strip (render i b r) = render i b r"
    by (intro strip_id) (auto simp: render_def part_props hd_append split: option.splits)
  show "render i b r \<noteq> []" using assms(1) by (auto simp: render_def part_def)
qed

lemma parse_render:
  assumes "part b" and "\<forall>x \<in> set_option i. part x" and "\<forall>x \<in> set_option r. part x"
  shows "parse_device (Some (render i b r)) =
     (let amd = (upper b = ''AMD'');
          i' = (case map_option upper i of None \<Rightarrow> if amd then Some ''KFD'' else None | Some x \<Rightarrow> Some x);
          r' = (case map_option upper r of None \<Rightarrow> if amd then Some ''LLVM'' else None | Some x \<Rightarrow> Some x)
      in \<lparr>d_spec = render i b r, d_backend = upper b, d_interface = i', d_renderer = r',
          d_tinygrad_device = upper b, d_dev = render i' (upper b) r'\<rparr>)"
proof -
  note st = render_strip [OF assms]
  have r0: "split_renderer (render None b r) = (b, r)"
    using part_props [OF assms(1)] split_first_append [of "CHR '':''" b]
    by (auto simp: render_def split_renderer_def split: option.splits)
  have i0: "split_iface (render i b r) = (i, render None b r)"
  proof (cases i)
    case None
    with part_props [OF assms(1)] assms(3) show ?thesis
      by (auto simp: render_def split_iface_def part_props split: option.splits)
  next
    case (Some x)
    with assms(2) have "part x" by simp
    from split_first_append [OF part_props(2) [OF this]] Some show ?thesis
      by (auto simp: render_def split_iface_def)
  qed
  have ne: "(case i of None \<Rightarrow> None | Some x \<Rightarrow> if x = [] then None else Some (upper x)) = map_option upper i"
    "(case r of None \<Rightarrow> None | Some x \<Rightarrow> if x = [] then None else Some (upper x)) = map_option upper r"
    using assms(2,3) by (auto simp: part_def split: option.splits)
  show ?thesis
  proof (cases "upper b = ''AMD''")
    case True
    then show ?thesis unfolding parse_device_def
      by (simp add: st i0 r0 ne render_def [of "Some _" _ "Some _"] Let_def split: option.splits)
  next
    case False
    then show ?thesis unfolding parse_device_def
      by (simp add: st i0 r0 ne Let_def split: option.splits) (simp add: render_def)
  qed
qed

lemma upper_char_idem [simp]: "upper_char (upper_char c) = upper_char c"
  by (auto simp: upper_char_def Let_def)

lemma upper_upper [simp]: "upper (upper s) = upper s"
  by (simp add: upper_def)

lemma upper_char_eq: "upper_char c = d \<Longrightarrow> \<not> (65 \<le> (of_char d :: nat) \<and> (of_char d :: nat) \<le> 90) \<Longrightarrow> c = d"
  by (auto simp: upper_char_def Let_def split: if_splits)

lemma is_space_upper: "is_space (upper_char c) = is_space c"
  by (auto simp: is_space_def upper_char_def Let_def)

lemma upper_char_sep:
  "upper_char c = CHR ''+'' \<longleftrightarrow> c = CHR ''+''" "upper_char c = CHR '':'' \<longleftrightarrow> c = CHR '':''"
  using upper_char_eq [of c "CHR ''+''"] upper_char_eq [of c "CHR '':''"]
  by (auto simp: upper_char_def Let_def)

lemma part_upper: "part s \<Longrightarrow> part (upper s)"
  by (auto simp: part_def upper_def is_space_upper upper_char_sep)

lemma split_iface_Some: "split_iface spec = (Some x, rest) \<Longrightarrow> spec = x @ CHR ''+'' # rest"
proof -
  assume a: "split_iface spec = (Some x, rest)"
  let ?P = "\<lambda>d. d \<noteq> CHR ''+''"
  from a have m: "CHR ''+'' \<in> set spec" and x: "x = takeWhile ?P spec" "rest = tl (dropWhile ?P spec)"
    by (auto simp: split_iface_def split_first_def split: if_splits)
  from m have ne: "dropWhile ?P spec \<noteq> []" by (auto simp: dropWhile_eq_Nil_conv)
  from hd_dropWhile [OF ne] have "hd (dropWhile ?P spec) = CHR ''+''" by simp
  with ne x(2) have "dropWhile ?P spec = CHR ''+'' # rest" by (metis list.collapse)
  with x(1) takeWhile_dropWhile_id [of ?P spec] show ?thesis by simp
qed

lemma parse_device_parts:
  assumes "spec = (let st = strip (case s of None \<Rightarrow> [] | Some s \<Rightarrow> s) in if st = [] then ''CPU'' else st)"
    and "split_iface spec = (f, rest)" and "split_renderer rest = (b, r)"
  shows "d_backend (parse_device s) = upper b" "d_spec (parse_device s) = spec"
    "upper b = ''AMD'' \<Longrightarrow> parse_device s =
       (let i = (case f of None \<Rightarrow> ''KFD'' | Some x \<Rightarrow> if x = [] then ''KFD'' else upper x);
            q = (case r of None \<Rightarrow> ''LLVM'' | Some x \<Rightarrow> if x = [] then ''LLVM'' else upper x)
        in \<lparr>d_spec = spec, d_backend = ''AMD'', d_interface = Some i, d_renderer = Some q,
            d_tinygrad_device = ''AMD'', d_dev = i @ ''+AMD:'' @ q\<rparr>)"
  unfolding parse_device_def assms(1) [unfolded Let_def, symmetric] Let_def
  using assms(2,3) by (auto split: option.splits)

text \<open>
  C11. Parsing is the inverse of writing a device string: for an optional interface, a backend and an
  optional renderer the parse returns exactly these, in upper case, with KFD and LLVM filled in for a
  bare AMD; and parsing the resulting \<open>DEV\<close> string again, as the probe does with a device that
  was already configured, changes neither the components nor \<open>DEV\<close>.
\<close>
theorem parse_device_roundtrip:
  assumes "part b" and "\<forall>x \<in> set_option i. part x" and "\<forall>x \<in> set_option r. part x"
  shows "let d = parse_device (Some (render i b r)); amd = (upper b = ''AMD'') in
     d_backend d = upper b \<and>
     d_interface d = (case i of Some x \<Rightarrow> Some (upper x) | None \<Rightarrow> if amd then Some ''KFD'' else None) \<and>
     d_renderer d = (case r of Some x \<Rightarrow> Some (upper x) | None \<Rightarrow> if amd then Some ''LLVM'' else None) \<and>
     d_dev d = render (d_interface d) (d_backend d) (d_renderer d) \<and>
     parse_device (Some (d_dev d)) = d\<lparr>d_spec := d_dev d\<rparr>"
proof -
  let ?i = "case map_option upper i of None \<Rightarrow> if upper b = ''AMD'' then Some ''KFD'' else None | Some x \<Rightarrow> Some x"
  let ?r = "case map_option upper r of None \<Rightarrow> if upper b = ''AMD'' then Some ''LLVM'' else None | Some x \<Rightarrow> Some x"
  have kl: "part ''KFD''" "part ''LLVM''" "upper ''KFD'' = ''KFD''" "upper ''LLVM'' = ''LLVM''" by code_simp+
  have "part (upper b)" "\<forall>x \<in> set_option ?i. part x" "\<forall>x \<in> set_option ?r. part x"
    using assms kl by (auto simp: part_upper split: option.splits)
  from parse_render [OF this] parse_render [OF assms] kl show ?thesis
    by (auto simp: Let_def split: option.splits)
qed

theorem parse_device_roundtrip_witness:
  "d_dev (parse_device (Some (render None ''amd'' (Some ''llvm'')))) = ''KFD+AMD:LLVM''"
proof -
  have p: "part ''amd''" "\<forall>x \<in> set_option None. part x" "\<forall>x \<in> set_option (Some ''llvm''). part x"
    by code_simp+
  have u: "upper ''amd'' = ''AMD''" "upper ''llvm'' = ''LLVM''" by code_simp+
  from parse_device_roundtrip [OF p] u show ?thesis by (simp add: Let_def render_def)
qed



end
