(* ===== verification/Worker.thy ===== *)
theory Worker
  imports Capture Registry Device
begin

text \<open>
  The worker process (\<open>priv/worker/main.py\<close>, \<open>stats.py\<close>): the handler's state, one definition per
  command, the dispatch that turns a result or an exception into a response, and the main loop over
  the framed stream. \<open>lib\<close> gathers what the process is run with: the libraries, the raw device copy
  that \<open>immutable_copy\<close> tries, tinygrad's devices, the version strings, the clock, the JSON codec and the
  fuel of the evaluator. A command that raises keeps the state changes it made before.
\<close>

subsection \<open>State\<close>

record stats =
  compile_count :: nat
  execute_count :: nat
  run_node_count :: nat
  upload_bytes :: nat
  download_bytes :: nat
  duplicate_input_clones :: nat
  immutable_copy_fast :: nat
  immutable_copy_fallback :: nat

definition stats_init :: stats where
  "stats_init = \<lparr>compile_count = 0, execute_count = 0, run_node_count = 0, upload_bytes = 0, download_bytes = 0,
     duplicate_input_clones = 0, immutable_copy_fast = 0, immutable_copy_fallback = 0\<rparr>"

definition stats_dict :: "stats \<Rightarrow> (string \<times> py) list" where
  "stats_dict s =
     [(''compile_count'', PInt (int (compile_count s))), (''execute_count'', PInt (int (execute_count s))),
      (''run_node_count'', PInt (int (run_node_count s))), (''upload_bytes'', PInt (int (upload_bytes s))),
      (''download_bytes'', PInt (int (download_bytes s))),
      (''duplicate_input_clones'', PInt (int (duplicate_input_clones s))),
      (''immutable_copy_fast'', PInt (int (immutable_copy_fast s))),
      (''immutable_copy_fallback'', PInt (int (immutable_copy_fallback s)))]"

definition WHILE_STATS :: "string list" where
  "WHILE_STATS = [''while_steps_jit'', ''while_steps_symbolic'', ''while_steps_interpreted'',
     ''while_jit_fallbacks'', ''graph_segments_jit'', ''graph_segments_interpreted'', ''graph_segment_fallbacks'']"

record 't worker =
  parsed_device :: device
  generation :: int
  should_stop :: bool
  device_info :: "py option"
  environment :: environ
  registry :: "'t tensor_registry"
  execs :: "'t executable exec_registry"
  stat :: stats
  while_stats :: "string \<Rightarrow> nat"

record ('t, 'h) lib =
  exe0 :: "('t, 'h) exe"
  base_size :: "'t \<Rightarrow> int option"
  has_transfer :: bool
  raw_copy :: "'t \<Rightarrow> exn + 't"
  sync :: "string \<Rightarrow> exn + unit"
  devices :: tg_devices
  proc_maps :: "string option"
  python_version :: string
  tinygrad_version :: string
  elapsed_ms :: flt
  traceback :: "exn \<Rightarrow> string"
  loads :: "byte list \<Rightarrow> py option"
  dumps :: "py \<Rightarrow> byte list"
  fuel :: nat

definition PROTOCOL_VERSION :: int where
  "PROTOCOL_VERSION = 1"

definition WORKER_VERSION :: string where
  "WORKER_VERSION = ''0.1.0''"

definition new_handler :: "device \<Rightarrow> environ \<Rightarrow> int \<Rightarrow> 't worker" where
  "new_handler parsed env gen =
     \<lparr>parsed_device = parsed, generation = gen, should_stop = False, device_info = None, environment = env,
      registry = registry_init, execs = exec_registry_init, stat = stats_init, while_stats = (\<lambda>_. 0)\<rparr>"

type_synonym ('t, 'a) wrun = "('t worker, exn, 'a) run"

type_synonym reply = "py \<times> byte list list"

definition tg_device :: "'t worker \<Rightarrow> string" where
  "tg_device w = d_tinygrad_device (parsed_device w)"

definition tgl :: "('t, 'h) lib \<Rightarrow> 't tg" where
  "tgl L = tg (exe0 L)"

definition hostl :: "('t, 'h) lib \<Rightarrow> ('t, 'h) host" where
  "hostl L = host (exe0 L)"

definition upd_stat :: "(stats \<Rightarrow> stats) \<Rightarrow> ('t, unit) wrun" where
  "upd_stat f = modify (\<lambda>w. w\<lparr>stat := f (stat w)\<rparr>)"

definition dict_args :: "py \<Rightarrow> string \<Rightarrow> ('t, py) wrun" where
  "dict_args args k = lift (py_item args k)"

definition put_buffer :: "'t \<Rightarrow> py \<Rightarrow> py \<Rightarrow> int \<Rightarrow> ('t, int) wrun" where
  "put_buffer t shape dtype nbytes =
     bnd (lift (to_list shape)) (\<lambda>dims.
     bnd (reads (\<lambda>w. put (registry w) t dims (case dtype of PStr s \<Rightarrow> s | _ \<Rightarrow> []) nbytes None)) (\<lambda>(i, r).
     bnd (modify (\<lambda>w. w\<lparr>registry := r\<rparr>)) (\<lambda>_. ret i)))"

text \<open>\<open>int(np.prod(shape, dtype="int64"))\<close>: the product wraps at 64 bits.\<close>

definition np_prod64 :: "int list \<Rightarrow> int" where
  "np_prod64 dims = sint (word_of_int (prod_list dims) :: 64 word)"

subsection \<open>hello, device_info\<close>

definition cmd_hello :: "('t, 'h) lib \<Rightarrow> py \<Rightarrow> byte list list \<Rightarrow> ('t, reply) wrun" where
  "cmd_hello L args _ =
     bnd (lift (py_get args ''protocol_version'' PNone)) (\<lambda>v.
     bnd (lift (ensure (v = PNone \<or> py_eq v (PInt PROTOCOL_VERSION))
            (WorkerErr ProtocolErrorC ''protocol version mismatch: worker={PROTOCOL_VERSION}, client={client_version}''
              [(''worker'', PInt PROTOCOL_VERSION), (''client'', v)]))) (\<lambda>_.
     reads (\<lambda>w. (PDict
       [(''protocol_version'', PInt PROTOCOL_VERSION), (''worker_version'', PStr WORKER_VERSION),
        (''python_version'', PStr (python_version L)), (''tinygrad_version'', PStr (tinygrad_version L)),
        (''tinygrad_commit'', PStr (tinygrad_version L)), (''device'', PStr (d_spec (parsed_device w))),
        (''generation'', PInt (generation w))], []))))"

definition cmd_device_info :: "('t, 'h) lib \<Rightarrow> py \<Rightarrow> byte list list \<Rightarrow> ('t, reply) wrun" where
  "cmd_device_info L _ _ =
     bnd (reads device_info) (\<lambda>cached.
     case cached of
       Some info \<Rightarrow> ret (info, [])
     | None \<Rightarrow>
         bnd (reads (\<lambda>w. probe (devices L) (proc_maps L) (environment w) (Some (d_spec (parsed_device w))))) (\<lambda>(r, env).
         bnd (modify (\<lambda>w. w\<lparr>environment := env\<rparr>)) (\<lambda>_.
         bnd (lift r) (\<lambda>info.
         bnd (modify (\<lambda>w. w\<lparr>device_info := Some info\<rparr>)) (\<lambda>_. ret (info, []))))))"

subsection \<open>compile\<close>

text \<open>A computation of an executable inside the worker; the counters are the process's own.\<close>

definition est_of :: "'t worker \<Rightarrow> 't executable \<Rightarrow> 't est" where
  "est_of w X = \<lparr>while_steps = x_while X, segment_steps = x_segsteps X, counters = while_stats w,
     clones = x_clones X, replays = x_jit X\<rparr>"

definition with_caches :: "'t est \<Rightarrow> 't executable \<Rightarrow> 't executable" where
  "with_caches s X = X\<lparr>x_while := while_steps s, x_segsteps := segment_steps s, x_clones := clones s, x_jit := replays s\<rparr>"

definition cmd_compile :: "('t, 'h) lib \<Rightarrow> py \<Rightarrow> byte list list \<Rightarrow> ('t, reply) wrun" where
  "cmd_compile L args blobs =
     bnd (dict_args args ''graph'') (\<lambda>graph.
     bnd (lift (py_get args ''validate_capture'' (PBool True))) (\<lambda>vc.
     bnd (reads (\<lambda>w. exec_allocate_id (execs w))) (\<lambda>(exec_id, r).
     bnd (modify (\<lambda>w. w\<lparr>execs := r\<rparr>)) (\<lambda>_.
     bnd (\<lambda>w. case compile_graph (eval_nodes (fuel L) ((exe0 L)\<lparr>xblobs := blobs, xdevice := tg_device w\<rparr>))
                  ((exe0 L)\<lparr>xblobs := blobs, xdevice := tg_device w\<rparr>) exec_id graph (py_truth vc)
                  \<lparr>while_steps = Map.empty, segment_steps = Map.empty, counters = while_stats w,
                    clones = 0, replays = None\<rparr> of
            None \<Rightarrow> None
          | Some (Inl e, s) \<Rightarrow> Some (Inl e, w\<lparr>while_stats := counters s\<rparr>)
          | Some (Inr X, s) \<Rightarrow> Some (Inr (with_caches s X), w\<lparr>while_stats := counters s\<rparr>)) (\<lambda>X.
     bnd (modify (\<lambda>w. w\<lparr>execs := exec_put (execs w) exec_id X\<rparr>)) (\<lambda>_.
     bnd (upd_stat (\<lambda>s. s\<lparr>compile_count := Suc (compile_count s)\<rparr>)) (\<lambda>_.
     ret (PDict [(''executable_id'', PInt exec_id), (''input_specs'', PList (input_specs X)),
       (''output_specs'', PList (output_specs X)), (''compile_ms'', PFloat (elapsed_ms L)),
       (''kernel_count'', PInt (int (x_kernels X)))], []))))))))"

subsection \<open>execute\<close>

definition run_on :: "('t, 'h) lib \<Rightarrow> 't executable \<Rightarrow> 't list \<Rightarrow> ('t, 't list \<times> nat) wrun" where
  "run_on L X inputs w =
     (let E = (exe0 L)\<lparr>xblobs := x_blobs X, xdevice := tg_device w\<rparr> in
      case run_exec (eval_nodes (fuel L) E) E X inputs (est_of w X) of
        None \<Rightarrow> None
      | Some (Inl e, s) \<Rightarrow>
          Some (Inl e, w\<lparr>while_stats := counters s, execs := exec_put (execs w) (x_id X) (with_caches s X)\<rparr>)
      | Some (Inr outs, s) \<Rightarrow>
          Some (Inr (outs, clones s - x_clones X),
            w\<lparr>while_stats := counters s, execs := exec_put (execs w) (x_id X) (with_caches s X)\<rparr>))"

definition input_blob :: "byte list list \<Rightarrow> py \<Rightarrow> exn + byte list" where
  "input_blob blobs spec = rbind (rbind (py_item spec ''blob_index'') to_int) (lget blobs)"

definition blob_array :: "('t, 'h) lib \<Rightarrow> byte list \<Rightarrow> py \<Rightarrow> exn + 'h" where
  "blob_array L blob spec =
     rbind (py_item spec ''dtype'') (\<lambda>dtype. rbind (py_item spec ''shape'') (load_array (hostl L) blob dtype))"

definition wire_in :: "('t, 'h) lib \<Rightarrow> 'h \<Rightarrow> py \<Rightarrow> string \<Rightarrow> exn + 't" where
  "wire_in L arr dtype dev =
     rbind (wire_tensor (tgl L) (hostl L) arr dtype dev) (\<lambda>t.
     rbind (if np_shape (hostl L) arr = [] then call (tgl L) Clone [t] else Inr t) (realize (tgl L)))"

definition unknown_kind :: exn where
  "unknown_kind = WorkerErr ProtocolErrorC ''unknown input kind: {kind!r}'' []"

definition execute_input :: "('t, 'h) lib \<Rightarrow> byte list list \<Rightarrow> py \<Rightarrow> ('t, 't) wrun" where
  "execute_input L blobs spec =
     bnd (lift (py_get spec ''kind'' PNone)) (\<lambda>kind.
     if kind = PStr ''handle'' then
       bnd (lift (py_item spec ''id'')) (\<lambda>i.
       bnd (reads (\<lambda>w. get (registry w) i)) (\<lambda>r. bnd (lift r) (\<lambda>b. ret (b_tensor b))))
     else if kind = PStr ''blob'' then
       bnd (reads tg_device) (\<lambda>dev.
       lift (rbind (input_blob blobs spec) (\<lambda>blob. rbind (blob_array L blob spec) (\<lambda>arr.
         rbind (py_item spec ''dtype'') (\<lambda>dtype. wire_in L arr dtype dev)))))
     else lift (Inl unknown_kind))"

text \<open>\<open>immutable_copy\<close>: the raw device copy of a whole realized buffer, else a realized clone.\<close>

definition immutable_copy :: "('t, 'h) lib \<Rightarrow> 't \<Rightarrow> ('t, 't) wrun" where
  "immutable_copy L t0 =
     catch
       (bnd (lift (realize (tgl L) t0)) (\<lambda>t.
        bnd (lift (ensure (base_size L t = Some (prod (shp (tgl L) t)))
               (PyErr ''NotImplementedError'' ''output is a view/shared buffer''))) (\<lambda>_.
        bnd (lift (ensure (has_transfer L) (PyErr ''NotImplementedError'' ''allocator has no _transfer''))) (\<lambda>_.
        bnd (lift (raw_copy L t)) (\<lambda>dst.
        bnd (upd_stat (\<lambda>s. s\<lparr>immutable_copy_fast := Suc (immutable_copy_fast s)\<rparr>)) (\<lambda>_. ret dst))))))
       (\<lambda>_. bnd (upd_stat (\<lambda>s. s\<lparr>immutable_copy_fallback := Suc (immutable_copy_fallback s)\<rparr>)) (\<lambda>_.
            lift (clone_realize (tgl L) t0)))"

definition download_array :: "('t, 'h) lib \<Rightarrow> 't \<Rightarrow> py \<Rightarrow> exn + byte list" where
  "download_array L t dtype =
     rbind (wire_numpy (tgl L) (hostl L) t dtype) (\<lambda>a.
     rbind (numpy_dtype dtype) (\<lambda>d.
     rbind (np (hostl L) (NContiguous (Some d)) [a]) (\<lambda>arr.
     Inr (tobytes (hostl L) arr))))"

definition add_download :: "nat \<Rightarrow> ('t, unit) wrun" where
  "add_download n = upd_stat (\<lambda>s. s\<lparr>download_bytes := download_bytes s + n\<rparr>)"

definition out_spec :: "py \<Rightarrow> exn + (string \<times> py) list" where
  "out_spec ospec = rbind (py_item ospec ''shape'') (\<lambda>s. rbind (py_item ospec ''dtype'') (\<lambda>d.
     Inr [(''shape'', s), (''dtype'', d)]))"

definition host_output :: "('t, 'h) lib \<Rightarrow> 't \<times> py \<Rightarrow> ('t, py \<times> byte list) wrun" where
  "host_output L ts =
     bnd (lift (py_item (snd ts) ''dtype'')) (\<lambda>dtype.
     bnd (lift (download_array L (fst ts) dtype)) (\<lambda>data.
     bnd (add_download (length data)) (\<lambda>_.
     bnd (lift (out_spec (snd ts))) (\<lambda>sp. ret (PDict sp, data)))))"

definition device_output :: "('t, 'h) lib \<Rightarrow> 't \<times> py \<Rightarrow> ('t, py) wrun" where
  "device_output L ts =
     bnd (immutable_copy L (fst ts)) (\<lambda>cloned.
     bnd (lift (py_item (snd ts) ''shape'')) (\<lambda>shape.
     bnd (lift (to_ints shape)) (\<lambda>dims.
     bnd (lift (py_item (snd ts) ''dtype'')) (\<lambda>dtype.
     bnd (lift (numpy_dtype dtype)) (\<lambda>d.
     bnd (put_buffer cloned shape dtype (np_prod64 dims * int (np_itemsize d))) (\<lambda>bid.
     bnd (lift (out_spec (snd ts))) (\<lambda>sp. ret (PDict ((''id'', PInt bid) # sp)))))))))"

definition cmd_execute :: "('t, 'h) lib \<Rightarrow> py \<Rightarrow> byte list list \<Rightarrow> ('t, reply) wrun" where
  "cmd_execute L args blobs =
     bnd (dict_args args ''executable_id'') (\<lambda>eid.
     bnd (reads (\<lambda>w. exec_get (execs w) eid)) (\<lambda>r.
     bnd (lift r) (\<lambda>X.
     bnd (lift (py_get args ''output'' (PStr ''device''))) (\<lambda>output_mode.
     bnd (lift (rbind (py_item args ''inputs'') to_list)) (\<lambda>specs.
     bnd (mmap (execute_input L blobs) specs) (\<lambda>inputs.
     bnd (run_on L X inputs) (\<lambda>(outputs, clones).
     bnd (upd_stat (\<lambda>s. s\<lparr>duplicate_input_clones := duplicate_input_clones s + clones\<rparr>)) (\<lambda>_.
     bnd (upd_stat (\<lambda>s. s\<lparr>execute_count := Suc (execute_count s)\<rparr>)) (\<lambda>_.
     if output_mode = PStr ''host'' then
       bnd (mmap (host_output L) (zip outputs (output_specs X))) (\<lambda>outs.
       ret (PDict [(''outputs'', PList (map fst outs))], map snd outs))
     else
       bnd (mmap (device_output L) (zip outputs (output_specs X))) (\<lambda>outs.
       ret (PDict [(''outputs'', PList outs)], [])))))))))))"

subsection \<open>run_node\<close>

definition run_node_input :: "('t, 'h) lib \<Rightarrow> byte list list \<Rightarrow> py \<Rightarrow> ('t, 't val) wrun" where
  "run_node_input L blobs spec =
     bnd (lift (py_get spec ''kind'' PNone)) (\<lambda>kind.
     if kind = PStr ''handle'' then
       bnd (lift (py_item spec ''id'')) (\<lambda>i.
       bnd (reads (\<lambda>w. get (registry w) i)) (\<lambda>r. bnd (lift r) (\<lambda>b. lift (wrap (PStr (b_dtype b)) (b_tensor b)))))
     else if kind = PStr ''blob'' then
       bnd (reads tg_device) (\<lambda>dev.
       bnd (lift (input_blob blobs spec)) (\<lambda>blob.
       bnd (lift (blob_array L blob spec)) (\<lambda>arr.
       bnd (lift (py_item spec ''dtype'')) (\<lambda>dtype.
       bnd (lift (rbind (wire_tensor (tgl L) (hostl L) arr dtype dev) (realize (tgl L)))) (\<lambda>t.
       bnd (lift (wrap dtype t)) (\<lambda>v.
       bnd (upd_stat (\<lambda>s. s\<lparr>upload_bytes := upload_bytes s + length blob\<rparr>)) (\<lambda>_. ret v)))))))
     else lift (Inl unknown_kind))"

definition run_node_ops :: "py \<Rightarrow> exn + bool" where
  "run_node_ops op = rbind (op_supported op) (\<lambda>ok.
     Inr (ok \<and> op \<notin> {PStr ''while'', PStr ''reduce'', PStr ''window_reduce''}))"

definition cmd_run_node :: "('t, 'h) lib \<Rightarrow> py \<Rightarrow> byte list list \<Rightarrow> ('t, reply) wrun" where
  "cmd_run_node L args blobs =
     bnd (lift (py_get args ''op'' PNone)) (\<lambda>op.
     bnd (lift (run_node_ops op)) (\<lambda>ok.
     bnd (lift (ensure ok (unsupported ''run_node does not support op: {op!r}'' [(''op'', op)]))) (\<lambda>_.
     bnd (lift (rbind (py_item args ''shape'') to_list)) (\<lambda>shape.
     bnd (dict_args args ''dtype'') (\<lambda>dtype.
     bnd (lift (is_supported dtype)) (\<lambda>sup.
     bnd (lift (ensure sup (WorkerErr ProtocolErrorC ''unsupported dtype: {dtype}'' []))) (\<lambda>_.
     bnd (lift (rbind (py_item args ''inputs'') to_list)) (\<lambda>specs.
     bnd (mmap (run_node_input L blobs) specs) (\<lambda>vs.
     bnd (lift (py_get args ''attrs'' PNone)) (\<lambda>attrs.
     bnd (lift (apply_node (tgl L)
            (PDict [(''op'', op), (''inputs'', PList (map (\<lambda>i. PInt (int i)) [0..<length specs])),
              (''attrs'', py_or attrs (PDict [])), (''shape'', PList shape), (''dtype'', dtype)])
            (env_of (map_of (map (\<lambda>(i, v). (int i, v)) (enumerate 0 vs)))))) (\<lambda>result.
     bnd (lift (rbind (call (tgl L) Contiguous [unwrap result]) (realize (tgl L)))) (\<lambda>tensor.
     bnd (lift (is_complex dtype)) (\<lambda>cx.
     bnd (lift (to_ints (PList shape))) (\<lambda>dims.
     bnd (lift (ensure (shp (tgl L) tensor = (if cx then dims @ [2] else dims))
            (WorkerErr ProtocolErrorC ''run_node {op} produced shape {list(tensor.shape)}, expected {expected}'' []))) (\<lambda>_.
     bnd (lift (itemsize dtype)) (\<lambda>size.
     bnd (put_buffer tensor (PList shape) dtype (np_prod64 dims * int size)) (\<lambda>bid.
     bnd (upd_stat (\<lambda>s. s\<lparr>run_node_count := Suc (run_node_count s)\<rparr>)) (\<lambda>_.
     ret (PDict [(''id'', PInt bid), (''shape'', PList shape), (''dtype'', dtype)], [])))))))))))))))))))"

subsection \<open>upload, download, release\<close>

definition cmd_upload :: "('t, 'h) lib \<Rightarrow> py \<Rightarrow> byte list list \<Rightarrow> ('t, reply) wrun" where
  "cmd_upload L args blobs =
     bnd (lift (ensure (blobs \<noteq> []) (protocol_error ''upload requires a tensor blob''))) (\<lambda>_.
     bnd (lift (rbind (py_item args ''shape'') to_list)) (\<lambda>shape.
     bnd (dict_args args ''dtype'') (\<lambda>dtype.
     bnd (reads tg_device) (\<lambda>dev.
     bnd (lift (load_array (hostl L) (hd blobs) dtype (PList shape))) (\<lambda>arr.
     bnd (lift (wire_in L arr dtype dev)) (\<lambda>tensor.
     let nbytes = length (tobytes (hostl L) arr) in
     bnd (put_buffer tensor (PList shape) dtype (int nbytes)) (\<lambda>bid.
     bnd (upd_stat (\<lambda>s. s\<lparr>upload_bytes := upload_bytes s + nbytes\<rparr>)) (\<lambda>_.
     ret (PDict [(''id'', PInt bid), (''shape'', PList shape), (''dtype'', dtype)], [])))))))))"

definition cmd_download :: "('t, 'h) lib \<Rightarrow> py \<Rightarrow> byte list list \<Rightarrow> ('t, reply) wrun" where
  "cmd_download L args _ =
     bnd (dict_args args ''id'') (\<lambda>i.
     bnd (reads (\<lambda>w. get (registry w) i)) (\<lambda>r.
     bnd (lift r) (\<lambda>b.
     bnd (lift (download_array L (b_tensor b) (PStr (b_dtype b)))) (\<lambda>data.
     bnd (add_download (length data)) (\<lambda>_.
     ret (PDict [(''shape'', PList (b_shape b)), (''dtype'', PStr (b_dtype b))], [data]))))))"

definition cmd_release :: "py \<Rightarrow> byte list list \<Rightarrow> ('t, reply) wrun" where
  "cmd_release args _ =
     bnd (lift (py_get args ''ids'' (PList []))) (\<lambda>ids.
     bnd (reads (\<lambda>w. release (registry w) ids)) (\<lambda>(n, r).
     bnd (modify (\<lambda>w. w\<lparr>registry := r\<rparr>)) (\<lambda>_.
     bnd (lift n) (\<lambda>removed. ret (PDict [(''released'', PInt removed)], [])))))"

definition cmd_release_executable :: "py \<Rightarrow> byte list list \<Rightarrow> ('t, reply) wrun" where
  "cmd_release_executable args _ =
     bnd (lift (py_get args ''ids'' (PList []))) (\<lambda>ids.
     bnd (reads (\<lambda>w. exec_release (execs w) ids)) (\<lambda>(n, r).
     bnd (modify (\<lambda>w. w\<lparr>execs := r\<rparr>)) (\<lambda>_.
     bnd (lift n) (\<lambda>removed. ret (PDict [(''released'', PInt removed)], [])))))"

subsection \<open>stats, synchronize, shutdown\<close>

definition cmd_stats :: "py \<Rightarrow> byte list list \<Rightarrow> ('t, reply) wrun" where
  "cmd_stats _ _ = reads (\<lambda>w. (PDict (stats_dict (stat w) @
     map (\<lambda>k. (k, PInt (int (while_stats w k)))) WHILE_STATS @
     [(''buffer_count'', PInt (int (count (registry w)))), (''buffer_bytes'', PInt (total_bytes (registry w))),
      (''executable_count'', PInt (int (exec_count (execs w)))), (''generation'', PInt (generation w))]), []))"

definition cmd_synchronize :: "('t, 'h) lib \<Rightarrow> py \<Rightarrow> byte list list \<Rightarrow> ('t, reply) wrun" where
  "cmd_synchronize L _ _ =
     bnd (reads tg_device) (\<lambda>dev. bnd (lift (sync L dev)) (\<lambda>_. ret (PDict [], [])))"

definition cmd_shutdown :: "py \<Rightarrow> byte list list \<Rightarrow> ('t, reply) wrun" where
  "cmd_shutdown _ _ = bnd (modify (\<lambda>w. w\<lparr>should_stop := True\<rparr>)) (\<lambda>_. ret (PDict [], []))"

subsection \<open>Dispatch\<close>

definition dispatch :: "('t, 'h) lib \<Rightarrow> (string \<times> (py \<Rightarrow> byte list list \<Rightarrow> ('t, reply) wrun)) list" where
  "dispatch L =
     [(''hello'', cmd_hello L), (''device_info'', cmd_device_info L), (''compile'', cmd_compile L),
      (''execute'', cmd_execute L), (''run_node'', cmd_run_node L), (''upload'', cmd_upload L),
      (''download'', cmd_download L), (''release'', cmd_release),
      (''release_executable'', cmd_release_executable), (''stats'', cmd_stats),
      (''synchronize'', cmd_synchronize L), (''shutdown'', cmd_shutdown)]"

definition error_response :: "('t, 'h) lib \<Rightarrow> environ \<Rightarrow> exn \<Rightarrow> py" where
  "error_response L env exc =
     (let tb = (if env ''NX_TINYGRAD_DEBUG_TRACEBACK'' = Some ''1'' then PStr (traceback L exc) else PNone);
          (klass, message, details) =
            (case exc of WorkerErr c m d \<Rightarrow> (error_class c, m, d) | PyErr n m \<Rightarrow> (n, m, []))
      in PDict [(''ok'', PBool False), (''error'', PDict [(''class'', PStr klass), (''message'', PStr message),
           (''details'', PDict details), (''python_traceback'', tb)])])"

definition ok_response :: "py \<Rightarrow> py" where
  "ok_response result = PDict [(''ok'', PBool True), (''result'', result)]"

definition handle :: "('t, 'h) lib \<Rightarrow> py \<Rightarrow> byte list list \<Rightarrow> ('t, reply) wrun" where
  "handle L meta blobs =
     bnd (lift (py_get meta ''command'' PNone)) (\<lambda>command.
     bnd (lift (py_get meta ''args'' PNone)) (\<lambda>args0.
     bnd (lift (table_find (dispatch L) command)) (\<lambda>fn.
     bnd (reads environment) (\<lambda>env.
     case fn of
       None \<Rightarrow> ret (error_response L env (WorkerErr ProtocolErrorC ''unknown command: {command!r}'' [(''command'', command)]), [])
     | Some f \<Rightarrow>
         catch (bnd (f (py_or args0 (PDict [])) blobs) (\<lambda>(result, out_blobs). ret (ok_response result, out_blobs)))
           (\<lambda>exc. bnd (reads environment) (\<lambda>env'. ret (error_response L env' exc, [])))))))"

subsection \<open>The main loop\<close>

text \<open>
  The loop's state is what is left of stdin, what was written to stdout and the worker. An exception
  that leaves the loop ends the process with status 1. \<open>None\<close> is out of fuel.
\<close>

fun main_loop :: "nat \<Rightarrow> ('t, 'h) lib \<Rightarrow> stream \<Rightarrow> byte list \<Rightarrow> 't worker \<Rightarrow> (int \<times> byte list \<times> 't worker) option" where
  "main_loop 0 L inp out w = None"
| "main_loop (Suc k) L inp out w =
     (case read_packet inp of
        Inl (WorkerErr ProtocolErrorC _ _) \<Rightarrow> Some (2, out, w)
      | Inl _ \<Rightarrow> Some (1, out, w)
      | Inr (None, _) \<Rightarrow> Some (0, out, w)
      | Inr (Some payload, inp') \<Rightarrow>
          (case decode_frame (loads L) payload of
             Inl (WorkerErr ProtocolErrorC _ _) \<Rightarrow> Some (2, out, w)
           | Inl _ \<Rightarrow> Some (1, out, w)
           | Inr (req_id, meta, blobs) \<Rightarrow>
               (case handle L meta blobs w of
                  None \<Rightarrow> None
                | Some (Inl _, w') \<Rightarrow> Some (1, out, w')
                | Some (Inr (rmeta, rblobs), w') \<Rightarrow>
                    (case rbind (encode_frame (dumps L) req_id rmeta rblobs) (write_packet out) of
                       Inl _ \<Rightarrow> Some (1, out, w')
                     | Inr out' \<Rightarrow> if should_stop w' then Some (0, out', w') else main_loop k L inp' out' w'))))"

definition main :: "nat \<Rightarrow> ('t, 'h) lib \<Rightarrow> environ \<Rightarrow> int \<Rightarrow> stream \<Rightarrow> (int \<times> byte list \<times> 't worker) option" where
  "main k L env gen inp =
     (case configure_environment env of (parsed, env') \<Rightarrow> main_loop k L inp [] (new_handler parsed env' gen))"

end
