(* ===== verification/JsonText.thy ===== *)
theory JsonText
  imports Protocol
begin

text \<open>
  The JSON text of frame metadata: \<open>json.dumps(meta, separators=(",", ":")).encode()\<close> and
  \<open>json.loads(text.decode())\<close> of the Python standard library, on the values of \<open>PyVal\<close>. Output is ASCII
  (\<open>ensure_ascii\<close>): other characters become \<open>\uXXXX\<close> escapes, beyond the basic plane a surrogate pair.
  A number with a fraction or an exponent is a float. Its decimal is kept exactly, where Python
  rounds to the nearest double: the two agree on every text \<open>repr\<close> prints. The nesting limit of
  Python's recursion is not modelled: the parser's fuel grows with the text. The section ends with the
  round trip and the interpretation of \<open>json_codec\<close>.
\<close>

subsection \<open>UTF-8\<close>

abbreviation ord :: "char \<Rightarrow> nat" where
  "ord \<equiv> of_char"

definition cont :: "char \<Rightarrow> bool" where
  "cont c = (128 \<le> ord c \<and> ord c < 192)"

fun utf8_enc :: "nat \<Rightarrow> string" where
  "utf8_enc cp =
     (if cp < 128 then [char_of cp]
      else if cp < 2048 then [char_of (192 + cp div 64), char_of (128 + cp mod 64)]
      else if cp < 65536 then
        [char_of (224 + cp div 4096), char_of (128 + cp div 64 mod 64), char_of (128 + cp mod 64)]
      else [char_of (240 + cp div 262144), char_of (128 + cp div 4096 mod 64),
        char_of (128 + cp div 64 mod 64), char_of (128 + cp mod 64)])"

definition surrogate :: "nat \<Rightarrow> bool" where
  "surrogate cp = (55296 \<le> cp \<and> cp < 57344)"

text \<open>The first character of a text: its code point and what follows.\<close>

fun utf8_head :: "string \<Rightarrow> (nat \<times> string) option" where
  "utf8_head [] = None"
| "utf8_head (c # cs) =
     (if ord c < 128 then Some (ord c, cs)
      else if 194 \<le> ord c \<and> ord c < 224 then
        (case cs of c1 # r \<Rightarrow>
           if cont c1 then Some ((ord c - 192) * 64 + (ord c1 - 128), r) else None
         | _ \<Rightarrow> None)
      else if 224 \<le> ord c \<and> ord c < 240 then
        (case cs of c1 # c2 # r \<Rightarrow>
           let cp = (ord c - 224) * 4096 + (ord c1 - 128) * 64 + (ord c2 - 128)
           in if cont c1 \<and> cont c2 \<and> 2048 \<le> cp \<and> \<not> surrogate cp then Some (cp, r) else None
         | _ \<Rightarrow> None)
      else if 240 \<le> ord c \<and> ord c < 245 then
        (case cs of c1 # c2 # c3 # r \<Rightarrow>
           let cp = (ord c - 240) * 262144 + (ord c1 - 128) * 4096 + (ord c2 - 128) * 64 + (ord c3 - 128)
           in if cont c1 \<and> cont c2 \<and> cont c3 \<and> 65536 \<le> cp \<and> cp < 1114112 then Some (cp, r) else None
         | _ \<Rightarrow> None)
      else None)"

declare utf8_enc.simps [simp del] utf8_head.simps [simp del]

lemma ord_less [simp]: "ord c < 256"
  using nat_of_char_less_256 by simp

lemma base64_2:
  assumes "y < (64 :: nat)"
  shows "(x * 64 + y) div 64 = x" "(x * 64 + y) mod 64 = y"
  using assms by simp_all

lemma base64_3:
  assumes "y < 64" and "z < (64 :: nat)"
  shows "(x * 4096 + y * 64 + z) div 4096 = x" "(x * 4096 + y * 64 + z) div 64 mod 64 = y"
    "(x * 4096 + y * 64 + z) mod 64 = z"
proof -
  have n: "x * 4096 + y * 64 + z = (x * 64 + y) * 64 + z" by simp
  have d: "k div 4096 = k div 64 div 64" for k :: nat by (simp flip: div_mult2_eq)
  show "(x * 4096 + y * 64 + z) div 4096 = x" "(x * 4096 + y * 64 + z) div 64 mod 64 = y"
    "(x * 4096 + y * 64 + z) mod 64 = z"
    unfolding n d using assms by (simp_all only: base64_2)
qed

lemma base64_4:
  assumes "y < 64" and "z < 64" and "w < (64 :: nat)"
  shows "(x * 262144 + y * 4096 + z * 64 + w) div 262144 = x"
    "(x * 262144 + y * 4096 + z * 64 + w) div 4096 mod 64 = y"
    "(x * 262144 + y * 4096 + z * 64 + w) div 64 mod 64 = z"
    "(x * 262144 + y * 4096 + z * 64 + w) mod 64 = w"
proof -
  have n: "x * 262144 + y * 4096 + z * 64 + w = ((x * 64 + y) * 64 + z) * 64 + w" by simp
  have d: "k div 262144 = k div 64 div 64 div 64" "k div 4096 = k div 64 div 64" for k :: nat
    by (simp_all flip: div_mult2_eq)
  show "(x * 262144 + y * 4096 + z * 64 + w) div 262144 = x"
    "(x * 262144 + y * 4096 + z * 64 + w) div 4096 mod 64 = y"
    "(x * 262144 + y * 4096 + z * 64 + w) div 64 mod 64 = z"
    "(x * 262144 + y * 4096 + z * 64 + w) mod 64 = w"
    unfolding n d using assms by (simp_all only: base64_2)
qed

lemma cont_less: "cont c \<Longrightarrow> ord c - 128 < 64 \<and> 128 \<le> ord c"
  by (auto simp: cont_def)

lemma utf8_head_enc:
  assumes "utf8_head s = Some (cp, r)"
  shows "s = utf8_enc cp @ r \<and> cp < 1114112 \<and> \<not> surrogate cp"
proof (cases s)
  case (Cons c cs)
  note c = Cons
  show ?thesis
  proof -
    consider "ord c < 128" | "194 \<le> ord c" "ord c < 224" | "224 \<le> ord c" "ord c < 240"
      | "240 \<le> ord c" "ord c < 245"
      using assms c by (fastforce simp: utf8_head.simps split: if_splits)
    then show ?thesis
    proof cases
      case 1
      with assms c show ?thesis
        by (auto simp: utf8_head.simps utf8_enc.simps surrogate_def)
    next
      case 2
      with assms c obtain c1 where cs: "cs = c1 # r" "cont c1"
        and cp: "cp = (ord c - 192) * 64 + (ord c1 - 128)"
        by (auto simp: utf8_head.simps split: list.splits if_splits)
      moreover have "ord c1 - 128 < 64" using cs by (auto simp: cont_def)
      moreover from this cp 2 have "cp div 64 = ord c - 192" "cp mod 64 = ord c1 - 128"
        "128 \<le> cp" "cp < 2048" by simp_all
      ultimately show ?thesis using 2 c
        by (simp add: utf8_enc.simps surrogate_def cont_def)
    next
      case 3
      with assms c obtain c1 c2 where cs: "cs = c1 # c2 # r" "cont c1" "cont c2"
        and cp: "cp = (ord c - 224) * 4096 + (ord c1 - 128) * 64 + (ord c2 - 128)"
        and "2048 \<le> cp" "\<not> surrogate cp"
        by (auto simp: utf8_head.simps Let_def split: list.splits if_splits)
      note b = cs(2,3) [THEN cont_less]
      have "cp div 4096 = ord c - 224" "cp div 64 mod 64 = ord c1 - 128" "cp mod 64 = ord c2 - 128"
        unfolding cp by (rule base64_3; use b in blast)+
      moreover have "cp < 65536" using b 3 cp by linarith
      ultimately have "utf8_enc cp = [c, c1, c2]" using b 3 \<open>2048 \<le> cp\<close>
        by (simp add: utf8_enc.simps [of cp])
      with c cs \<open>cp < 65536\<close> \<open>\<not> surrogate cp\<close> show ?thesis by simp
    next
      case 4
      with assms c obtain c1 c2 c3 where cs: "cs = c1 # c2 # c3 # r" "cont c1" "cont c2" "cont c3"
        and cp: "cp = (ord c - 240) * 262144 + (ord c1 - 128) * 4096 + (ord c2 - 128) * 64 + (ord c3 - 128)"
        and "65536 \<le> cp" "cp < 1114112"
        by (auto simp: utf8_head.simps Let_def split: list.splits if_splits)
      note b = cs(2-4) [THEN cont_less]
      have "cp div 262144 = ord c - 240" "cp div 4096 mod 64 = ord c1 - 128"
        "cp div 64 mod 64 = ord c2 - 128" "cp mod 64 = ord c3 - 128"
        unfolding cp by (rule base64_4; use b in blast)+
      then have "utf8_enc cp = [c, c1, c2, c3]" using b 4 \<open>65536 \<le> cp\<close>
        by (simp add: utf8_enc.simps [of cp])
      with c cs \<open>65536 \<le> cp\<close> \<open>cp < 1114112\<close> show ?thesis by (simp add: surrogate_def)
    qed
  qed
qed (use assms in \<open>simp add: utf8_head.simps\<close>)

lemma utf8_head_length: "utf8_head s = Some (cp, r) \<Longrightarrow> length r < length s"
  by (auto dest!: utf8_head_enc simp: utf8_enc.simps)

function utf8_ok :: "string \<Rightarrow> bool" where
  "utf8_ok s = (if s = [] then True
     else (case utf8_head s of None \<Rightarrow> False | Some (cp, r) \<Rightarrow> utf8_ok r))"
  by pat_completeness auto
termination
  by (relation "measure length") (auto dest: utf8_head_length)

declare utf8_ok.simps [simp del]

subsection \<open>Numbers\<close>

definition digit :: "nat \<Rightarrow> char" where
  "digit d = char_of (48 + d)"

definition is_digit :: "char \<Rightarrow> bool" where
  "is_digit c = (48 \<le> ord c \<and> ord c < 58)"

fun digits :: "nat \<Rightarrow> string" where
  "digits n = (if n < 10 then [digit n] else digits (n div 10) @ [digit (n mod 10)])"

declare digits.simps [simp del]

definition dec_nat :: "string \<Rightarrow> nat" where
  "dec_nat s = foldl (\<lambda>a c. 10 * a + (ord c - 48)) 0 s"

definition dump_int :: "int \<Rightarrow> string" where
  "dump_int i = (if i < 0 then CHR ''-'' # digits (nat (- i)) else digits (nat i))"

text \<open>\<open>float.__repr__\<close> of a decimal with mantissa \<open>m\<close> and exponent \<open>e\<close>: \<open>decpt\<close> is the place of
  its decimal point.\<close>

definition repr_exp :: "int \<Rightarrow> string" where
  "repr_exp x = CHR ''e'' # (if x < 0 then CHR ''-'' else CHR ''+'') #
     (let ds = digits (nat \<bar>x\<bar>) in if length ds < 2 then CHR ''0'' # ds else ds)"

definition repr_dec :: "nat \<Rightarrow> int \<Rightarrow> string" where
  "repr_dec m e =
     (let ds = digits m; n = int (length ds); decpt = n + e in
      if -4 \<le> decpt - 1 \<and> decpt - 1 < 16 then
        (if decpt \<le> 0 then ''0.'' @ replicate (nat (- decpt)) CHR ''0'' @ ds
         else if decpt < n then take (nat decpt) ds @ CHR ''.'' # drop (nat decpt) ds
         else ds @ replicate (nat (decpt - n)) CHR ''0'' @ ''.0'')
      else hd ds # (if tl ds = [] then [] else CHR ''.'' # tl ds) @ repr_exp (decpt - 1))"

fun dump_float :: "flt \<Rightarrow> string" where
  "dump_float (FDec neg m e) = (if neg then CHR ''-'' # repr_dec m e else repr_dec m e)"
| "dump_float (FInf neg) = (if neg then ''-Infinity'' else ''Infinity'')"
| "dump_float FNaN = ''NaN''"

text \<open>Stripping trailing zeros.\<close>

function norm_dec :: "nat \<Rightarrow> int \<Rightarrow> nat \<times> int" where
  "norm_dec m e = (if m = 0 then (0, 0) else if m mod 10 = 0 then norm_dec (m div 10) (e + 1) else (m, e))"
  by pat_completeness auto
termination
  by (relation "measure fst") auto

declare norm_dec.simps [simp del]

definition parse_frac :: "string \<Rightarrow> string \<times> string" where
  "parse_frac s = (case s of c # r \<Rightarrow>
     if c = CHR ''.'' \<and> takeWhile is_digit r \<noteq> [] then (takeWhile is_digit r, dropWhile is_digit r)
     else ([], s) | [] \<Rightarrow> ([], s))"

definition parse_exp :: "string \<Rightarrow> int option \<times> string" where
  "parse_exp s = (case s of c # r \<Rightarrow>
     if c = CHR ''e'' \<or> c = CHR ''E'' then
       (let sgn = (case r of d # _ \<Rightarrow> d = CHR ''-'' | [] \<Rightarrow> False);
            r' = (case r of d # t \<Rightarrow> if d = CHR ''-'' \<or> d = CHR ''+'' then t else r | [] \<Rightarrow> r);
            ds = takeWhile is_digit r'
        in if ds = [] then (None, s)
           else (Some (if sgn then - int (dec_nat ds) else int (dec_nat ds)), dropWhile is_digit r'))
     else (None, s) | [] \<Rightarrow> (None, s))"

text \<open>The integer part: a single 0 or a run of digits that does not start with 0.\<close>

definition parse_intpart :: "string \<Rightarrow> (string \<times> string) option" where
  "parse_intpart s = (case s of c # r \<Rightarrow>
     if c = CHR ''0'' then Some ([c], r)
     else if is_digit c then Some (takeWhile is_digit s, dropWhile is_digit s) else None
   | [] \<Rightarrow> None)"

definition parse_number :: "string \<Rightarrow> (py \<times> string) option" where
  "parse_number s =
     (let neg = (case s of c # _ \<Rightarrow> c = CHR ''-'' | [] \<Rightarrow> False); s1 = (if neg then tl s else s) in
      case parse_intpart s1 of None \<Rightarrow> None
      | Some (ip, s2) \<Rightarrow>
        (case parse_frac s2 of (fr, s3) \<Rightarrow>
         (case parse_exp s3 of (ex, s4) \<Rightarrow>
            if fr = [] \<and> ex = None
            then Some (PInt (if neg then - int (dec_nat ip) else int (dec_nat ip)), s4)
            else (case norm_dec (dec_nat (ip @ fr)) ((case ex of None \<Rightarrow> 0 | Some x \<Rightarrow> x) - int (length fr)) of
                    (m, e) \<Rightarrow> Some (PFloat (FDec neg m e), s4)))))"

lemma dec_nat_append: "dec_nat (xs @ ys) = dec_nat xs * 10 ^ length ys + dec_nat ys"
proof -
  have "foldl (\<lambda>a c. 10 * a + (ord c - 48)) a ys = a * 10 ^ length ys + dec_nat ys" for a
    unfolding dec_nat_def
  proof (induction ys rule: rev_induct)
    case (snoc y ys)
    then show ?case by (simp add: distrib_left)
  qed simp
  then show ?thesis by (simp add: dec_nat_def [of "xs @ ys"] dec_nat_def [of xs])
qed

lemma dec_nat_Nil [simp]: "dec_nat [] = 0"
  by (simp add: dec_nat_def)

lemma dec_nat_zeros [simp]: "dec_nat (replicate n CHR ''0'') = 0"
  by (induction n) (simp_all add: dec_nat_def)

lemma dec_nat_0Cons [simp]: "dec_nat (CHR ''0'' # s) = dec_nat s"
  by (simp add: dec_nat_def)

lemma is_digit_0 [simp]: "is_digit CHR ''0''"
  by (simp add: is_digit_def)

lemma ord_digit: "d < 10 \<Longrightarrow> ord (digit d) = 48 + d"
  by (simp add: digit_def)

lemma is_digit_digit: "d < 10 \<Longrightarrow> is_digit (digit d)"
  by (simp add: is_digit_def ord_digit)

lemma digits_is_digit: "\<forall>c \<in> set (digits n). is_digit c"
proof (induction n rule: digits.induct)
  case (1 n)
  then show ?case
    by (cases "n < 10") (auto simp: digits.simps [of n] is_digit_digit)
qed

lemma digits_nonempty [simp]: "digits n \<noteq> []"
  by (simp add: digits.simps [of n])

lemma dec_nat_digits: "dec_nat (digits n) = n"
proof (induction n rule: digits.induct)
  case (1 n)
  have one: "d < 10 \<Longrightarrow> dec_nat [digit d] = d" for d by (simp add: dec_nat_def ord_digit)
  show ?case
  proof (cases "n < 10")
    case False
    with "1.IH" have "dec_nat (digits (n div 10)) = n div 10" by simp
    with False show ?thesis by (simp add: digits.simps [of n] dec_nat_append one)
  qed (simp add: digits.simps [of n] one)
qed

lemma hd_digits: "0 < n \<Longrightarrow> hd (digits n) \<noteq> CHR ''0''"
proof (induction n rule: digits.induct)
  case (1 n)
  have "digit d \<noteq> CHR ''0''" if "0 < d" "d < 10" for d
    using ord_digit [OF that(2)] that(1) by force
  with 1 show ?case by (cases "n < 10") (simp_all add: digits.simps [of n])
qed

lemma digits_0: "digits 0 = ''0''"
  by code_simp

text \<open>A text that does not go on with a digit ends a run of digits.\<close>

definition no_digit :: "string \<Rightarrow> bool" where
  "no_digit r = (r = [] \<or> \<not> is_digit (hd r))"

lemma span_digits:
  assumes "\<forall>c \<in> set ds. is_digit c" and "no_digit r"
  shows "takeWhile is_digit (ds @ r) = ds" "dropWhile is_digit (ds @ r) = r"
  using assms by (induction ds) (cases r; auto simp: no_digit_def)+

lemma parse_intpart_digits:
  assumes "no_digit r"
  shows "parse_intpart (digits n @ r) = Some (digits n, r)"
proof (cases "n = 0")
  case False
  obtain c cs where cs: "digits n = c # cs" by (cases "digits n") auto
  have "c \<noteq> CHR ''0''" "is_digit c"
    using hd_digits [of n] False digits_is_digit [of n] cs by auto
  with span_digits [OF digits_is_digit assms, of n] cs show ?thesis
    by (simp add: parse_intpart_def)
qed (simp add: parse_intpart_def digits_0)

lemma norm_dec_id: "m mod 10 \<noteq> 0 \<Longrightarrow> norm_dec m e = (m, e)"
  by (subst norm_dec.simps) auto

lemma norm_dec_pow: "norm_dec (m * 10 ^ k) (e - int k) = norm_dec m e"
proof (induction k arbitrary: e)
  case (Suc k)
  show ?case
  proof (cases "m = 0")
    case False
    then have "norm_dec (m * 10 ^ Suc k) (e - int (Suc k)) = norm_dec (m * 10 ^ k) (e - int k)"
      by (subst norm_dec.simps) simp
    with Suc.IH show ?thesis by simp
  qed (simp add: norm_dec.simps)
qed simp

definition num_end :: "string \<Rightarrow> bool" where
  "num_end r = (r = [] \<or> \<not> is_digit (hd r) \<and> hd r \<notin> {CHR ''.'', CHR ''e'', CHR ''E''})"

lemma num_end_no_digit: "num_end r \<Longrightarrow> no_digit r"
  by (auto simp: num_end_def no_digit_def)

lemma parse_exp_end: "num_end r \<Longrightarrow> parse_exp r = (None, r)"
  by (cases r) (auto simp: num_end_def parse_exp_def)

lemma parse_frac_end: "num_end r \<or> (\<exists>x t. r = repr_exp x @ t) \<Longrightarrow> parse_frac r = ([], r)"
  by (cases r) (auto simp: num_end_def parse_frac_def repr_exp_def)

lemma parse_frac_digits:
  assumes "\<forall>c \<in> set fr. is_digit c" and "fr \<noteq> []" and "no_digit r"
  shows "parse_frac (CHR ''.'' # fr @ r) = (fr, r)"
  using span_digits [OF assms(1,3)] assms(2) by (simp add: parse_frac_def)

lemma is_digit_not [simp]:
  "\<not> is_digit CHR ''-''" "\<not> is_digit CHR ''+''" "\<not> is_digit CHR ''.''" "\<not> is_digit CHR ''e''"
  by (simp_all add: is_digit_def)

lemma repr_exp_parts:
  obtains es where "repr_exp x = CHR ''e'' # (if x < 0 then CHR ''-'' else CHR ''+'') # es"
    "\<forall>c \<in> set es. is_digit c" "es \<noteq> []" "dec_nat es = nat \<bar>x\<bar>"
  using digits_is_digit [of "nat \<bar>x\<bar>"] dec_nat_digits [of "nat \<bar>x\<bar>"] is_digit_0
  by (cases "length (digits (nat \<bar>x\<bar>)) < 2") (auto simp: repr_exp_def Let_def simp del: abs_zero)

lemma parse_exp_repr:
  assumes "no_digit r"
  shows "parse_exp (repr_exp x @ r) = (Some x, r)"
proof -
  obtain es where es: "repr_exp x = CHR ''e'' # (if x < 0 then CHR ''-'' else CHR ''+'') # es"
    "\<forall>c \<in> set es. is_digit c" "es \<noteq> []" "dec_nat es = nat \<bar>x\<bar>" by (rule repr_exp_parts)
  from span_digits [OF es(2) assms] es show ?thesis by (auto simp: parse_exp_def Let_def)
qed

lemma parse_intpart_gen:
  assumes "\<forall>c \<in> set ip. is_digit c" and "ip \<noteq> []" and "hd ip \<noteq> CHR ''0''" and "no_digit r"
  shows "parse_intpart (ip @ r) = Some (ip, r)"
proof -
  from assms(2) obtain c cs where "ip = c # cs" by (cases ip) auto
  with span_digits [OF assms(1,4)] assms(1,3) show ?thesis by (auto simp: parse_intpart_def)
qed

lemma parse_number_parts:
  assumes "parse_intpart (ip @ s2) = Some (ip, s2)" and "ip \<noteq> []" and "is_digit (hd ip)"
    and "parse_frac s2 = (fr, s3)" and "parse_exp s3 = (ex, s4)" and "fr \<noteq> [] \<or> ex \<noteq> None"
    and "norm_dec (dec_nat (ip @ fr)) ((case ex of None \<Rightarrow> 0 | Some x \<Rightarrow> x) - int (length fr)) = (m, e)"
  shows "parse_number ((if neg then CHR ''-'' # ip else ip) @ s2) = Some (PFloat (FDec neg m e), s4)"
proof -
  have "hd ip \<noteq> CHR ''-''" using assms(3) by auto
  then obtain c cs where "ip = c # cs" "c \<noteq> CHR ''-''" using assms(2) by (cases ip) auto
  with assms show ?thesis by (auto simp: parse_number_def Let_def)
qed

definition flt_canonical :: "flt \<Rightarrow> bool" where
  "flt_canonical f = (case f of FDec _ m e \<Rightarrow> m mod 10 \<noteq> 0 \<or> m = 0 \<and> e = 0 | _ \<Rightarrow> True)"

lemma norm_dec_canonical:
  assumes "flt_canonical (FDec neg m e)"
  shows "norm_dec (m * 10 ^ k) (e - int k) = (m, e)"
  using assms norm_dec_pow [of m k e] norm_dec_id [of m e]
  by (auto simp: flt_canonical_def norm_dec.simps [of 0])

lemma parse_number_float:
  assumes can: "flt_canonical (FDec neg m e)" and "num_end r"
  shows "parse_number (dump_float (FDec neg m e) @ r) = Some (PFloat (FDec neg m e), r)"
proof -
  let ?ds = "digits m" and ?sg = "\<lambda>ip. if neg then CHR ''-'' # ip else ip"
  let ?n = "int (length ?ds)"
  let ?pt = "?n + e"
  note dig = digits_is_digit [of m] and val = dec_nat_digits [of m]
  note nd = num_end_no_digit [OF assms(2)] and pe = parse_exp_end [OF assms(2)]
  note norm = norm_dec_canonical [OF can]
  have z: "is_digit CHR ''0''" by (simp add: is_digit_def)
  have dot: "no_digit (CHR ''.'' # t)" for t by (simp add: no_digit_def)
  have hd_ds: "hd ?ds \<noteq> CHR ''0''" if "m \<noteq> 0" using hd_digits [of m] that by simp
  show ?thesis
  proof (cases "-4 \<le> ?pt - 1 \<and> ?pt - 1 < 16")
    case fixed: True
    show ?thesis
    proof (cases "?pt \<le> 0")
      case True
      let ?fr = "replicate (nat (- ?pt)) CHR ''0'' @ ?ds"
      have fr: "\<forall>c \<in> set ?fr. is_digit c" "?fr \<noteq> []" using dig z by auto
      have v: "dec_nat (''0'' @ ?fr) = m * 10 ^ 0" "0 - int (length ?fr) = e - int 0"
        using True val by (simp_all add: dec_nat_append)
      have "parse_number (?sg ''0'' @ CHR ''.'' # ?fr @ r) = Some (PFloat (FDec neg m e), r)"
        by (rule parse_number_parts [OF _ _ _ parse_frac_digits [OF fr nd] pe])
          (use norm [of 0] v fr(2) z in \<open>simp_all add: parse_intpart_def del: append_is_Nil_conv\<close>)
      with fixed True show ?thesis by (cases neg) (simp_all add: repr_dec_def Let_def)
    next
      case pos: False
      show ?thesis
      proof (cases "?pt < ?n")
        case True
        let ?ip = "take (nat ?pt) ?ds" and ?fr = "drop (nat ?pt) ?ds"
        have m0: "m \<noteq> 0" using can True by (auto simp: flt_canonical_def)
        have ip: "\<forall>c \<in> set ?ip. is_digit c" "?ip \<noteq> []" "hd ?ip \<noteq> CHR ''0''" "is_digit (hd ?ip)"
          using dig pos hd_ds [OF m0] by (auto dest: in_set_takeD)
        have fr: "\<forall>c \<in> set ?fr. is_digit c" "?fr \<noteq> []"
          using dig True pos by (auto dest: in_set_dropD)
        have v: "dec_nat (?ip @ ?fr) = m * 10 ^ 0" "0 - int (length ?fr) = e - int 0"
          using True pos val by simp_all
        have "parse_number (?sg ?ip @ CHR ''.'' # ?fr @ r) = Some (PFloat (FDec neg m e), r)"
          by (rule parse_number_parts [OF parse_intpart_gen [OF ip(1-3) dot] ip(2,4)
                parse_frac_digits [OF fr nd] pe]) (use norm [of 0] v fr(2) in simp_all)
        with fixed pos True show ?thesis by (cases neg) (simp_all add: repr_dec_def Let_def)
      next
        case False
        let ?ip = "?ds @ replicate (nat (?pt - ?n)) CHR ''0''"
        have ip: "\<forall>c \<in> set ?ip. is_digit c" "?ip \<noteq> []" "is_digit (hd ?ip)"
          using dig z by (auto simp: hd_append)
        have "parse_intpart (?ip @ CHR ''.'' # ''0'' @ r) = Some (?ip, CHR ''.'' # ''0'' @ r)"
        proof (cases "m = 0")
          case True
          with can show ?thesis
            by (auto simp: flt_canonical_def digits_0 parse_intpart_def)
        next
          case False
          with ip hd_ds dot show ?thesis by (intro parse_intpart_gen) (auto simp: hd_append)
        qed
        note pi = this
        have v: "dec_nat (?ip @ ''0'') = m * 10 ^ (nat e + 1)" "0 - int (length ''0'') = e - int (nat e + 1)"
          using False val by (simp_all add: dec_nat_append nat_add_distrib)
        have pf: "parse_frac (CHR ''.'' # ''0'' @ r) = (''0'', r)"
          by (rule parse_frac_digits) (use z nd in auto)
        have "parse_number (?sg ?ip @ CHR ''.'' # ''0'' @ r) = Some (PFloat (FDec neg m e), r)"
          by (rule parse_number_parts [OF pi ip(2,3) pf pe]) (use norm [of "nat e + 1"] v in simp_all)
        with fixed pos False show ?thesis by (cases neg) (simp_all add: repr_dec_def Let_def)
      qed
    qed
  next
    case sci: False
    let ?ip = "[hd ?ds]" and ?fr = "tl ?ds" and ?x = "repr_exp (?pt - 1)"
    have ds: "?ds = hd ?ds # tl ?ds" by simp
    have m0: "m \<noteq> 0" using can sci by (auto simp: flt_canonical_def digits_0)
    have ip: "\<forall>c \<in> set ?ip. is_digit c" "?ip \<noteq> []" "hd ?ip \<noteq> CHR ''0''" "is_digit (hd ?ip)"
      using dig hd_ds [OF m0] by auto
    have fr: "\<forall>c \<in> set ?fr. is_digit c" using dig ds by (metis list.set_intros(2))
    have x: "no_digit (?x @ r)" by (simp add: no_digit_def repr_exp_def)
    let ?tail = "(if ?fr = [] then [] else CHR ''.'' # ?fr) @ ?x @ r"
    have pf: "parse_frac ?tail = (?fr, ?x @ r)"
      using parse_frac_digits [OF fr _ x] parse_frac_end [of "?x @ r"] by auto
    have nt: "no_digit ?tail" using x dot by auto
    have v: "dec_nat (?ip @ ?fr) = m * 10 ^ 0" "(?pt - 1) - int (length ?fr) = e - int 0"
      using val ds by (simp_all add: of_nat_diff Suc_le_eq)
    have "parse_number (?sg ?ip @ ?tail) = Some (PFloat (FDec neg m e), r)"
      by (rule parse_number_parts [OF parse_intpart_gen [OF ip(1-3) nt] ip(2,4) pf parse_exp_repr [OF nd]])
        (use norm [of 0] v in simp_all)
    moreover have "repr_dec m e = hd ?ds # (if ?fr = [] then [] else CHR ''.'' # ?fr) @ ?x"
      by (simp only: repr_dec_def Let_def if_not_P [OF sci])
    ultimately show ?thesis by (cases neg) simp_all
  qed
qed

lemma parse_number_int:
  assumes "num_end r"
  shows "parse_number (dump_int i @ r) = Some (PInt i, r)"
proof -
  have ip: "parse_intpart (digits k @ r) = Some (digits k, r)" for k
    by (rule parse_intpart_digits) (rule num_end_no_digit [OF assms])
  have "hd (digits k) \<noteq> CHR ''-''" for k
    using digits_is_digit [of k] by (metis digits_nonempty hd_in_set is_digit_not(1))
  then have "\<exists>c cs. digits k = c # cs \<and> c \<noteq> CHR ''-''" for k
    by (metis digits_nonempty list.exhaust_sel)
  then obtain c cs where "digits (nat i) = c # cs" "c \<noteq> CHR ''-''" by blast
  with ip [of "nat i"] ip [of "nat (- i)"] parse_exp_end [OF assms] parse_frac_end [of r] assms
  show ?thesis using dec_nat_digits [of "nat i"] dec_nat_digits [of "nat (- i)"]
    by (auto simp: parse_number_def dump_int_def Let_def)
qed

subsection \<open>Strings\<close>

definition hexdigit :: "nat \<Rightarrow> char" where
  "hexdigit d = char_of (if d < 10 then 48 + d else 87 + d)"

definition hex4 :: "nat \<Rightarrow> string" where
  "hex4 n = [hexdigit (n div 4096 mod 16), hexdigit (n div 256 mod 16), hexdigit (n div 16 mod 16),
     hexdigit (n mod 16)]"

definition unhex :: "char \<Rightarrow> nat option" where
  "unhex c = (let n = ord c in
     if 48 \<le> n \<and> n < 58 then Some (n - 48)
     else if 97 \<le> n \<and> n < 103 then Some (n - 87)
     else if 65 \<le> n \<and> n < 71 then Some (n - 55) else None)"

definition read_hex4 :: "string \<Rightarrow> (nat \<times> string) option" where
  "read_hex4 s = (case s of a # b # c # d # r \<Rightarrow>
       (case (unhex a, unhex b, unhex c, unhex d) of
          (Some x, Some y, Some z, Some w) \<Rightarrow> Some (x * 4096 + y * 256 + z * 16 + w, r)
        | _ \<Rightarrow> None)
     | _ \<Rightarrow> None)"

definition esc_cp :: "nat \<Rightarrow> string" where
  "esc_cp cp =
     (if cp = 34 then [CHR 0x5C, CHR 0x22]
      else if cp = 92 then [CHR 0x5C, CHR 0x5C]
      else if cp = 10 then [CHR 0x5C, CHR ''n'']
      else if cp = 13 then [CHR 0x5C, CHR ''r'']
      else if cp = 9 then [CHR 0x5C, CHR ''t'']
      else if cp = 12 then [CHR 0x5C, CHR ''f'']
      else if cp = 8 then [CHR 0x5C, CHR ''b'']
      else if 32 \<le> cp \<and> cp < 127 then [char_of cp]
      else if cp < 65536 then CHR 0x5C # CHR ''u'' # hex4 cp
      else CHR 0x5C # CHR ''u'' # hex4 (55296 + (cp - 65536) div 1024) @
           CHR 0x5C # CHR ''u'' # hex4 (56320 + (cp - 65536) mod 1024))"

function esc :: "string \<Rightarrow> string" where
  "esc s = (case utf8_head s of None \<Rightarrow> [] | Some (cp, r) \<Rightarrow> esc_cp cp @ esc r)"
  by pat_completeness auto
termination
  by (relation "measure length") (auto dest: utf8_head_length)

declare esc.simps [simp del]

definition simple_escape :: "char \<Rightarrow> char option" where
  "simple_escape e =
     (if e = CHR 0x22 then Some (CHR 0x22)
      else if e = CHR 0x5C then Some (CHR 0x5C)
      else if e = CHR ''/'' then Some (CHR ''/'')
      else if e = CHR ''b'' then Some (CHR 0x08)
      else if e = CHR ''f'' then Some (CHR 0x0C)
      else if e = CHR ''n'' then Some (CHR 0x0A)
      else if e = CHR ''r'' then Some (CHR 0x0D)
      else if e = CHR ''t'' then Some (CHR 0x09)
      else None)"

definition read_escape :: "string \<Rightarrow> (string \<times> string) option" where
  "read_escape s = (case s of [] \<Rightarrow> None | e # r \<Rightarrow>
     if e = CHR ''u'' then
       (case read_hex4 r of None \<Rightarrow> None | Some (u, r1) \<Rightarrow>
          if 55296 \<le> u \<and> u < 56320 \<and> take 2 r1 = [CHR 0x5C, CHR ''u''] then
            (case read_hex4 (drop 2 r1) of None \<Rightarrow> None | Some (v, r2) \<Rightarrow>
               if 56320 \<le> v \<and> v < 57344
               then Some (utf8_enc (65536 + (u - 55296) * 1024 + (v - 56320)), r2)
               else Some (utf8_enc u, r1))
          else Some (utf8_enc u, r1))
     else map_option (\<lambda>c. ([c], r)) (simple_escape e))"

lemma read_hex4_length: "read_hex4 s = Some (u, r) \<Longrightarrow> length r < length s"
  by (auto simp: read_hex4_def split: list.splits option.splits)

lemma read_escape_length: "read_escape s = Some (x, r) \<Longrightarrow> length r < length s"
  by (auto simp: read_escape_def split: list.splits option.splits if_splits dest!: read_hex4_length)

function unesc :: "string \<Rightarrow> (string \<times> string) option" where
  "unesc s = (case s of [] \<Rightarrow> None | c # r \<Rightarrow>
     if c = CHR 0x22 then Some ([], r)
     else if c = CHR 0x5C then
       (case read_escape r of None \<Rightarrow> None
        | Some (x, r') \<Rightarrow> map_option (\<lambda>(t, r''). (x @ t, r'')) (unesc r'))
     else if ord c < 32 then None
     else map_option (\<lambda>(t, r''). (c # t, r'')) (unesc r))"
  by pat_completeness auto
termination
  by (relation "measure length") (auto dest: read_escape_length)

declare unesc.simps [simp del]

lemma unhex_hexdigit: "d < 16 \<Longrightarrow> unhex (hexdigit d) = Some d"
  by (simp add: unhex_def hexdigit_def)

lemma read_hex4_hex4: "n < 65536 \<Longrightarrow> read_hex4 (hex4 n @ r) = Some (n, r)"
proof -
  assume n: "n < 65536"
  have d: "n div 4096 = n div 16 div 16 div 16" "n div 256 = n div 16 div 16"
    by (simp_all flip: div_mult2_eq)
  have "n div 16 div 16 div 16 < 16" using n by (simp flip: div_mult2_eq)
  have "n div 16 div 16 div 16 * 16 + n div 16 div 16 mod 16 = n div 16 div 16"
    "n div 16 div 16 * 16 + n div 16 mod 16 = n div 16" "n div 16 * 16 + n mod 16 = n"
    by (rule div_mult_mod_eq)+
  then have "n div 4096 * 4096 + n div 256 mod 16 * 256 + n div 16 mod 16 * 16 + n mod 16 = n"
    unfolding d by linarith
  moreover have "n div 4096 mod 16 = n div 4096" "unhex (hexdigit (n div 4096)) = Some (n div 4096)"
    using n by (simp_all add: unhex_hexdigit)
  ultimately show ?thesis by (simp add: read_hex4_def hex4_def unhex_hexdigit)
qed

lemma unesc_esc_cp:
  assumes "cp < 1114112" and "\<not> surrogate cp"
  shows "unesc (esc_cp cp @ r) = map_option (\<lambda>(t, r'). (utf8_enc cp @ t, r')) (unesc r)"
proof -
  consider (short) "cp \<in> {34, 92, 10, 13, 9, 12, 8}" | (plain) "32 \<le> cp" "cp < 127" "cp \<noteq> 34" "cp \<noteq> 92"
    | (u) "cp \<notin> {34, 92, 10, 13, 9, 12, 8}" "\<not> (32 \<le> cp \<and> cp < 127)" "cp < 65536" | (pair) "65536 \<le> cp"
    by force
  then show ?thesis
  proof cases
    case short
    have "char_of (34 :: nat) = CHR 0x22" "char_of (92 :: nat) = CHR 0x5C" "char_of (10 :: nat) = CHR 0x0A"
      "char_of (13 :: nat) = CHR 0x0D" "char_of (9 :: nat) = CHR 0x09" "char_of (12 :: nat) = CHR 0x0C"
      "char_of (8 :: nat) = CHR 0x08" by code_simp+
    with short show ?thesis
      by (auto simp: esc_cp_def unesc.simps [of "CHR 0x5C # _"] read_escape_def simple_escape_def
          utf8_enc.simps)
  next
    case plain
    then have "ord (char_of cp) = cp" by simp
    then have "char_of cp \<noteq> CHR 0x22" "char_of cp \<noteq> CHR 0x5C" "\<not> ord (char_of cp) < 32"
      using plain by (auto dest: arg_cong [where f = ord])
    with plain show ?thesis
      by (auto simp: esc_cp_def unesc.simps [of "char_of cp # _"] utf8_enc.simps)
  next
    case u
    with assms(2) show ?thesis
      by (auto simp: esc_cp_def unesc.simps [of "CHR 0x5C # _"] read_escape_def read_hex4_hex4 surrogate_def)
  next
    case pair
    define a b where "a = (cp - 65536) div 1024" and "b = (cp - 65536) mod 1024"
    then have ab: "cp - 65536 = a * 1024 + b" "b < 1024" by simp_all
    then have "a < 1024" "65536 + a * 1024 + b = cp" using pair assms(1) by simp_all
    then show ?thesis using pair ab
      by (simp add: esc_cp_def unesc.simps [of "CHR 0x5C # _"] read_escape_def read_hex4_hex4
          flip: a_def b_def)
  qed
qed

lemma unesc_esc: "utf8_ok s \<Longrightarrow> unesc (esc s @ CHR 0x22 # r) = Some (s, r)"
proof (induction s rule: utf8_ok.induct)
  case (1 s)
  show ?case
  proof (cases "s = []")
    case False
    with "1.prems" obtain cp t where h: "utf8_head s = Some (cp, t)" "utf8_ok t"
      by (subst (asm) utf8_ok.simps) (auto split: option.splits)
    note e = utf8_head_enc [OF h(1)]
    from "1.IH" [OF False h(1) refl h(2)] have "unesc (esc t @ CHR 0x22 # r) = Some (t, r)" .
    moreover have "esc s = esc_cp cp @ esc t" using h(1) by (subst esc.simps) simp
    ultimately show ?thesis using unesc_esc_cp [of cp "esc t @ CHR 0x22 # r"] e by simp
  qed (simp add: esc.simps utf8_head.simps unesc.simps)
qed

subsection \<open>Values\<close>

fun join_comma :: "string list \<Rightarrow> string" where
  "join_comma [] = []"
| "join_comma [x] = x"
| "join_comma (x # y # ys) = x @ CHR '','' # join_comma (y # ys)"

definition dump_str :: "string \<Rightarrow> string" where
  "dump_str s = CHR 0x22 # esc s @ [CHR 0x22]"

primrec dump :: "py \<Rightarrow> string" where
  "dump PNone = ''null''"
| "dump (PBool b) = (if b then ''true'' else ''false'')"
| "dump (PInt i) = dump_int i"
| "dump (PFloat f) = dump_float f"
| "dump (PStr s) = dump_str s"
| "dump (PList xs) = CHR ''['' # join_comma (map dump xs) @ '']''"
| "dump (PDict kvs) = CHR ''{'' #
     join_comma (map (\<lambda>(k, t). dump_str k @ CHR '':'' # t) (map (map_prod id dump) kvs)) @ ''}''"

definition is_ws :: "char \<Rightarrow> bool" where
  "is_ws c = (c = CHR '' '' \<or> c = CHR 0x09 \<or> c = CHR 0x0A \<or> c = CHR 0x0D)"

abbreviation skip_ws :: "string \<Rightarrow> string" where
  "skip_ws \<equiv> dropWhile is_ws"

text \<open>A repeated key keeps its first place and takes the last value.\<close>

fun dict_upd :: "(string \<times> py) list \<Rightarrow> string \<Rightarrow> py \<Rightarrow> (string \<times> py) list" where
  "dict_upd [] k v = [(k, v)]"
| "dict_upd ((k', v') # kvs) k v = (if k' = k then (k, v) # kvs else (k', v') # dict_upd kvs k v)"

definition dict_of :: "(string \<times> py) list \<Rightarrow> (string \<times> py) list" where
  "dict_of kvs = foldl (\<lambda>d (k, v). dict_upd d k v) [] kvs"

definition starts :: "string \<Rightarrow> string \<Rightarrow> bool" where
  "starts p s = (take (length p) s = p)"

fun parse_value :: "nat \<Rightarrow> string \<Rightarrow> (py \<times> string) option"
  and parse_elems :: "nat \<Rightarrow> string \<Rightarrow> (py list \<times> string) option"
  and parse_members :: "nat \<Rightarrow> string \<Rightarrow> ((string \<times> py) list \<times> string) option" where
  "parse_value 0 s = None"
| "parse_value (Suc f) s =
     (case s of [] \<Rightarrow> None | c # r \<Rightarrow>
        if c = CHR 0x22 then map_option (\<lambda>(t, r'). (PStr t, r')) (unesc r)
        else if c = CHR ''{'' then
          (if starts ''}'' (skip_ws r) then Some (PDict [], tl (skip_ws r))
           else map_option (\<lambda>(kvs, r'). (PDict (dict_of kvs), r')) (parse_members f (skip_ws r)))
        else if c = CHR ''['' then
          (if starts '']'' (skip_ws r) then Some (PList [], tl (skip_ws r))
           else map_option (\<lambda>(xs, r'). (PList xs, r')) (parse_elems f (skip_ws r)))
        else if starts ''null'' s then Some (PNone, drop 4 s)
        else if starts ''true'' s then Some (PBool True, drop 4 s)
        else if starts ''false'' s then Some (PBool False, drop 5 s)
        else if starts ''NaN'' s then Some (PFloat FNaN, drop 3 s)
        else if starts ''Infinity'' s then Some (PFloat (FInf False), drop 8 s)
        else if starts ''-Infinity'' s then Some (PFloat (FInf True), drop 9 s)
        else parse_number s)"
| "parse_elems 0 s = None"
| "parse_elems (Suc f) s =
     (case parse_value f s of None \<Rightarrow> None
      | Some (v, r) \<Rightarrow>
        (case skip_ws r of [] \<Rightarrow> None | c # r' \<Rightarrow>
           if c = CHR '']'' then Some ([v], r')
           else if c = CHR '','' then
             map_option (\<lambda>(vs, r''). (v # vs, r'')) (parse_elems f (skip_ws r'))
           else None))"
| "parse_members 0 s = None"
| "parse_members (Suc f) s =
     (case s of [] \<Rightarrow> None | q # r0 \<Rightarrow>
        if q \<noteq> CHR 0x22 then None
        else (case unesc r0 of None \<Rightarrow> None
        | Some (k, r1) \<Rightarrow>
          (case skip_ws r1 of [] \<Rightarrow> None | d # r2 \<Rightarrow>
             if d \<noteq> CHR '':'' then None
             else (case parse_value f (skip_ws r2) of None \<Rightarrow> None
             | Some (v, r) \<Rightarrow>
               (case skip_ws r of [] \<Rightarrow> None | c # r' \<Rightarrow>
                  if c = CHR ''}'' then Some ([(k, v)], r')
                  else if c = CHR '','' then
                    map_option (\<lambda>(kvs, r''). ((k, v) # kvs, r'')) (parse_members f (skip_ws r'))
                  else None)))))"

declare parse_value.simps [simp del] parse_elems.simps [simp del] parse_members.simps [simp del]

definition loads_text :: "string \<Rightarrow> py option" where
  "loads_text s =
     (case parse_value (2 * length s + 2) (skip_ws s) of
        None \<Rightarrow> None
      | Some (v, r) \<Rightarrow> if skip_ws r = [] then Some v else None)"

text \<open>Bytes and text: \<open>decode("utf-8")\<close> refuses what is not well-formed UTF-8.\<close>

definition to_text :: "byte list \<Rightarrow> string" where
  "to_text bs = map (\<lambda>b. char_of (unat b)) bs"

definition to_bytes :: "string \<Rightarrow> byte list" where
  "to_bytes s = map (\<lambda>c. word_of_nat (ord c)) s"

definition json_loads :: "byte list \<Rightarrow> py option" where
  "json_loads bs = (let s = to_text bs in if utf8_ok s then loads_text s else None)"

definition json_dumps :: "py \<Rightarrow> byte list" where
  "json_dumps v = to_bytes (dump v)"

text \<open>The values whose text reads back: well-formed strings, distinct keys, shortest decimals.\<close>

primrec canonical :: "py \<Rightarrow> bool" where
  "canonical PNone = True"
| "canonical (PBool b) = True"
| "canonical (PInt i) = True"
| "canonical (PFloat f) = flt_canonical f"
| "canonical (PStr s) = utf8_ok s"
| "canonical (PList xs) = list_all id (map canonical xs)"
| "canonical (PDict kvs) =
     (distinct (map fst kvs) \<and> list_all (\<lambda>(k, c). utf8_ok k \<and> c) (map (map_prod id canonical) kvs))"

lemma dict_upd_new: "k \<notin> fst ` set d \<Longrightarrow> dict_upd d k v = d @ [(k, v)]"
  by (induction d) auto

lemma dict_of_distinct: "distinct (map fst kvs) \<Longrightarrow> dict_of kvs = kvs"
proof -
  have "distinct (map fst (d @ kvs)) \<Longrightarrow> foldl (\<lambda>d (k, v). dict_upd d k v) d kvs = d @ kvs" for d
  proof (induction kvs arbitrary: d)
    case (Cons kv kvs)
    from Cons.prems have "foldl (\<lambda>d (k, v). dict_upd d k v) (d @ [kv]) kvs = (d @ [kv]) @ kvs"
      by (intro Cons.IH) auto
    moreover from Cons.prems have "(case kv of (k, v) \<Rightarrow> dict_upd d k v) = d @ [kv]"
      by (cases kv) (auto simp: dict_upd_new)
    ultimately show ?case by simp
  qed simp
  from this [of "[]"] show "distinct (map fst kvs) \<Longrightarrow> dict_of kvs = kvs" by (simp add: dict_of_def)
qed

text \<open>The text of a number starts with a digit, or a minus sign and a digit.\<close>

definition num_start :: "string \<Rightarrow> bool" where
  "num_start s = (s \<noteq> [] \<and> (is_digit (hd s) \<or> hd s = CHR ''-'' \<and> tl s \<noteq> [] \<and> is_digit (hd (tl s))))"

lemma num_start_digits [simp]: "is_digit (hd (digits n))"
  using digits_is_digit [of n] by simp

lemma num_start_dump_int: "num_start (dump_int i @ r)"
  by (auto simp: num_start_def dump_int_def hd_append)

lemma repr_dec_hd: "repr_dec m e \<noteq> [] \<and> is_digit (hd (repr_dec m e))"
  by (auto simp: repr_dec_def Let_def hd_append)

lemma num_start_dump_float: "num_start (dump_float (FDec neg m e) @ r)"
  using repr_dec_hd [of m e] by (auto simp: num_start_def hd_append)

lemma is_digit_others [simp]:
  "\<not> is_digit CHR 0x22" "\<not> is_digit CHR ''{''" "\<not> is_digit CHR ''[''" "\<not> is_digit CHR ''n''"
  "\<not> is_digit CHR ''t''" "\<not> is_digit CHR ''f''" "\<not> is_digit CHR ''N''" "\<not> is_digit CHR ''I''"
  "\<not> is_digit CHR '']''" "\<not> is_digit CHR ''}''" "\<not> is_digit CHR '' ''" "\<not> is_digit CHR '',''"
  "\<not> is_digit CHR 0x09" "\<not> is_digit CHR 0x0A" "\<not> is_digit CHR 0x0D"
  by (simp_all add: is_digit_def)

lemma parse_value_number:
  assumes "num_start s"
  shows "parse_value (Suc f) s = parse_number s"
proof -
  from assms consider c t where "s = c # t" "is_digit c"
    | d t where "s = CHR ''-'' # d # t" "is_digit d"
    by (auto simp: num_start_def neq_Nil_conv)
  then show ?thesis
  proof cases
    case 1
    then have "c \<notin> {CHR 0x22, CHR ''{'', CHR ''['', CHR ''n'', CHR ''t'', CHR ''f'', CHR ''N'', CHR ''I'', CHR ''-''}"
      by auto
    with 1 show ?thesis by (simp add: parse_value.simps starts_def)
  next
    case 2
    then have "d \<noteq> CHR ''I''" by auto
    with 2 show ?thesis by (simp add: parse_value.simps starts_def)
  qed
qed

text \<open>What may follow a value inside a list or a dictionary, or at the end of the text.\<close>

definition val_end :: "string \<Rightarrow> bool" where
  "val_end r = (r = [] \<or> hd r \<in> {CHR '','', CHR '']'', CHR ''}''})"

lemma val_end_num_end: "val_end r \<Longrightarrow> num_end r"
  by (auto simp: val_end_def num_end_def)

lemma dump_hd:
  "dump v \<noteq> [] \<and> \<not> is_ws (hd (dump v)) \<and> hd (dump v) \<noteq> CHR '']'' \<and> hd (dump v) \<noteq> CHR ''}''"
proof -
  have n: "num_start s \<Longrightarrow> s \<noteq> [] \<and> \<not> is_ws (hd s) \<and> hd s \<noteq> CHR '']'' \<and> hd s \<noteq> CHR ''}''" for s
    by (auto simp: num_start_def is_ws_def)
  show ?thesis
  proof (cases v)
    case (PInt i)
    then show ?thesis using n [OF num_start_dump_int [of i "[]"]] by simp
  next
    case (PFloat x)
    show ?thesis
    proof (cases x)
      case (FDec neg m e)
      with PFloat n [OF num_start_dump_float [of neg m e "[]"]] show ?thesis by simp
    qed (use PFloat in \<open>auto simp: is_ws_def\<close>)
  qed (auto simp: is_ws_def dump_str_def)
qed

lemma skip_ws_dump: "skip_ws (dump v @ r) = dump v @ r"
  using dump_hd [of v] by (cases "dump v") auto

lemma skip_ws_join: "xs \<noteq> [] \<Longrightarrow> skip_ws (join_comma (map dump xs) @ r) = join_comma (map dump xs) @ r
   \<and> \<not> starts '']'' (join_comma (map dump xs) @ r)"
  using dump_hd [of "hd xs"]
  by (cases "map dump xs" rule: join_comma.cases) (auto simp: neq_Nil_conv starts_def)

lemma parse_elems_join:
  assumes "xs \<noteq> []"
    and "\<And>x f r. x \<in> set xs \<Longrightarrow> val_end r \<Longrightarrow> 2 * length (dump x) \<le> f \<Longrightarrow>
           parse_value f (dump x @ r) = Some (x, r)"
    and "2 * length (join_comma (map dump xs)) + 1 \<le> f"
  shows "parse_elems f (join_comma (map dump xs) @ CHR '']'' # r) = Some (xs, r)"
  using assms
proof (induction xs arbitrary: f)
  case (Cons x xs)
  from Cons.prems(3) obtain f' where f: "f = Suc f'" by (cases f) auto
  show ?case
  proof (cases xs)
    case Nil
    with Cons.prems f have "parse_value f' (dump x @ CHR '']'' # r) = Some (x, CHR '']'' # r)"
      by (intro Cons.prems(2)) (auto simp: val_end_def)
    with Nil f show ?thesis by (simp add: parse_elems.simps is_ws_def)
  next
    case (Cons y ys)
    let ?rest = "join_comma (map dump xs) @ CHR '']'' # r"
    have "parse_value f' (dump x @ CHR '','' # ?rest) = Some (x, CHR '','' # ?rest)"
      using Cons.prems f Cons by (intro Cons.prems(2)) (auto simp: val_end_def)
    moreover have "parse_elems f' ?rest = Some (xs, r)"
      using Cons.prems f Cons by (intro Cons.IH) auto
    moreover have "skip_ws ?rest = ?rest" using skip_ws_join [of xs] Cons by blast
    ultimately show ?thesis using Cons f by (simp add: parse_elems.simps is_ws_def)
  qed
qed simp

definition dump_member :: "string \<times> py \<Rightarrow> string" where
  "dump_member kv = dump_str (fst kv) @ CHR '':'' # dump (snd kv)"

lemma dump_dict: "dump (PDict kvs) = CHR ''{'' # join_comma (map dump_member kvs) @ ''}''"
  by (simp add: dump_member_def [abs_def] map_prod_def case_prod_unfold comp_def)

lemma skip_ws_members: "kvs \<noteq> [] \<Longrightarrow> skip_ws (join_comma (map dump_member kvs) @ r) =
     join_comma (map dump_member kvs) @ r \<and> \<not> starts ''}'' (join_comma (map dump_member kvs) @ r)"
  by (cases "map dump_member kvs" rule: join_comma.cases)
    (auto simp: dump_member_def dump_str_def is_ws_def starts_def)

lemma parse_members_step:
  assumes "utf8_ok (fst kv)" and "\<And>r. val_end r \<Longrightarrow> parse_value f (dump (snd kv) @ r) = Some (snd kv, r)"
    and "c \<in> {CHR '','', CHR ''}''}"
  shows "parse_members (Suc f) (dump_member kv @ c # r) =
     (if c = CHR ''}'' then Some ([kv], r)
      else map_option (\<lambda>(kvs, r'). (kv # kvs, r')) (parse_members f (skip_ws r)))"
proof -
  have "unesc (esc (fst kv) @ CHR 0x22 # CHR '':'' # dump (snd kv) @ c # r)
      = Some (fst kv, CHR '':'' # dump (snd kv) @ c # r)" by (rule unesc_esc [OF assms(1)])
  moreover have "parse_value f (dump (snd kv) @ c # r) = Some (snd kv, c # r)"
    using assms(2,3) by (auto simp: val_end_def)
  ultimately show ?thesis using assms(3)
    by (auto simp: parse_members.simps dump_member_def dump_str_def is_ws_def skip_ws_dump)
qed

lemma parse_members_join:
  assumes "kvs \<noteq> []"
    and "\<And>kv f r. kv \<in> set kvs \<Longrightarrow> val_end r \<Longrightarrow> 2 * length (dump (snd kv)) \<le> f \<Longrightarrow>
           parse_value f (dump (snd kv) @ r) = Some (snd kv, r)"
    and "\<And>kv. kv \<in> set kvs \<Longrightarrow> utf8_ok (fst kv)"
    and "2 * length (join_comma (map dump_member kvs)) + 1 \<le> f"
  shows "parse_members f (join_comma (map dump_member kvs) @ CHR ''}'' # r) = Some (kvs, r)"
  using assms
proof (induction kvs arbitrary: f)
  case (Cons kv kvs)
  from Cons.prems(4) obtain f' where f: "f = Suc f'" by (cases f) auto
  have len: "length (dump (snd kv)) < length (dump_member kv)" by (simp add: dump_member_def)
  have "2 * length (dump (snd kv)) \<le> f'"
    using Cons.prems(4) f len by (cases kvs) auto
  then have v: "val_end r \<Longrightarrow> parse_value f' (dump (snd kv) @ r) = Some (snd kv, r)" for r
    using Cons.prems(2) by simp
  note step = parse_members_step [of kv, OF Cons.prems(3) v]
  show ?case
  proof (cases kvs)
    case Nil
    with step f show ?thesis by simp
  next
    case (Cons kw kws)
    let ?rest = "join_comma (map dump_member kvs) @ CHR ''}'' # r"
    have "parse_members f' ?rest = Some (kvs, r)"
      using Cons.prems f Cons by (intro Cons.IH) auto
    moreover have "skip_ws ?rest = ?rest" using skip_ws_members [of kvs] Cons by blast
    ultimately show ?thesis using Cons f step by simp
  qed
qed simp

lemma parse_value_dump:
  "canonical v \<Longrightarrow> val_end r \<Longrightarrow> 2 * length (dump v) \<le> f \<Longrightarrow> parse_value f (dump v @ r) = Some (v, r)"
proof (induction v arbitrary: f r)
  case (PFloat x)
  from PFloat.prems(3) dump_hd [of "PFloat x"] obtain f' where f: "f = Suc f'" by (cases f) auto
  show ?case
  proof (cases x)
    case (FDec neg m e)
    have "parse_value f (dump (PFloat x) @ r) = parse_number (dump_float x @ r)"
      unfolding f FDec dump.simps by (rule parse_value_number [OF num_start_dump_float])
    with parse_number_float [of neg m e r] PFloat.prems val_end_num_end FDec show ?thesis by simp
  qed (use f in \<open>auto simp: parse_value.simps starts_def\<close>)
next
  case (PInt i)
  from PInt.prems(3) dump_hd [of "PInt i"] obtain f' where f: "f = Suc f'" by (cases f) auto
  have "parse_value f (dump (PInt i) @ r) = parse_number (dump_int i @ r)"
    unfolding f dump.simps by (rule parse_value_number [OF num_start_dump_int])
  with parse_number_int PInt.prems val_end_num_end show ?case by simp
next
  case (PList xs)
  from PList.prems(3) obtain f' where f: "f = Suc f'" by (cases f) auto
  show ?case
  proof (cases "xs = []")
    case False
    have "parse_elems f' (join_comma (map dump xs) @ CHR '']'' # r) = Some (xs, r)"
      using PList False f by (intro parse_elems_join) (auto simp: list_all_iff)
    with False f skip_ws_join [OF False] show ?thesis
      by (simp add: parse_value.simps)
  qed (use f in \<open>simp add: parse_value.simps starts_def is_ws_def\<close>)
next
  case (PDict kvs)
  from PDict.prems(3) obtain f' where f: "f = Suc f'" by (cases f) auto
  show ?case
  proof (cases "kvs = []")
    case False
    have "parse_members f' (join_comma (map dump_member kvs) @ CHR ''}'' # r) = Some (kvs, r)"
      using PDict.prems False f unfolding dump_dict
      by (intro parse_members_join PDict.IH) (auto simp: list_all_iff fsts.simps snds.simps)
    with False f skip_ws_members [OF False] PDict.prems(1) show ?thesis
      by (simp add: dump_dict parse_value.simps dict_of_distinct del: dump.simps)
  qed (use f in \<open>simp add: parse_value.simps starts_def is_ws_def\<close>)
next
  case PNone
  then obtain f' where "f = Suc f'" by (cases f) auto
  then show ?case by (simp add: parse_value.simps starts_def)
next
  case (PBool b)
  then obtain f' where "f = Suc f'" by (cases f) (auto split: if_splits)
  then show ?case by (simp add: parse_value.simps starts_def)
next
  case (PStr t)
  then obtain f' where "f = Suc f'" by (cases f) (auto simp: dump_str_def)
  with PStr show ?case by (simp add: parse_value.simps dump_str_def unesc_esc)
qed

subsection \<open>The round trip on bytes\<close>

definition ascii :: "string \<Rightarrow> bool" where
  "ascii s = (\<forall>c \<in> set s. ord c < 128)"

lemma ascii_simps [simp]:
  "ascii []" "ascii (c # s) \<longleftrightarrow> ord c < 128 \<and> ascii s" "ascii (s @ t) \<longleftrightarrow> ascii s \<and> ascii t"
  by (auto simp: ascii_def)

lemma ascii_utf8_ok: "ascii s \<Longrightarrow> utf8_ok s"
  by (induction s) (auto simp: utf8_ok.simps utf8_head.simps)

lemma ascii_digits: "ascii (digits n)"
  using digits_is_digit [of n] by (fastforce simp: ascii_def is_digit_def)

lemma ascii_sub: "ascii s \<Longrightarrow> set t \<subseteq> set s \<Longrightarrow> ascii t"
  by (auto simp: ascii_def)

lemma ascii_repr_exp: "ascii (repr_exp x)"
  by (simp add: repr_exp_def Let_def ascii_digits)

lemma ascii_repr_dec: "ascii (repr_dec m e)"
proof -
  let ?ds = "digits m"
  have "ascii (take k ?ds)" "ascii (drop k ?ds)" "ascii (tl ?ds)" "ord (hd ?ds) < 128" for k
    using ascii_digits [of m]
    by (auto simp: ascii_def dest: in_set_takeD in_set_dropD list.set_sel(2) [OF digits_nonempty])
  moreover have "ascii (replicate k CHR ''0'')" for k by (simp add: ascii_def)
  ultimately show ?thesis by (simp add: repr_dec_def Let_def ascii_digits ascii_repr_exp)
qed

lemma ascii_dump_float: "ascii (dump_float x)"
  by (cases x) (simp_all add: ascii_repr_dec)

lemma ascii_hexdigit: "d < 16 \<Longrightarrow> ord (hexdigit d) < 128"
  by (simp add: hexdigit_def)

lemma ascii_esc_cp: "ascii (esc_cp cp)"
  by (simp add: esc_cp_def hex4_def ascii_hexdigit)

lemma ascii_esc: "ascii (esc s)"
proof (induction s rule: esc.induct)
  case (1 s)
  then show ?case
    by (subst esc.simps) (auto simp: ascii_esc_cp split: option.splits)
qed

lemma ascii_join: "(\<And>t. t \<in> set ts \<Longrightarrow> ascii t) \<Longrightarrow> ascii (join_comma ts)"
  by (induction ts rule: join_comma.induct) auto

lemma ascii_dump: "ascii (dump v)"
proof (induction v)
  case (PDict kvs)
  then show ?case unfolding dump_dict
    by (auto intro!: ascii_join simp: dump_member_def dump_str_def ascii_esc snds.simps)
qed (auto simp: dump_int_def ascii_digits ascii_dump_float dump_str_def ascii_esc intro!: ascii_join)

lemma to_text_to_bytes: "to_text (to_bytes s) = s"
  by (simp add: to_text_def to_bytes_def comp_def unat_of_nat)

lemma json_loads_dumps: "canonical v \<Longrightarrow> json_loads (json_dumps v) = Some v"
  using parse_value_dump [of v "[]" "2 * length (dump v) + 2"] skip_ws_dump [of v "[]"]
  by (simp add: json_loads_def json_dumps_def to_text_to_bytes Let_def loads_text_def val_end_def
      ascii_utf8_ok ascii_dump)

interpretation json: json_codec json_loads json_dumps canonical
  by unfold_locales (rule json_loads_dumps)

text \<open>
  C2. A frame written by the worker is read back as it was: for every metadata object that JSON text can
  carry, whenever \<open>encode_frame\<close> produces a frame, \<open>decode_frame\<close> returns the request id, the metadata
  and the blobs.
\<close>
theorem frame_roundtrip:
  assumes "canonical meta" and "is_dict meta" and "encode_frame json_dumps req_id meta blobs = Inr frame"
  shows "decode_frame json_loads frame = Inr (req_id, meta, blobs)"
  using assms by (rule json.decode_encode)

theorem frame_roundtrip_witness:
  "decode_frame json_loads (MAGIC @ be_bytes 8 7 @ be_bytes 4 8 @ be_bytes 2 1 @ [0, 0] @ be_bytes 8 2 @
     json_dumps (PDict [(''a'', PInt 12)]) @ [1, 2]) = Inr (7, PDict [(''a'', PInt 12)], [[1, 2]])"
proof -
  let ?m = "PDict [(''a'', PInt 12)]"
  have c: "canonical ?m" by code_simp
  have "length (json_dumps ?m) = 8" by code_simp
  then have "encode_frame json_dumps 7 ?m [[1, 2]] = Inr (MAGIC @ be_bytes 8 7 @ be_bytes 4 8 @ be_bytes 2 1 @ [0, 0] @
     be_bytes 8 2 @ json_dumps ?m @ [1, 2])"
    by (simp add: encode_frame_def header_pack_def struct_pack_def Let_def numeral_2_eq_2 del: be_bytes.simps)
  with frame_roundtrip [OF c] show ?thesis by simp
qed

end
