(* ===== verification/Demo.thy ===== *)
theory Demo
  imports Worker JsonText
begin

text \<open>
  A small concrete instance of the libraries, on which the properties of the worker are run: an array is an
  element type and its bytes, a tensor the same with a tinygrad type, transfers and views carry the bytes over,
  and no arithmetic is provided. The codec is the one of \<open>JsonText\<close>.
\<close>

type_synonym arr = "npdtype \<times> byte list"

type_synonym tensor = "npdtype \<times> tgdtype \<times> byte list"

fun demo_call :: "tgcall \<Rightarrow> tensor list \<Rightarrow> exn + tensor" where
  "demo_call Clone [t] = Inr t"
| "demo_call Realize [t] = Inr t"
| "demo_call (Bitcast TgBFloat16) [(d, g, b)] = Inr (d, TgBFloat16, b)"
| "demo_call (Bitcast TgUInt16) [(d, g, b)] = Inr (UInt16, TgUInt16, b)"
| "demo_call _ _ = Inl (PyErr ''NotImplementedError'' '''')"

fun demo_np :: "npcall \<Rightarrow> arr list \<Rightarrow> exn + arr" where
  "demo_np (NReshape s) [a] = Inr a"
| "demo_np NCopy [a] = Inr a"
| "demo_np (NContiguous None) [a] = Inr a"
| "demo_np (NContiguous (Some d)) [(e, b)] = Inr (d, b)"
| "demo_np _ _ = Inl (PyErr ''NotImplementedError'' '''')"

definition demo_tg :: "tensor tg" where
  "demo_tg = \<lparr>call = demo_call, shp = (\<lambda>(d, g, b). [int (length b)]), dt = (\<lambda>(d, g, b). g), item = (\<lambda>_. Inr PNone),
     realized = (\<lambda>_. True), base_id = (\<lambda>_. 0), same_uop = (=)\<rparr>"

definition demo_host :: "(tensor, arr) host" where
  "demo_host = \<lparr>np = demo_np, frombuffer = (\<lambda>b d. Inr (d, b)), np_shape = (\<lambda>(d, b). [int (length b)]), np_dtype = fst,
     tobytes = snd, array_equal = (\<lambda>a b _. a = b), to_tensor = (\<lambda>(d, b) _. Inr (d, TgUInt8, b)),
     to_numpy = (\<lambda>(d, g, b). Inr (d, b))\<rparr>"

definition demo_exe :: "(tensor, arr) exe" where
  "demo_exe = \<lparr>tg = demo_tg, host = demo_host, jit = (\<lambda>f n args vars. f args vars), clone_nth = (\<lambda>_ t. Inr t),
     oid = (\<lambda>_. 0), kernels = 0, xblobs = [], xdevice = ''CPU''\<rparr>"

definition demo_lib :: "(tensor, arr) lib" where
  "demo_lib = \<lparr>exe0 = demo_exe, base_size = (\<lambda>_. None), has_transfer = False, raw_copy = Inr, sync = (\<lambda>_. Inr ()),
     devices = \<lparr>open_device = (\<lambda>_. Inl ''no device''), smoke = (\<lambda>_. Inl ''no device'')\<rparr>, proc_maps = None,
     python_version = ''3'', tinygrad_version = ''0'', elapsed_ms = FDec False 0 0, traceback = (\<lambda>_. ''''),
     loads = json_loads, dumps = json_dumps, fuel = 5\<rparr>"

abbreviation demo_worker :: "tensor worker" where
  "demo_worker \<equiv> new_handler (parse_device None) Map.empty 1"

text \<open>\<open>{"command": name, "args": args}\<close>\<close>

definition request :: "string \<Rightarrow> (string \<times> py) list \<Rightarrow> py" where
  "request name args = PDict [(''command'', PStr name), (''args'', PDict args)]"

end
