(* ===== verification/Service.thy ===== *)
theory Service
  imports Demo
begin

text \<open>
  The worker as a service: what every command keeps of the process state, and that the handler answers
  each request. \<open>worker_ok\<close> is the well-formedness of the two registries; \<open>evolves\<close> relates the state
  before a command to the state after it.
\<close>

subsection \<open>The state a command may reach\<close>

definition exec_ok :: "'t executable exec_registry \<Rightarrow> bool" where
  "exec_ok r = (idmap_ok (executables r) \<and> 0 < exec_next_id r \<and>
     (\<forall>(i, X) \<in> set (executables r). 0 < i \<and> i < exec_next_id r \<and> x_id X = i))"

definition worker_ok :: "'t worker \<Rightarrow> bool" where
  "worker_ok w = (registry_ok (registry w) \<and> 0 < next_id (registry w) \<and> exec_ok (execs w))"

definition stats_le :: "stats \<Rightarrow> stats \<Rightarrow> bool" where
  "stats_le a b = (compile_count a \<le> compile_count b \<and> execute_count a \<le> execute_count b \<and>
     run_node_count a \<le> run_node_count b \<and> upload_bytes a \<le> upload_bytes b \<and> download_bytes a \<le> download_bytes b \<and>
     duplicate_input_clones a \<le> duplicate_input_clones b \<and> immutable_copy_fast a \<le> immutable_copy_fast b \<and>
     immutable_copy_fallback a \<le> immutable_copy_fallback b)"

definition evolves :: "'t worker \<Rightarrow> 't worker \<Rightarrow> bool" where
  "evolves w w' = ((worker_ok w \<longrightarrow> worker_ok w' \<and> tensors.reg_step\<^sup>*\<^sup>* (registry w) (registry w') \<and>
       execs.reg_step\<^sup>*\<^sup>* (execs w) (execs w')) \<and>
     parsed_device w' = parsed_device w \<and> generation w' = generation w \<and>
     (should_stop w \<longrightarrow> should_stop w') \<and> stats_le (stat w) (stat w'))"

lemma stats_le_refl [simp]: "stats_le s s"
  by (simp add: stats_le_def)

lemma stats_le_trans: "stats_le a b \<Longrightarrow> stats_le b c \<Longrightarrow> stats_le a c"
  by (auto simp: stats_le_def)

interpretation evo: state_relation evolves
proof
  show "evolves w w" for w :: "'t worker" by (simp add: evolves_def)
  show "evolves a c" if "evolves a b" "evolves b c" for a b c :: "'t worker"
    using that by (auto simp: evolves_def intro: rtranclp_trans stats_le_trans)
qed

subsection \<open>Updates of the state\<close>

lemma keeps_upd_stat [intro]: "(\<And>s. stats_le s (f s)) \<Longrightarrow> evo.keeps (upd_stat f)"
  unfolding upd_stat_def by (rule evo.keeps_modify) (simp add: evolves_def worker_ok_def)

lemma put_next: "next_id (snd (put r t shape dn n None)) = next_id r + 1"
  by (simp add: put_None)

lemma put_evolves: "evolves w (w\<lparr>registry := snd (put (registry w) t shape dn n None)\<rparr>)"
  by (auto simp: evolves_def worker_ok_def put_ok put_next put_step)

lemma keeps_put_buffer [intro]: "evo.keeps (put_buffer t shape dtype n)"
  unfolding put_buffer_def
  by (intro evo.keeps_bnd evo.keeps_lift evo.keeps_reads_modify put_evolves evo.keeps_ret)

lemma release_evolves: "evolves w (w\<lparr>registry := snd (release (registry w) ids)\<rparr>)"
  by (auto simp: evolves_def worker_ok_def release_ok release_next_id release_steps)

lemma exec_release_loop_steps: "execs.reg_step\<^sup>*\<^sup>* r (snd (exec_release_loop r k ids))"
proof (induction r k ids rule: exec_release_loop.induct)
  case (2 r removed i ids)
  have "execs.reg_step r (exec_drop r j)" for j by (rule execs.reg_step.remove)
  with 2 show ?case by (auto split: option.splits intro: converse_rtranclp_into_rtranclp)
qed simp

lemma exec_drop_ok: "exec_ok r \<Longrightarrow> exec_ok (exec_drop r k)"
  using idmap_pop_ok [of "executables r" k] by (auto simp: exec_ok_def exec_drop_def idmap_pop_def)

lemma exec_release_loop_ok: "exec_ok r \<Longrightarrow> exec_ok (snd (exec_release_loop r k ids))"
  by (induction r k ids rule: exec_release_loop.induct) (auto simp: exec_drop_ok split: option.splits)

lemma exec_release_evolves: "evolves w (w\<lparr>execs := snd (exec_release (execs w) ids)\<rparr>)"
  by (auto simp: evolves_def worker_ok_def exec_release_def exec_release_loop_ok exec_release_loop_steps split: sum.splits)

lemma exec_allocate_evolves: "evolves w (w\<lparr>execs := snd (exec_allocate_id (execs w))\<rparr>)"
  using execs.reg_step.burn [of "execs w"]
  by (auto simp: evolves_def worker_ok_def exec_ok_def exec_allocate_id_def)

text \<open>Storing an executable under its own id, be it new or resident.\<close>

lemma in_idmap_put: "(i, x) \<in> set (idmap_put m k v) \<Longrightarrow> (i, x) = (k, v) \<or> (i, x) \<in> set m"
  by (induction m k v rule: idmap_put.induct) (auto split: if_splits)

lemma exec_put_ok:
  "exec_ok r \<Longrightarrow> 0 < i \<Longrightarrow> i < exec_next_id r \<Longrightarrow> x_id X = i \<Longrightarrow> exec_ok (exec_put r i X)"
  using idmap_put_ok [of "executables r" i X] by (auto simp: exec_ok_def exec_put_def dest!: in_idmap_put)

lemma exec_get_resident:
  assumes "exec_get r i = Inr X" and "exec_ok r"
  shows "map_of (executables r) (x_id X) = Some X" "0 < x_id X" "x_id X < exec_next_id r"
proof -
  from assms(1) obtain k where "map_of (executables r) k = Some X"
    by (auto simp: exec_get_def bind_eq_Some_conv split: if_splits option.splits)
  moreover from this assms(2) have "x_id X = k \<and> 0 < k \<and> k < exec_next_id r"
    by (auto simp: exec_ok_def dest: map_of_SomeD)
  ultimately show "map_of (executables r) (x_id X) = Some X" "0 < x_id X" "x_id X < exec_next_id r" by auto
qed

subsection \<open>Executables keep their id\<close>

lemma capture_id: "capture ev E check X s = Some (Inr X', s') \<Longrightarrow> x_id X' = x_id X"
  by (auto simp: capture_def runs split: if_splits prod.splits)

lemma compile_id: "compile_graph ev E i graph check s = Some (Inr X, s') \<Longrightarrow> x_id X = i"
  by (auto simp: compile_graph_def new_executable_def runs dest!: capture_id)

subsection \<open>Every command evolves the state\<close>

lemma keeps_hello: "evo.keeps (cmd_hello L args blobs)"
  unfolding cmd_hello_def by auto

lemma keeps_device_info: "evo.keeps (cmd_device_info L args blobs)"
proof -
  have "evo.keeps (modify (\<lambda>w. w\<lparr>environment := env\<rparr>))" "evo.keeps (modify (\<lambda>w. w\<lparr>device_info := i\<rparr>))" for env i
    by (intro evo.keeps_modify; simp add: evolves_def worker_ok_def)+
  then show ?thesis unfolding cmd_device_info_def by (intro evo.keeps_bnd evo.keeps_option evo.keeps_prod) auto
qed

lemma keeps_release: "evo.keeps (cmd_release args blobs)"
  unfolding cmd_release_def
  by (intro evo.keeps_bnd evo.keeps_lift evo.keeps_reads_modify release_evolves evo.keeps_ret)

lemma keeps_release_executable: "evo.keeps (cmd_release_executable args blobs)"
  unfolding cmd_release_executable_def
  by (intro evo.keeps_bnd evo.keeps_lift evo.keeps_reads_modify exec_release_evolves evo.keeps_ret)

lemma keeps_upload: "evo.keeps (cmd_upload L args blobs)"
  unfolding cmd_upload_def dict_args_def Let_def
  by (intro evo.keeps_bnd evo.keeps_lift evo.keeps_reads evo.keeps_ret keeps_put_buffer keeps_upd_stat) (simp add: stats_le_def)

lemma keeps_download: "evo.keeps (cmd_download L args blobs)"
  unfolding cmd_download_def dict_args_def add_download_def
  by (intro evo.keeps_bnd evo.keeps_lift evo.keeps_reads evo.keeps_ret keeps_upd_stat) (simp add: stats_le_def)

lemma keeps_stats: "evo.keeps (cmd_stats args blobs)"
  unfolding cmd_stats_def by simp

lemma keeps_synchronize: "evo.keeps (cmd_synchronize L args blobs)"
  unfolding cmd_synchronize_def by auto

lemma keeps_shutdown: "evo.keeps (cmd_shutdown args blobs)"
  unfolding cmd_shutdown_def by (intro evo.keeps_bnd evo.keeps_modify evo.keeps_ret) (simp add: evolves_def worker_ok_def)

lemma keeps_run_node: "evo.keeps (cmd_run_node L args blobs)"
proof -
  have "evo.keeps (run_node_input L blobs spec)" for spec
    unfolding run_node_input_def
    by (intro evo.keeps_bnd evo.keeps_if evo.keeps_lift evo.keeps_reads evo.keeps_ret keeps_upd_stat) (simp add: stats_le_def)
  then show ?thesis unfolding cmd_run_node_def dict_args_def
    by (intro evo.keeps_bnd evo.keeps_lift evo.keeps_mmap evo.keeps_ret keeps_put_buffer keeps_upd_stat) (simp_all add: stats_le_def)
qed

lemma keeps_host_output: "evo.keeps (host_output L ts)"
  unfolding host_output_def add_download_def
  by (intro evo.keeps_bnd evo.keeps_lift evo.keeps_ret keeps_upd_stat) (simp add: stats_le_def)

lemma keeps_immutable_copy: "evo.keeps (immutable_copy L t)"
  unfolding immutable_copy_def
  by (intro evo.keeps_catch evo.keeps_bnd evo.keeps_lift evo.keeps_ret keeps_upd_stat) (simp_all add: stats_le_def)

lemma keeps_device_output: "evo.keeps (device_output L ts)"
  unfolding device_output_def
  by (intro evo.keeps_bnd evo.keeps_lift evo.keeps_ret keeps_put_buffer keeps_immutable_copy)

lemma compile_evolves:
  assumes "cmd_compile L args blobs w = Some (r, w')"
  shows "evolves w w'"
proof -
  let ?g = "py_item args ''graph''" and ?v = "py_get args ''validate_capture'' (PBool True)"
  let ?E = "(exe0 L)\<lparr>xblobs := blobs, xdevice := tg_device w\<rparr>"
  let ?i = "exec_next_id (execs w)" and ?r = "snd (exec_allocate_id (execs w))"
  let ?w = "w\<lparr>execs := ?r\<rparr>"
  show ?thesis
  proof (cases ?g; cases ?v)
    fix g v assume gv: "?g = Inr g" "?v = Inr v"
    let ?s = "\<lparr>while_steps = Map.empty, segment_steps = Map.empty, counters = while_stats w, clones = 0, replays = None\<rparr>"
    let ?c = "compile_graph (eval_nodes (fuel L) ?E) ?E ?i g (py_truth v) ?s"
    have dev: "tg_device ?w = tg_device w" by (simp add: tg_device_def)
    from assms gv dev obtain res s where c: "?c = Some (res, s)"
      by (auto simp: cmd_compile_def dict_args_def bnd_def lift_def reads_def modify_def exec_allocate_id_def
          split: option.splits)
    have alloc: "evolves w ?w" by (rule exec_allocate_evolves)
    show ?thesis
    proof (cases res)
      case (Inl e)
      with assms gv dev c have "w' = ?w\<lparr>while_stats := counters s\<rparr>"
        by (simp add: cmd_compile_def dict_args_def bnd_def lift_def reads_def modify_def exec_allocate_id_def)
      with alloc show ?thesis by (auto simp: evolves_def worker_ok_def)
    next
      case (Inr X)
      have "w' = w\<lparr>while_stats := counters s, execs := exec_put ?r ?i (with_caches s X),
          stat := (stat w)\<lparr>compile_count := Suc (compile_count (stat w))\<rparr>\<rparr>"
        using assms gv dev c Inr
        by (auto simp: cmd_compile_def dict_args_def bnd_def lift_def reads_def modify_def exec_allocate_id_def
            upd_stat_def ret_def)
      moreover have "x_id (with_caches s X) = ?i" using compile_id [of _ _ ?i] c Inr by (simp add: with_caches_def)
      moreover have "execs.reg_step (execs w) (exec_put ?r ?i (with_caches s X))"
        using execs.reg_step.add [of "execs w" "with_caches s X"] by (simp add: exec_allocate_id_def)
      moreover have "exec_ok (exec_put ?r ?i (with_caches s X))" if "exec_ok (execs w)"
        using that calculation(2) by (intro exec_put_ok) (auto simp: exec_ok_def exec_allocate_id_def)
      ultimately show ?thesis by (simp add: evolves_def worker_ok_def stats_le_def r_into_rtranclp)
    qed
  qed (use assms in \<open>auto simp: cmd_compile_def dict_args_def bnd_def lift_def evolves_def\<close>)
qed

lemma pure_execute_input: "pure.keeps (execute_input L blobs spec)"
  unfolding execute_input_def
  by (intro pure.keeps_bnd pure.keeps_if pure.keeps_lift pure.keeps_reads pure.keeps_ret)

lemma run_on_evolves:
  assumes "run_on L X inputs w = Some (r, w')" and "exec_get (execs w) i = Inr X"
  shows "evolves w w'"
proof -
  have put: "evolves w (w\<lparr>while_stats := c, execs := exec_put (execs w) (x_id X) Y\<rparr>)" if "x_id Y = x_id X" for Y c
    using that exec_get_resident [OF assms(2)] execs.reg_step.update [of "execs w" "x_id X" X Y]
    by (auto simp: evolves_def worker_ok_def intro!: exec_put_ok)
  from assms(1) show ?thesis
    by (auto simp: run_on_def Let_def with_caches_def put split: option.splits sum.splits)
qed

lemma execute_evolves:
  assumes "cmd_execute L args blobs w = Some (r, w')"
  shows "evolves w w'"
proof -
  have tail: "evo.keeps (bnd (upd_stat (\<lambda>s. s\<lparr>duplicate_input_clones := duplicate_input_clones s + clones\<rparr>)) (\<lambda>_.
      bnd (upd_stat (\<lambda>s. s\<lparr>execute_count := Suc (execute_count s)\<rparr>)) (\<lambda>_.
      if m = PStr ''host'' then
        bnd (mmap (host_output L) (zip outs specs)) (\<lambda>outs. ret (PDict [(''outputs'', PList (map fst outs))], map snd outs))
      else bnd (mmap (device_output L) (zip outs specs)) (\<lambda>outs. ret (PDict [(''outputs'', PList outs)], [])))))"
    for clones m outs specs
    by (intro evo.keeps_bnd evo.keeps_if evo.keeps_mmap evo.keeps_ret keeps_upd_stat keeps_host_output keeps_device_output)
      (simp_all add: stats_le_def)
  show ?thesis
  proof (cases "py_item args ''executable_id''")
    case (Inr eid)
    show ?thesis
    proof (cases "exec_get (execs w) eid")
      case X: (Inr X)
      have "evolves w w''" if "bnd (mmap (execute_input L blobs) specs) (\<lambda>inputs. bnd (run_on L X inputs) h) w = Some (q, w'')"
        and h: "\<And>oc. evo.keeps (h oc)" for specs q w'' and h :: "'a list \<times> nat \<Rightarrow> ('a, reply) wrun"
      proof -
        have "w1 = w" if "mmap (execute_input L blobs) specs w = Some (q1, w1)" for q1 w1
          using pure.keepsD [OF pure.keeps_mmap [OF pure_execute_input] that] by simp
        with that(1) consider (stop) "w'' = w" | (go) inputs where "bnd (run_on L X inputs) h w = Some (q, w'')"
          by (auto simp: bnd_def split: option.splits sum.splits)
        then show ?thesis
        proof cases
          case stop
          then show ?thesis by (simp add: evo.refl)
        next
          case go
          then consider e where "run_on L X inputs w = Some (Inl e, w'')"
            | oc w1 where "run_on L X inputs w = Some (Inr oc, w1)" "h oc w1 = Some (q, w'')"
            by (auto simp: bnd_def split: option.splits sum.splits)
          then show ?thesis
            by cases (blast intro: run_on_evolves [OF _ X] evo.trans evo.keepsD [OF h])+
        qed
      qed
      from this [OF _ tail] assms Inr X show ?thesis
        by (auto simp: cmd_execute_def dict_args_def bnd_def [of "lift _"] bnd_def [of "reads _"] lift_def reads_def
            case_prod_unfold evo.refl split: sum.splits)
    qed (use assms Inr in \<open>auto simp: cmd_execute_def dict_args_def bnd_def lift_def reads_def evo.refl\<close>)
  qed (use assms in \<open>auto simp: cmd_execute_def dict_args_def bnd_def lift_def evo.refl\<close>)
qed

subsection \<open>The handler\<close>

definition dispatch_names :: "string list" where
  "dispatch_names = [''hello'', ''device_info'', ''compile'', ''execute'', ''run_node'', ''upload'', ''download'',
     ''release'', ''release_executable'', ''stats'', ''synchronize'', ''shutdown'']"

lemma dispatch_names: "map fst (dispatch L) = dispatch_names"
  by (simp add: dispatch_def dispatch_names_def)

lemma keeps_compile: "evo.keeps (cmd_compile L args blobs)"
  by (auto simp: evo.keeps_def dest: compile_evolves)

lemma keeps_execute: "evo.keeps (cmd_execute L args blobs)"
  by (auto simp: evo.keeps_def dest: execute_evolves)

lemma dispatch_keeps: "(name, f) \<in> set (dispatch L) \<Longrightarrow> evo.keeps (f args blobs)"
  by (auto simp: dispatch_def keeps_hello keeps_device_info keeps_compile keeps_execute keeps_run_node keeps_upload
      keeps_download keeps_release keeps_release_executable keeps_stats keeps_synchronize keeps_shutdown)

lemma table_find_set: "table_find tab k = Inr (Some f) \<Longrightarrow> \<exists>n. (n, f) \<in> set tab"
  by (auto simp: table_find_def split: if_splits py.splits dest: map_of_SomeD)

lemma handle_keeps: "evo.keeps (handle L meta blobs)"
proof -
  have "evo.keeps (bnd (reads environment) (\<lambda>env. case fn of
       None \<Rightarrow> ret (error_response L env (WorkerErr ProtocolErrorC ''unknown command: {command!r}'' [(''command'', c)]), [])
     | Some f \<Rightarrow> catch (bnd (f a blobs) (\<lambda>(result, out_blobs). ret (ok_response result, out_blobs)))
           (\<lambda>exc. bnd (reads environment) (\<lambda>env'. ret (error_response L env' exc, [])))))"
    if "table_find (dispatch L) c = Inr fn" for fn c a
    using that by (intro evo.keeps_bnd evo.keeps_option evo.keeps_catch evo.keeps_ret evo.keeps_reads)
      (auto dest!: table_find_set intro: dispatch_keeps)
  then show ?thesis unfolding handle_def
    by (auto simp: evo.keeps_def bnd_def [of "lift _"] lift_def evo.refl split: sum.splits)
qed

subsection \<open>What the handler guarantees\<close>

definition failure :: "string \<Rightarrow> string \<Rightarrow> (string \<times> py) list \<Rightarrow> py \<Rightarrow> py" where
  "failure klass msg details tb = PDict [(''ok'', PBool False), (''error'', PDict [(''class'', PStr klass),
     (''message'', PStr msg), (''details'', PDict details), (''python_traceback'', tb)])]"

lemma error_response_failure: "\<exists>klass msg details tb. error_response L env exc = failure klass msg details tb"
  by (auto simp: error_response_def failure_def Let_def split: exn.splits)

lemma handle_unhashable:
  "\<not> hashable (field (PDict kvs) ''command'') \<Longrightarrow> handle L (PDict kvs) blobs w = Some (Inl (type_error ''unhashable type''), w)"
  by (simp add: handle_def bnd_def lift_def py_get_dict table_find_def)

lemma dispatch_None: "map_of (dispatch L) n = None \<longleftrightarrow> n \<notin> set dispatch_names"
  unfolding map_of_eq_None_iff by (simp flip: dispatch_names [of L])

lemma handle_unknown:
  assumes "hashable (field (PDict kvs) ''command'')" and "field (PDict kvs) ''command'' \<notin> PStr ` set dispatch_names"
  shows "handle L (PDict kvs) blobs w = Some (Inr (error_response L (environment w)
     (WorkerErr ProtocolErrorC ''unknown command: {command!r}'' [(''command'', field (PDict kvs) ''command'')]), []), w)"
proof -
  have "table_find (dispatch L) (field (PDict kvs) ''command'') = Inr None"
  proof (cases "field (PDict kvs) ''command''")
    case (PStr n)
    with assms(2) have "n \<notin> set dispatch_names" by blast
    with PStr show ?thesis by (simp add: table_find_def dispatch_None)
  qed (use assms(1) in \<open>auto simp: table_find_def\<close>)
  then show ?thesis by (simp add: handle_def bnd_def lift_def py_get_dict reads_def ret_def)
qed

lemma handle_known:
  assumes "field (PDict kvs) ''command'' = PStr n" and "map_of (dispatch L) n = Some f"
  shows "handle L (PDict kvs) blobs w =
     catch (bnd (f (py_or (field (PDict kvs) ''args'') (PDict [])) blobs) (\<lambda>(result, out_blobs). ret (ok_response result, out_blobs)))
       (\<lambda>exc. bnd (reads environment) (\<lambda>env'. ret (error_response L env' exc, []))) w"
  using assms by (simp add: handle_def bnd_def lift_def py_get_dict reads_def table_find_def)



subsection \<open>Sessions\<close>

text \<open>The evolution of the worker over the requests of a session, in any order.\<close>

fun session_states :: "('t, 'h) lib \<Rightarrow> 't worker \<Rightarrow> (py \<times> byte list list) list \<Rightarrow> 't worker option" where
  "session_states L w [] = Some w"
| "session_states L w ((meta, blobs) # reqs) =
     (case handle L meta blobs w of None \<Rightarrow> None | Some (_, w') \<Rightarrow> session_states L w' reqs)"

lemma session_evolves: "session_states L w reqs = Some w' \<Longrightarrow> evolves w w'"
proof (induction reqs arbitrary: w)
  case (Cons req reqs)
  obtain meta blobs where r: "req = (meta, blobs)" by (cases req)
  with Cons.prems obtain q w1 where h: "handle L meta blobs w = Some (q, w1)" "session_states L w1 reqs = Some w'"
    by (auto split: option.splits)
  from evo.keepsD [OF handle_keeps h(1)] Cons.IH [OF h(2)] show ?case by (rule evo.trans)
qed (simp add: evo.refl)

lemma new_handler_ok: "worker_ok (new_handler parsed env gen)"
  by (simp add: worker_ok_def new_handler_def registry_ok_def registry_init_def idmap_ok_def exec_ok_def
      exec_registry_init_def)

lemma get_stale: "get r (PInt k) = Inl (WorkerErr StaleReferenceC
     ''buffer {buffer_id} is not resident in this worker generation'' [(''buffer_id'', PInt k)]) \<longleftrightarrow>
   map_of (buffers r) k = None"
  by (auto simp: get_def int_key_def split: option.splits)

lemma exec_get_stale: "exec_get r (PInt k) = Inl (WorkerErr StaleReferenceC ''executable {exec_id} not found''
     [(''executable_id'', PInt k)]) \<longleftrightarrow> map_of (executables r) k = None"
  by (auto simp: exec_get_def int_key_def split: option.splits)

lemma evolves_ok: "evolves w w' \<Longrightarrow> worker_ok w \<Longrightarrow> worker_ok w'"
  by (simp add: evolves_def)

text \<open>
  C20. No sequence of requests, whatever they hold and however they fail, breaks the worker's state. From a
  fresh handler every buffer and executable is stored under its own id, which is positive and below the next
  one to be given out, and no id occurs twice; the device and the generation never change; no counter
  decreases; a stop once asked for stays.
\<close>

theorem session_invariant:
  assumes "session_states L (new_handler parsed env gen) (reqs @ later) = Some w"
  shows "\<exists>w0. session_states L (new_handler parsed env gen) reqs = Some w0 \<and> worker_ok w0 \<and> worker_ok w \<and>
     parsed_device w = parsed \<and> generation w = gen \<and> stats_le (stat w0) (stat w) \<and>
     (should_stop w0 \<longrightarrow> should_stop w) \<and> next_id (registry w0) \<le> next_id (registry w) \<and>
     exec_next_id (execs w0) \<le> exec_next_id (execs w)"
proof -
  let ?n = "new_handler parsed env gen"
  have split: "session_states L v (xs @ ys) = Option.bind (session_states L v xs) (\<lambda>v'. session_states L v' ys)" for v xs ys
    by (induction xs arbitrary: v) (auto split: option.splits)
  from assms obtain w0 where w0: "session_states L ?n reqs = Some w0" "session_states L w0 later = Some w"
    by (auto simp: split bind_eq_Some_conv)
  have "evolves ?n w0" "evolves w0 w" using w0 by (auto intro: session_evolves)
  moreover from this have "evolves ?n w" by (rule evo.trans)
  moreover have "parsed_device ?n = parsed" "generation ?n = gen" by (simp_all add: new_handler_def)
  ultimately show ?thesis using w0(1) new_handler_ok [of parsed env gen]
    by (auto simp: evolves_def dest: tensors.reg_steps_upcoming execs.reg_steps_upcoming)
qed

lemma demo_states:
  "session_states demo_lib demo_worker [(request ''stats'' [], []), (request ''shutdown'' [], [])] =
     Some (demo_worker\<lparr>should_stop := True\<rparr>)"
  by (simp add: request_def handle_def bnd_def catch_def lift_def reads_def py_get_def table_find_def dispatch_def
      cmd_stats_def cmd_shutdown_def modify_def ret_def)

theorem session_invariant_witness:
  "worker_ok (demo_worker\<lparr>should_stop := True\<rparr>) \<and>
   stats_le (stat demo_worker) (stat (demo_worker\<lparr>should_stop := True\<rparr>))"
  using session_invariant [of demo_lib "parse_device None" Map.empty 1 "[]"
      "[(request ''stats'' [], []), (request ''shutdown'' [], [])]", unfolded append_Nil, OF demo_states] by simp

text \<open>
  C21. A stale reference stays stale for the life of the worker. If in some state of a session a buffer id that
  was handed out before is not resident, then after any further requests a download of it is still refused
  with \<open>StaleReference\<close>, and so is an execution of an executable id that is gone.
\<close>

theorem stale_for_life:
  assumes "session_states L (new_handler parsed env gen) reqs = Some w" and "session_states L w later = Some w'"
    and "k < next_id (registry w)" and "map_of (buffers (registry w)) k = None"
    and "x < exec_next_id (execs w)" and "map_of (executables (execs w)) x = None"
  shows "cmd_download L (PDict [(''id'', PInt k)]) blobs w' = Some (Inl (WorkerErr StaleReferenceC
       ''buffer {buffer_id} is not resident in this worker generation'' [(''buffer_id'', PInt k)]), w') \<and>
     cmd_execute L (PDict [(''executable_id'', PInt x), (''inputs'', ins)]) blobs w' = Some (Inl (WorkerErr
       StaleReferenceC ''executable {exec_id} not found'' [(''executable_id'', PInt x)]), w')"
proof -
  have "worker_ok w" by (rule evolves_ok [OF session_evolves [OF assms(1)] new_handler_ok])
  with session_evolves [OF assms(2)] have steps: "tensors.reg_step\<^sup>*\<^sup>* (registry w) (registry w')"
    "execs.reg_step\<^sup>*\<^sup>* (execs w) (execs w')" by (auto simp: evolves_def)
  have "get (registry w') (PInt k) = Inl (WorkerErr StaleReferenceC
       ''buffer {buffer_id} is not resident in this worker generation'' [(''buffer_id'', PInt k)])"
    using tensors.reg_steps_stale [OF steps(1) assms(3,4)] by (simp add: get_stale)
  moreover have "exec_get (execs w') (PInt x) = Inl (WorkerErr
       StaleReferenceC ''executable {exec_id} not found'' [(''executable_id'', PInt x)])"
    using execs.reg_steps_stale [OF steps(2) assms(5,6)] by (simp add: exec_get_stale)
  ultimately show ?thesis
    by (simp add: cmd_download_def cmd_execute_def dict_args_def py_item_def bnd_def lift_def reads_def)
qed

lemma demo_burn:
  "session_states demo_lib demo_worker [(request ''compile'' [(''graph'', PNone)], [])] =
     Some (demo_worker\<lparr>execs := \<lparr>executables = [], exec_next_id = 2\<rparr>\<rparr>)"
  by (simp add: request_def handle_def bnd_def catch_def lift_def reads_def py_get_def table_find_def dispatch_def
      cmd_compile_def dict_args_def py_item_def py_or_def modify_def ret_def exec_allocate_id_def new_handler_def
      exec_registry_init_def compile_graph_def demo_lib_def demo_exe_def validate_def gcheck_def)

theorem stale_for_life_witness:
  "\<exists>w e. cmd_execute demo_lib (PDict [(''executable_id'', PInt 1), (''inputs'', PList [])]) [] w = Some (Inl e, w)"
proof -
  let ?w = "demo_worker\<lparr>execs := \<lparr>executables = [], exec_next_id = 2\<rparr>, registry := (registry demo_worker)\<lparr>next_id := 1\<rparr>\<rparr>"
  have s: "session_states demo_lib demo_worker [(request ''compile'' [(''graph'', PNone)], [])] = Some ?w"
    using demo_burn by (simp add: new_handler_def registry_init_def)
  have "session_states demo_lib ?w [] = Some ?w" "0 < next_id (registry ?w)" "map_of (buffers (registry ?w)) 0 = None"
    "1 < exec_next_id (execs ?w)" "map_of (executables (execs ?w)) 1 = None"
    by (simp_all add: new_handler_def registry_init_def)
  from stale_for_life [OF s this, of "[]" "PList []"] show ?thesis by blast
qed

subsection \<open>Data in, data out\<close>

text \<open>
  What the round trip of a real tensor relies on of numpy and tinygrad. \<open>raw t\<close> stands for the bytes of a
  tensor's elements, \<open>elt t\<close> for its numpy element type. An array read from a buffer holds that buffer;
  reshaping, copying and making contiguous keep the bytes, and so do, on the tensor's side, clone, realize and
  bitcast; the transfers carry the bytes over.
\<close>

definition transfer_laws :: "'t tg \<Rightarrow> ('t, 'h) host \<Rightarrow> ('t \<Rightarrow> byte list) \<Rightarrow> ('t \<Rightarrow> npdtype) \<Rightarrow> bool" where
  "transfer_laws T H raw elt =
     ((\<forall>b d a. frombuffer H b d = Inr a \<longrightarrow> tobytes H a = b \<and> np_dtype H a = d) \<and>
      (\<forall>s a r. np H (NReshape s) [a] = Inr r \<longrightarrow> tobytes H r = tobytes H a \<and> np_dtype H r = np_dtype H a) \<and>
      (\<forall>a r. np H NCopy [a] = Inr r \<longrightarrow> tobytes H r = tobytes H a \<and> np_dtype H r = np_dtype H a) \<and>
      (\<forall>a. \<exists>r. np H (NContiguous (Some (np_dtype H a))) [a] = Inr r \<and> tobytes H r = tobytes H a) \<and>
      (\<forall>a dev t. to_tensor H a dev = Inr t \<longrightarrow> raw t = tobytes H a \<and> elt t = np_dtype H a) \<and>
      (\<forall>t. \<exists>a. to_numpy H t = Inr a \<and> tobytes H a = raw t \<and> np_dtype H a = elt t) \<and>
      (\<forall>c t r. c \<in> {Clone, Realize} \<longrightarrow> call T c [t] = Inr r \<longrightarrow> raw r = raw t \<and> elt r = elt t \<and> dt T r = dt T t) \<and>
      (\<forall>t r. call T (Bitcast TgBFloat16) [t] = Inr r \<longrightarrow> raw r = raw t \<and> dt T r = TgBFloat16) \<and>
      (\<forall>t. dt T t = TgBFloat16 \<longrightarrow> (\<exists>r. call T (Bitcast TgUInt16) [t] = Inr r \<and> raw r = raw t \<and> elt r = UInt16)))"

lemma wire_in_raw:
  assumes "transfer_laws T H raw elt" and "T = tgl L" "H = hostl L"
    and "wire_in L arr (PStr name) dev = Inr t" and "\<not> complex_name name"
  shows "raw t = tobytes H arr" "name \<noteq> ''bf16'' \<Longrightarrow> elt t = np_dtype H arr" "name = ''bf16'' \<Longrightarrow> dt T t = TgBFloat16"
proof -
  from assms obtain u v where u: "wire_tensor T H arr (PStr name) dev = Inr u"
    and v: "(if np_shape H arr = [] then call T Clone [u] else Inr u) = Inr v" and t: "call T Realize [v] = Inr t"
    by (auto simp: wire_in_def realize_def rbind_eq_Inr)
  have keep: "raw t = raw u \<and> elt t = elt u \<and> dt T t = dt T u"
    using v t assms(1) unfolding transfer_laws_def by (auto split: if_splits)
  have bf: "tinygrad_dtype (PStr ''bf16'') = Inr TgBFloat16" by (simp add: tinygrad_dtype_def table_find_def TINYGRAD_def)
  from u assms(1,5) have "raw u = tobytes H arr \<and> (name \<noteq> ''bf16'' \<longrightarrow> elt u = np_dtype H arr) \<and>
      (name = ''bf16'' \<longrightarrow> dt T u = TgBFloat16)"
    unfolding transfer_laws_def by (auto simp: wire_tensor_def rbind_eq_Inr bf split: if_splits)
  with keep show "raw t = tobytes H arr" "name \<noteq> ''bf16'' \<Longrightarrow> elt t = np_dtype H arr"
    "name = ''bf16'' \<Longrightarrow> dt T t = TgBFloat16" by auto
qed

lemma download_raw:
  assumes "transfer_laws (tgl L) (hostl L) raw elt" and "numpy_dtype (PStr name) = Inr d" and "\<not> complex_name name"
    and "name \<noteq> ''bf16'' \<Longrightarrow> elt t = d" and "name = ''bf16'' \<Longrightarrow> dt (tgl L) t = TgBFloat16"
  shows "download_array L t (PStr name) = Inr (raw t)"
proof -
  have u16: "numpy_dtype (PStr ''bf16'') = Inr UInt16" by (simp add: numpy_dtype_def table_find_def NUMPY_def)
  have num: "\<exists>a. to_numpy (hostl L) t = Inr a \<and> tobytes (hostl L) a = raw t \<and> np_dtype (hostl L) a = elt t" for t
    using assms(1) by (simp add: transfer_laws_def)
  have "\<exists>a. wire_numpy (tgl L) (hostl L) t (PStr name) = Inr a \<and> tobytes (hostl L) a = raw t \<and> np_dtype (hostl L) a = d"
  proof (cases "name = ''bf16''")
    case True
    with assms(1,5) obtain r where "call (tgl L) (Bitcast TgUInt16) [t] = Inr r" "raw r = raw t" "elt r = UInt16"
      by (auto simp: transfer_laws_def)
    with num [of r] True assms(2) u16 show ?thesis by (simp add: wire_numpy_def)
  next
    case False
    with num [of t] assms(3,4) show ?thesis by (simp add: wire_numpy_def)
  qed
  then obtain a where a: "wire_numpy (tgl L) (hostl L) t (PStr name) = Inr a" "tobytes (hostl L) a = raw t"
    "np_dtype (hostl L) a = d" by blast
  then obtain r where "np (hostl L) (NContiguous (Some d)) [a] = Inr r" "tobytes (hostl L) r = raw t"
    using assms(1) unfolding transfer_laws_def by metis
  with a assms(2) show ?thesis by (simp add: download_array_def)
qed

lemma upload_result:
  assumes "cmd_upload L args (blob # rest) w = Some (Inr (reply, out), w1)" and "py_item args ''dtype'' = Inr (PStr name)"
  obtains shape arr t where "py_item args ''shape'' = Inr (PList shape)"
    and "load_array (hostl L) blob (PStr name) (PList shape) = Inr arr" and "wire_in L arr (PStr name) (tg_device w) = Inr t"
    and "reply = PDict [(''id'', PInt (next_id (registry w))), (''shape'', PList shape), (''dtype'', PStr name)]" "out = []"
    and "registry w1 = snd (put (registry w) t shape name (int (length (tobytes (hostl L) arr))) None)"
proof -
  from assms obtain shape where sh: "rbind (py_item args ''shape'') to_list = Inr shape"
    by (auto simp: cmd_upload_def bnd_def lift_def dict_args_def split: sum.splits)
  with assms obtain arr where arr: "load_array (hostl L) blob (PStr name) (PList shape) = Inr arr"
    by (auto simp: cmd_upload_def bnd_def lift_def dict_args_def reads_def split: sum.splits)
  with sh assms obtain t where t: "wire_in L arr (PStr name) (tg_device w) = Inr t"
    by (auto simp: cmd_upload_def bnd_def lift_def dict_args_def reads_def split: sum.splits)
  from sh have "py_item args ''shape'' = Inr (PList shape)" by (cases "py_item args ''shape''") (auto simp: to_list_def split: py.split_asm)
  moreover have "reply = PDict [(''id'', PInt (next_id (registry w))), (''shape'', PList shape), (''dtype'', PStr name)] \<and>
      out = [] \<and> registry w1 = snd (put (registry w) t shape name (int (length (tobytes (hostl L) arr))) None)"
    using assms sh arr t
    by (auto simp: cmd_upload_def bnd_def lift_def dict_args_def reads_def put_buffer_def to_list_def put_None Let_def
        modify_def upd_stat_def ret_def)
  ultimately show ?thesis using arr t by (intro that) auto
qed

text \<open>
  C22. What is uploaded is what a download returns. Under the laws of the transfers, when an upload of a blob with a
  real dtype name succeeds, the handle it returns can be downloaded at once and the download carries exactly the
  bytes of the blob, the dtype and the shape of the upload, \<open>bf16\<close> included.
\<close>

theorem upload_download:
  assumes "transfer_laws (tgl L) (hostl L) raw elt" and "worker_ok w"
    and "py_item args ''dtype'' = Inr (PStr name)" and "\<not> complex_name name"
    and "cmd_upload L args (blob # rest) w = Some (Inr (reply, out), w1)"
  shows "\<exists>i shape w2. py_item args ''shape'' = Inr (PList shape) \<and> out = [] \<and>
     reply = PDict [(''id'', PInt i), (''shape'', PList shape), (''dtype'', PStr name)] \<and>
     cmd_download L (PDict [(''id'', PInt i)]) [] w1 =
       Some (Inr (PDict [(''shape'', PList shape), (''dtype'', PStr name)], [blob]), w2)"
proof -
  let ?H = "hostl L"
  from upload_result [OF assms(5,3)] obtain shape arr t where shape: "py_item args ''shape'' = Inr (PList shape)"
    and arr: "load_array ?H blob (PStr name) (PList shape) = Inr arr"
    and t: "wire_in L arr (PStr name) (tg_device w) = Inr t"
    and w1: "reply = PDict [(''id'', PInt (next_id (registry w))), (''shape'', PList shape), (''dtype'', PStr name)]" "out = []"
      "registry w1 = snd (put (registry w) t shape name (int (length (tobytes ?H arr))) None)" .
  from arr obtain d where d: "numpy_dtype (PStr name) = Inr d" "tobytes ?H arr = blob" "np_dtype ?H arr = d"
    using assms(1) unfolding load_array_def transfer_laws_def by (fastforce simp: rbind_eq_Inr)
  note raw = wire_in_raw [OF assms(1) HOL.refl HOL.refl t assms(4)]
  have down: "download_array L t (PStr name) = Inr blob"
    using download_raw [OF assms(1) d(1) assms(4), of t] raw d by auto
  have "registry_ok (registry w)" using assms(2) by (simp add: worker_ok_def)
  then have "next_id (registry w) \<notin> fst ` set (buffers (registry w))" by (rule registry_ok_new)
  then have "get (registry w1) (PInt (next_id (registry w))) = Inr \<lparr>b_id = next_id (registry w), b_tensor = t,
      b_shape = shape, b_dtype = name, b_nbytes = int (length (tobytes ?H arr))\<rparr>"
    using w1(3) by (simp add: put_None get_def int_key_def)
  with w1 shape down show ?thesis
    by (auto simp: Let_def put_None cmd_download_def dict_args_def py_item_def bnd_def lift_def reads_def
        add_download_def upd_stat_def modify_def ret_def)
qed

theorem upload_download_witness:
  "\<exists>i shape w1 w2. cmd_upload demo_lib (PDict [(''shape'', PList [PInt 1]), (''dtype'', PStr ''bf16'')]) [[1, 2]] demo_worker =
       Some (Inr (PDict [(''id'', PInt i), (''shape'', PList shape), (''dtype'', PStr ''bf16'')], []), w1) \<and>
     cmd_download demo_lib (PDict [(''id'', PInt i)]) [] w1 =
       Some (Inr (PDict [(''shape'', PList shape), (''dtype'', PStr ''bf16'')], [[1, 2]]), w2)"
proof -
  let ?args = "PDict [(''shape'', PList [PInt 1]), (''dtype'', PStr ''bf16'')]"
  have laws: "transfer_laws (tgl demo_lib) (hostl demo_lib) (\<lambda>(d, g, b). b) (\<lambda>(d, g, b). d)"
    by (auto simp: transfer_laws_def tgl_def hostl_def demo_lib_def demo_exe_def demo_tg_def demo_host_def)
  have ok: "worker_ok demo_worker" by (rule new_handler_ok)
  have dt: "py_item ?args ''dtype'' = Inr (PStr ''bf16'')" by (simp add: py_item_def)
  have cn: "\<not> complex_name ''bf16''" by (simp add: complex_name_def COMPLEX_COMPONENT_def)
  obtain reply out w1 where up: "cmd_upload demo_lib ?args [[1, 2]] demo_worker = Some (Inr (reply, out), w1)"
    by (simp add: cmd_upload_def dict_args_def bnd_def lift_def reads_def py_item_def to_list_def load_array_def
        numpy_dtype_def table_find_def NUMPY_def hostl_def demo_lib_def demo_exe_def demo_host_def to_ints_def
        to_int_def wire_in_def wire_tensor_def tinygrad_dtype_def TINYGRAD_def tgl_def demo_tg_def realize_def
        complex_name_def COMPLEX_COMPONENT_def put_buffer_def modify_def upd_stat_def ret_def put_None)
  from upload_download [OF laws ok dt cn up] up show ?thesis by blast
qed

end
