(* ===== verification/Sessions.thy ===== *)
theory Sessions
  imports Service
begin

text \<open>
  The main loop as a service over messages. \<open>serve\<close> is what a worker promises a client: requests are handled
  in order, each response carries the id of its request, and the session ends at the end of the input (0), at a
  malformed frame (2), after a shutdown (0) or at an exception that leaves the handler (1). \<open>main_loop\<close>, which
  reads and writes bytes, implements it.
\<close>

type_synonym message = "nat \<times> py \<times> byte list list"

fun serve :: "('t, 'h) lib \<Rightarrow> int \<Rightarrow> message list \<Rightarrow> 't worker \<Rightarrow> (int \<times> message list \<times> 't worker) option" where
  "serve L ending [] w = Some (ending, [], w)"
| "serve L ending ((req_id, meta, blobs) # reqs) w =
     (case handle L meta blobs w of
        None \<Rightarrow> None
      | Some (Inl _, w') \<Rightarrow> Some (1, [], w')
      | Some (Inr (result, out), w') \<Rightarrow>
          if should_stop w' then Some (0, [(req_id, result, out)], w')
          else (case serve L ending reqs w' of
              None \<Rightarrow> None
            | Some (code, resps, w'') \<Rightarrow> Some (code, (req_id, result, out) # resps, w'')))"

definition frame_of :: "(byte list \<Rightarrow> py option) \<Rightarrow> byte list \<Rightarrow> message \<Rightarrow> bool" where
  "frame_of rd frame msg = (length frame \<le> MAX_FRAME_BYTES \<and> decode_frame rd frame = Inr msg)"

definition written_as :: "(py \<Rightarrow> byte list) \<Rightarrow> message \<Rightarrow> byte list \<Rightarrow> bool" where
  "written_as wr msg frame = (case msg of (req_id, meta, blobs) \<Rightarrow>
     length frame < 256 ^ 4 \<and> encode_frame wr req_id meta blobs = Inr frame)"

text \<open>How the input goes on after the requests: it ends, or a length prefix or a frame is malformed.\<close>

definition ends :: "(byte list \<Rightarrow> py option) \<Rightarrow> byte list \<Rightarrow> int \<Rightarrow> bool" where
  "ends rd rest code = (let len = be_nat (take 4 rest) in
     code = 0 \<and> length rest < 4 \<or>
     code = 2 \<and> 4 \<le> length rest \<and>
       (MAX_FRAME_BYTES < len \<or> length rest < 4 + len \<or>
        (\<exists>msg details. decode_frame rd (take len (drop 4 rest)) = Inl (WorkerErr ProtocolErrorC msg details))))"

lemma main_loop_end:
  assumes "stream_ok inp" and "ends (loads L) (concat inp) code"
  shows "main_loop (Suc k) L inp out w = Some (code, out, w)"
proof -
  let ?rest = "concat inp"
  let ?len = "be_nat (take 4 ?rest)"
  consider (eof) "code = 0" "length ?rest < 4" | (large) "code = 2" "4 \<le> length ?rest" "MAX_FRAME_BYTES < ?len"
    | (cut) "code = 2" "4 \<le> length ?rest" "?len \<le> MAX_FRAME_BYTES" "length ?rest < 4 + ?len"
    | (bad) m d where "code = 2" "?len \<le> MAX_FRAME_BYTES" "4 + ?len \<le> length ?rest"
        "decode_frame (loads L) (take ?len (drop 4 ?rest)) = Inl (WorkerErr ProtocolErrorC m d)"
    using assms(2) unfolding ends_def Let_def by (meson not_less)
  then show ?thesis
  proof cases
    case eof
    with read_packet_short [OF assms(1)] obtain s' where "read_packet inp = Inr (None, s')" by blast
    with eof show ?thesis by simp
  next
    case large
    with read_packet_large [OF assms(1)] show ?thesis by (simp add: protocol_error_def)
  next
    case cut
    with read_packet_cut [OF assms(1)] show ?thesis by (simp add: protocol_error_def)
  next
    case bad
    from read_packet_whole [OF assms(1) bad(2,3)] obtain s' where
      "read_packet inp = Inr (Some (take ?len (drop 4 ?rest)), s')" by blast
    with bad show ?thesis by simp
  qed
qed

lemma main_loop_step:
  assumes "stream_ok inp" and "concat inp = packet frame @ rest" and "frame_of (loads L) frame (req_id, meta, blobs)"
  obtains inp' where "stream_ok inp'" "concat inp' = rest"
    "main_loop (Suc k) L inp out w =
       (case handle L meta blobs w of
          None \<Rightarrow> None
        | Some (Inl _, w') \<Rightarrow> Some (1, out, w')
        | Some (Inr (rmeta, rblobs), w') \<Rightarrow>
            (case rbind (encode_frame (dumps L) req_id rmeta rblobs) (write_packet out) of
               Inl _ \<Rightarrow> Some (1, out, w')
             | Inr out' \<Rightarrow> if should_stop w' then Some (0, out', w') else main_loop k L inp' out' w'))"
proof -
  from assms(3) have f: "length frame \<le> MAX_FRAME_BYTES" "decode_frame (loads L) frame = Inr (req_id, meta, blobs)"
    by (simp_all add: frame_of_def)
  from read_packet_full [OF assms(1,2) f(1)] obtain inp' where
    "read_packet inp = Inr (Some frame, inp')" "stream_ok inp'" "concat inp' = rest" .
  with f(2) show ?thesis by (intro that) simp_all
qed

lemma write_response:
  "written_as wr (req_id, meta, blobs) frame \<Longrightarrow>
     rbind (encode_frame wr req_id meta blobs) (write_packet out) = Inr (out @ packet frame)"
  by (simp add: written_as_def write_packet_ok)

lemma main_loop_serve:
  assumes "list_all2 (frame_of (loads L)) frames reqs" and "stream_ok inp"
    and "concat inp = concat (map packet frames) @ rest" and "ends (loads L) rest ending"
    and "serve L ending reqs w = Some (code, resps, w')" and "list_all2 (written_as (dumps L)) resps outs"
  shows "main_loop (Suc (length reqs)) L inp out w = Some (code, out @ concat (map packet outs), w')"
  using assms
proof (induction frames reqs arbitrary: inp out w resps outs rule: list_all2_induct)
  case Nil
  then show ?case using main_loop_end [of inp L] by simp
next
  case (Cons frame frames req reqs)
  obtain req_id meta blobs where req: "req = (req_id, meta, blobs)" by (cases req)
  have inp: "concat inp = packet frame @ (concat (map packet frames) @ rest)" using Cons.prems(2) by simp
  from main_loop_step [OF Cons.prems(1) inp Cons.hyps(1) [unfolded req]] obtain inp' where
    inp': "stream_ok inp'" "concat inp' = concat (map packet frames) @ rest" and
    step: "main_loop (Suc (Suc (length reqs))) L inp out w =
       (case handle L meta blobs w of
          None \<Rightarrow> None
        | Some (Inl _, w') \<Rightarrow> Some (1, out, w')
        | Some (Inr (rmeta, rblobs), w') \<Rightarrow>
            (case rbind (encode_frame (dumps L) req_id rmeta rblobs) (write_packet out) of
               Inl _ \<Rightarrow> Some (1, out, w')
             | Inr out' \<Rightarrow> if should_stop w' then Some (0, out', w') else main_loop (Suc (length reqs)) L inp' out' w'))" .
  from Cons.prems(4) [unfolded req] consider
      (fail) e w1 where "handle L meta blobs w = Some (Inl e, w1)" "code = 1" "resps = []" "w' = w1"
    | (stop) r o' w1 where "handle L meta blobs w = Some (Inr (r, o'), w1)" "should_stop w1" "code = 0"
        "resps = [(req_id, r, o')]" "w' = w1"
    | (go) r o' w1 rs where "handle L meta blobs w = Some (Inr (r, o'), w1)" "\<not> should_stop w1"
        "serve L ending reqs w1 = Some (code, rs, w')" "resps = (req_id, r, o') # rs"
    by (auto split: option.splits sum.splits if_splits prod.splits)
  then show ?case
  proof cases
    case fail
    with Cons.prems(5) step show ?thesis by simp
  next
    case stop
    with Cons.prems(5) obtain f where "outs = [f]" "written_as (dumps L) (req_id, r, o') f"
      by (auto simp: list_all2_Cons1)
    with stop step show ?thesis by (simp add: write_response)
  next
    case go
    with Cons.prems(5) obtain f fs where f: "outs = f # fs" "written_as (dumps L) (req_id, r, o') f"
      "list_all2 (written_as (dumps L)) rs fs" by (auto simp: list_all2_Cons1)
    have "main_loop (Suc (length reqs)) L inp' (out @ packet f) w1 =
        Some (code, (out @ packet f) @ concat (map packet fs), w')"
      by (rule Cons.IH [OF inp' Cons.prems(3) go(3) f(3)])
    with go f step show ?thesis by (simp add: write_response)
  qed
qed

lemma serve_ids:
  "serve L ending reqs w = Some (code, resps, w') \<Longrightarrow> map fst resps = take (length resps) (map fst reqs)"
  by (induction L ending reqs w arbitrary: code resps w' rule: serve.induct)
    (fastforce split: option.splits sum.splits if_splits prod.splits)+

text \<open>
  C23. The worker process implements the session. Let the standard input, in chunks of any size, hold the packets of
  frames that decode to the requests, and then end or go on with a malformed prefix or frame. If the handler serves
  the requests with these responses and ending, and the responses fit into frames, then the process writes exactly
  their packets, in order, each with the id of its request, and ends with that status and state; fuel one above the
  number of requests is enough.
\<close>

theorem main_serves:
  assumes "configure_environment env = (parsed, env')"
    and "list_all2 (frame_of (loads L)) frames reqs" and "stream_ok inp"
    and "concat inp = concat (map packet frames) @ rest" and "ends (loads L) rest ending"
    and "serve L ending reqs (new_handler parsed env' gen) = Some (code, resps, w)"
    and "list_all2 (written_as (dumps L)) resps outs"
  shows "main (Suc (length reqs)) L env gen inp = Some (code, concat (map packet outs), w) \<and>
     map fst resps = take (length resps) (map fst reqs)"
  using main_loop_serve [OF assms(2-7), of "[]"] serve_ids [OF assms(6)] assms(1) by (simp add: main_def)

theorem main_serves_witness:
  "\<exists>frame reply w. decode_frame json_loads frame = Inr (7, request ''shutdown'' [], []) \<and>
     encode_frame json_dumps 7 (ok_response (PDict [])) [] = Inr reply \<and>
     main 2 demo_lib Map.empty 1 [packet frame] = Some (0, packet reply, w)"
proof -
  let ?m = "request ''shutdown'' []" and ?r = "ok_response (PDict [])"
  have can: "canonical ?m" "is_dict ?m" by code_simp+
  have len: "length (json_dumps ?m) = 32" "length (json_dumps ?r) = 23" by code_simp+
  obtain frame where frame: "encode_frame json_dumps 7 ?m [] = Inr frame" "length frame = 52"
    by (simp add: encode_frame_def header_pack_def struct_pack_def Let_def len MAGIC_def del: be_bytes.simps)
  obtain reply where reply: "encode_frame json_dumps 7 ?r [] = Inr reply" "length reply = 43"
    by (simp add: encode_frame_def header_pack_def struct_pack_def Let_def len MAGIC_def del: be_bytes.simps)
  have lib: "loads demo_lib = json_loads" "dumps demo_lib = json_dumps" by (simp_all add: demo_lib_def)
  note dec = json.decode_encode [OF can frame(1)]
  obtain parsed env' where env: "configure_environment Map.empty = (parsed, env')" by fastforce
  let ?w = "new_handler parsed env' 1 :: tensor worker"
  have serve: "serve demo_lib 0 [(7, ?m, [])] ?w = Some (0, [(7, ?r, [])], ?w\<lparr>should_stop := True\<rparr>)"
    by (simp add: request_def handle_def bnd_def catch_def lift_def reads_def py_get_def table_find_def dispatch_def
        cmd_shutdown_def modify_def ret_def)
  have "list_all2 (frame_of (loads demo_lib)) [frame] [(7, ?m, [])]"
    using dec frame(2) lib by (simp add: frame_of_def MAX_FRAME_BYTES_def)
  moreover have "stream_ok [packet frame]" using frame(2) by (auto simp: stream_ok_def packet_def)
  moreover have "concat [packet frame] = concat (map packet [frame]) @ []" by simp
  moreover have "ends (loads demo_lib) [] 0" by (simp add: ends_def)
  moreover note serve
  moreover have "list_all2 (written_as (dumps demo_lib)) [(7, ?r, [])] [reply]"
    using reply lib by (simp add: written_as_def)
  ultimately have "main (Suc (length [(7 :: nat, ?m, [] :: byte list list)])) demo_lib Map.empty 1 [packet frame] =
      Some (0, concat (map packet [reply]), ?w\<lparr>should_stop := True\<rparr>)"
    using main_serves [OF env] by blast
  with dec reply(1) show ?thesis by (auto simp: numeral_2_eq_2)
qed

end
