(* ===== verification/Values.thy ===== *)
theory Values
  imports ComplexOps
begin

text \<open>
  The operations depend on the values of tensors only. \<open>\<alpha>\<close> maps a tensor object to its value; \<open>value_based \<alpha> T\<close> says
  that calls on tensors of the same values give the same values, that shape, dtype and scalar are properties of the value,
  and that a copy has the value of the original. \<open>on_values \<alpha> T\<close> is then the library on values, and evaluating a node on
  values is the value of evaluating it on tensors, for every operation of the table.
\<close>

definition on_values :: "('t \<Rightarrow> 'v) \<Rightarrow> 't tg \<Rightarrow> 'v tg" where
  "on_values \<alpha> T = \<lparr>call = (\<lambda>c vs. map_sum id \<alpha> (call T c (map (inv \<alpha>) vs))), shp = (\<lambda>v. shp T (inv \<alpha> v)),
     dt = (\<lambda>v. dt T (inv \<alpha> v)), item = (\<lambda>v. item T (inv \<alpha> v)), realized = (\<lambda>_. False), base_id = (\<lambda>_. 0),
     same_uop = (=)\<rparr>"

definition value_based :: "('t \<Rightarrow> 'v) \<Rightarrow> 't tg \<Rightarrow> bool" where
  "value_based \<alpha> T =
     ((\<forall>c ts us. map \<alpha> ts = map \<alpha> us \<longrightarrow> map_sum id \<alpha> (call T c ts) = map_sum id \<alpha> (call T c us)) \<and>
      (\<forall>t u. \<alpha> t = \<alpha> u \<longrightarrow> shp T t = shp T u \<and> dt T t = dt T u \<and> item T t = item T u) \<and>
      (\<forall>c t. c \<in> {Clone, Realize, Contiguous} \<longrightarrow> map_sum id \<alpha> (call T c [t]) = Inr (\<alpha> t)))"

lemma call_values: "value_based \<alpha> T \<Longrightarrow> call (on_values \<alpha> T) c (map \<alpha> ts) = map_sum id \<alpha> (call T c ts)"
proof -
  assume R: "value_based \<alpha> T"
  have "map \<alpha> (map (inv \<alpha>) (map \<alpha> ts)) = map \<alpha> ts" by (simp add: f_inv_into_f)
  with R have "map_sum id \<alpha> (call T c (map (inv \<alpha>) (map \<alpha> ts))) = map_sum id \<alpha> (call T c ts)"
    unfolding value_based_def by blast
  then show ?thesis by (simp add: on_values_def)
qed

lemma call_some [simp]:
  assumes "value_based \<alpha> T"
  shows "call (on_values \<alpha> T) c [] = map_sum id \<alpha> (call T c [])"
    "call (on_values \<alpha> T) c [\<alpha> t] = map_sum id \<alpha> (call T c [t])"
    "call (on_values \<alpha> T) c [\<alpha> t, \<alpha> u] = map_sum id \<alpha> (call T c [t, u])"
    "call (on_values \<alpha> T) c [\<alpha> t, \<alpha> u, \<alpha> v] = map_sum id \<alpha> (call T c [t, u, v])"
    "call (on_values \<alpha> T) c (\<alpha> t # map \<alpha> ts) = map_sum id \<alpha> (call T c (t # ts))"
    "call (on_values \<alpha> T) c (\<alpha> t # \<alpha> u # map \<alpha> ts) = map_sum id \<alpha> (call T c (t # u # ts))"
  using call_values [OF assms, of c "[]"] call_values [OF assms, of c "[t]"] call_values [OF assms, of c "[t, u]"]
    call_values [OF assms, of c "[t, u, v]"] call_values [OF assms, of c "t # ts"] call_values [OF assms, of c "t # u # ts"]
  by simp_all

lemma observe_values [simp]:
  assumes "value_based \<alpha> T"
  shows "shp (on_values \<alpha> T) (\<alpha> t) = shp T t" "dt (on_values \<alpha> T) (\<alpha> t) = dt T t" "item (on_values \<alpha> T) (\<alpha> t) = item T t"
proof -
  have "\<alpha> (inv \<alpha> (\<alpha> t)) = \<alpha> t" by (simp add: f_inv_into_f)
  then have "shp T (inv \<alpha> (\<alpha> t)) = shp T t \<and> dt T (inv \<alpha> (\<alpha> t)) = dt T t \<and> item T (inv \<alpha> (\<alpha> t)) = item T t"
    using assms unfolding value_based_def by blast
  then show "shp (on_values \<alpha> T) (\<alpha> t) = shp T t" "dt (on_values \<alpha> T) (\<alpha> t) = dt T t"
    "item (on_values \<alpha> T) (\<alpha> t) = item T t"
    by (simp_all add: on_values_def)
qed

lemma realized_values [simp]: "realized (on_values \<alpha> T) = (\<lambda>_. False)"
  by (simp add: on_values_def)

subsection \<open>Moving a value map through the code\<close>

lemma push_bind [simp]: "map_sum id f (rbind m h) = rbind m (\<lambda>x. map_sum id f (h x))"
  by (cases m) auto

lemma bind_map [simp]: "rbind (map_sum id f m) g = rbind m (\<lambda>x. g (f x))"
  by (cases m) auto

lemma push_if [simp]: "map_sum id f (if c then m else n) = (if c then map_sum id f m else map_sum id f n)"
  by simp

lemma push_option [simp]:
  "map_sum id f (case y of None \<Rightarrow> m | Some x \<Rightarrow> g x) = (case y of None \<Rightarrow> map_sum id f m | Some x \<Rightarrow> map_sum id f (g x))"
  by (cases y) auto

lemma push_prod [simp]: "map_sum id f (case p of (x, y) \<Rightarrow> g x y) = (case p of (x, y) \<Rightarrow> map_sum id f (g x y))"
  by (cases p) auto

lemma push_case_map [simp]:
  "(case map_prod f g p of (x, y) \<Rightarrow> h x y) = (case p of (x, y) \<Rightarrow> h (f x) (g y))"
  by (cases p) auto

lemma push_list [simp]:
  "map_sum id f (case xs of [] \<Rightarrow> m | y # ys \<Rightarrow> g y ys) = (case xs of [] \<Rightarrow> map_sum id f m | y # ys \<Rightarrow> map_sum id f (g y ys))"
  by (cases xs) auto

declare rbind_assoc [simp]

lemma bind_if [simp]: "rbind (if c then m else n) g = (if c then rbind m g else rbind n g)"
  by simp

lemma bind_option [simp]:
  "rbind (case y of None \<Rightarrow> m | Some x \<Rightarrow> h x) g = (case y of None \<Rightarrow> rbind m g | Some x \<Rightarrow> rbind (h x) g)"
  by (cases y) auto

lemma map_sum_twice [simp]: "map_sum id f (map_sum id g m) = map_sum id (\<lambda>x. f (g x)) m"
  by (cases m) auto

lemma rfold_hom: "(\<And>s x. f' (h s) x = map_sum id h (f s x)) \<Longrightarrow> rfold f' (h s) xs = map_sum id h (rfold f s xs)"
  by (induction xs arbitrary: s) auto

lemma rmap_hom: "(\<And>x. x \<in> set xs \<Longrightarrow> f' (k x) = map_sum id h (f x)) \<Longrightarrow> rmap f' (map k xs) = map_sum id (map h) (rmap f xs)"
  by (induction xs) auto

lemma rmap_hom_id: "(\<And>x. x \<in> set xs \<Longrightarrow> f' x = map_sum id h (f x)) \<Longrightarrow> rmap f' xs = map_sum id (map h) (rmap f xs)"
  by (induction xs) auto

lemma lget_map [simp]: "lget (map h xs) i = map_sum id h (lget xs i)"
  by (auto simp: lget_def py_index_def)

subsection \<open>Environments\<close>

text \<open>What a node sees of an environment, as values.\<close>

definition agrees :: "('t \<Rightarrow> 'v) \<Rightarrow> py \<Rightarrow> 't env \<Rightarrow> 'v env \<Rightarrow> bool" where
  "agrees \<alpha> node env env' = (sym env' = sym env \<and>
     (\<forall>ins. node_inputs node = Inr ins \<longrightarrow> (\<forall>ref \<in> set ins. lookup env' ref = map_sum id (map_val \<alpha>) (lookup env ref))))"

lemma agrees_sym: "agrees \<alpha> node env env' \<Longrightarrow> sym env' = sym env"
  by (simp add: agrees_def)

lemma as_tensor_values [simp]: "as_tensor (map_val \<alpha> v) = map_sum id \<alpha> (as_tensor v)"
  by (cases v) (auto simp: as_tensor_def)

lemma lget_in: "lget xs i = Inr x \<Longrightarrow> x \<in> set xs"
  by (auto simp: lget_def py_index_def split: option.splits if_splits)

lemma node_in_values [simp]:
  assumes "agrees \<alpha> node env env'"
  shows "node_in node env' i = map_sum id (map_val \<alpha>) (node_in node env i)"
proof (cases "node_inputs node")
  case (Inr ins)
  then show ?thesis using assms
    by (cases "lget ins i") (auto simp: node_in_def agrees_def dest!: lget_in)
qed (simp add: node_in_def)

lemma tensor_in_values [simp]: "agrees \<alpha> node env env' \<Longrightarrow> tensor_in node env' i = map_sum id \<alpha> (tensor_in node env i)"
  by (simp add: tensor_in_def)

lemma lookups_values:
  assumes "agrees \<alpha> node env env'" and "node_inputs node = Inr ins" and "set refs \<subseteq> set ins"
  shows "rmap (lookup env') refs = map_sum id (map (map_val \<alpha>)) (rmap (lookup env) refs)"
  using assms by (intro rmap_hom_id) (auto simp: agrees_def)

lemma inputs_values [simp]:
  assumes "agrees \<alpha> node env env'"
  shows "rbind (node_inputs node) (\<lambda>ins. rbind (rmap (lookup env') ins) h) =
    rbind (node_inputs node) (\<lambda>ins. rbind (rmap (lookup env) ins) (\<lambda>vs. h (map (map_val \<alpha>) vs)))"
  using assms by (intro rbind_cong) (auto simp: lookups_values [where node = node])

lemma dyn_inputs_values [simp]:
  assumes "agrees \<alpha> node env env'"
  shows "dyn_inputs node env' n = map_sum id (map (map_val \<alpha>)) (dyn_inputs node env n)"
  unfolding dyn_inputs_def push_bind
  by (intro rbind_cong refl lookups_values [OF assms]) (auto dest: in_set_dropD)

lemma tensors_in_values [simp]:
  assumes "agrees \<alpha> node env env'"
  shows "tensors_in node env' = map_sum id (map \<alpha>) (tensors_in node env)"
  unfolding tensors_in_def push_bind
  by (intro rbind_cong refl rmap_hom_id) (use assms in \<open>auto simp: agrees_def\<close>)

subsection \<open>Elementwise expressions\<close>

fun arity :: "expr \<Rightarrow> nat" where
  "arity (Arg i) = Suc i"
| "arity (Num _) = 0"
| "arity (Op1 _ e) = arity e"
| "arity (Op2 _ e f) = max (arity e) (arity f)"
| "arity (Sel c e f) = max (arity c) (max (arity e) (arity f))"

lemma operators_values [simp]:
  assumes "value_based \<alpha> T"
  shows "un (on_values \<alpha> T) m (\<alpha> t) = map_sum id \<alpha> (un T m t)"
    "bin (on_values \<alpha> T) m (\<alpha> t) (\<alpha> u) = map_sum id \<alpha> (bin T m t u)"
    "binr (on_values \<alpha> T) m (\<alpha> t) s = map_sum id \<alpha> (binr T m t s)"
    "binl (on_values \<alpha> T) m s (\<alpha> t) = map_sum id \<alpha> (binl T m s t)"
  using assms by (simp_all add: un_def bin_def binr_def binl_def)

lemma tensor_of_values [simp]: "tensor_of (map_operand \<alpha> v) = map_sum id \<alpha> (tensor_of v)"
  by (cases v) (auto simp: tensor_of_def)

lemma apply_values [simp]:
  assumes "value_based \<alpha> T"
  shows "apply_where (on_values \<alpha> T) (\<alpha> c) (map_operand \<alpha> a) (map_operand \<alpha> b) = map_sum id \<alpha> (apply_where T c a b)"
    "apply_bin (on_values \<alpha> T) m (map_operand \<alpha> a) (map_operand \<alpha> b) = map_sum id \<alpha> (apply_bin T m a b)"
  using assms by (cases a; cases b; simp)+

lemma eval_expr_values:
  "value_based \<alpha> T \<Longrightarrow> arity e \<le> length vs \<Longrightarrow>
     eval_expr (on_values \<alpha> T) (map \<alpha> vs) e = map_sum id (map_operand \<alpha>) (eval_expr T vs e)"
  by (induction e) simp_all

lemma elementwise_values:
  "value_based \<alpha> T \<Longrightarrow> arity e \<le> length vs \<Longrightarrow> elementwise (on_values \<alpha> T) (map \<alpha> vs) e = map_sum id \<alpha> (elementwise T vs e)"
  by (simp add: elementwise_def eval_expr_values)

subsection \<open>Operations\<close>

lemma moves_values [simp]:
  assumes "value_based \<alpha> T"
  shows "reshape (on_values \<alpha> T) (\<alpha> t) = (\<lambda>s. map_sum id \<alpha> (reshape T t s))"
    "permute (on_values \<alpha> T) (\<alpha> t) = (\<lambda>s. map_sum id \<alpha> (permute T t s))"
    "expand (on_values \<alpha> T) (\<alpha> t) = (\<lambda>s. map_sum id \<alpha> (expand T t s))"
    "arange (on_values \<alpha> T) = (\<lambda>n. map_sum id \<alpha> (arange T n))"
    "cast_to (on_values \<alpha> T) (\<alpha> t) = (\<lambda>node. map_sum id \<alpha> (cast_to T t node))"
  using assms by (simp_all add: fun_eq_iff reshape_def permute_def expand_def arange_def cast_to_def)

lemma cat_parts_values [simp]:
  assumes "value_based \<alpha> T"
  shows "cat_parts (on_values \<alpha> T) (map \<alpha> ts) = (\<lambda>axis. map_sum id \<alpha> (cat_parts T ts axis))"
proof (cases ts)
  case (Cons t us)
  with assms show ?thesis by (cases us) (simp_all add: cat_parts_def fun_eq_iff)
qed (simp add: cat_parts_def fun_eq_iff)

lemma smear_values [simp]:
  assumes "value_based \<alpha> T"
  shows "smear (on_values \<alpha> T) w s (\<alpha> t) = map_sum id \<alpha> (smear T w s t)"
proof (induction "w - s" arbitrary: s t rule: less_induct)
  case less
  then show ?case using assms
    by (subst (1 2) smear.simps) (auto intro!: rbind_cong)
qed

lemma bit_total_values [simp]:
  assumes "value_based \<alpha> T"
  shows "bit_total (on_values \<alpha> T) w (\<alpha> t) = map_sum id \<alpha> (bit_total T w t)"
  using assms by (simp add: bit_total_def) (intro rbind_cong refl rfold_hom, simp)

lemmas branches = if_cong option.case_cong list.case_cong

lemma bit_reduce_values [simp]:
  assumes "value_based \<alpha> T"
  shows "bit_reduce (on_values \<alpha> T) node (\<alpha> t) = map_sum id \<alpha> (bit_reduce T node t)"
  unfolding bit_reduce_def using assms by (simp cong: branches)

lemma simple_ops_values [simp]:
  assumes "value_based \<alpha> T" and "agrees \<alpha> node env env'"
  shows "reduce_op (on_values \<alpha> T) node env' = map_sum id \<alpha> (reduce_op T node env)"
    "argreduce (on_values \<alpha> T) node env' = map_sum id \<alpha> (argreduce T node env)"
    "broadcast (on_values \<alpha> T) node env' = map_sum id \<alpha> (broadcast T node env)"
    "pad_op (on_values \<alpha> T) node env' = map_sum id \<alpha> (pad_op T node env)"
    "sort_op (on_values \<alpha> T) node env' = map_sum id \<alpha> (sort_op T node env)"
    "argsort_op (on_values \<alpha> T) node env' = map_sum id \<alpha> (argsort_op T node env)"
    "clip (on_values \<alpha> T) node env' = map_sum id \<alpha> (clip T node env)"
    "concatenate (on_values \<alpha> T) node env' = map_sum id \<alpha> (concatenate T node env)"
  using assms by (simp_all add: reduce_op_def argreduce_def broadcast_def pad_op_def sort_op_def argsort_op_def clip_def
      concatenate_def Let_def cong: branches)

lemma stack_values [simp]:
  assumes "value_based \<alpha> T" and "agrees \<alpha> node env env'"
  shows "stack (on_values \<alpha> T) node env' = map_sum id \<alpha> (stack T node env)"
proof -
  have "rmap (\<lambda>i. rbind (lookup env' i) (\<lambda>v. rbind (as_tensor v) (\<lambda>x. reshape (on_values \<alpha> T) x
      (list_insert (shp (on_values \<alpha> T) x) axis 1)))) ins =
    map_sum id (map \<alpha>) (rmap (\<lambda>i. rbind (lookup env i) (\<lambda>v. rbind (as_tensor v) (\<lambda>x. reshape T x
      (list_insert (shp T x) axis 1)))) ins)" if "node_inputs node = Inr ins" for ins axis
    using assms that by (intro rmap_hom_id) (auto simp: agrees_def)
  with assms(1) show ?thesis by (simp add: stack_def cong: rbind_cong)
qed

lemma made_values [simp]:
  assumes "value_based \<alpha> T"
  shows "eye (on_values \<alpha> T) node = map_sum id \<alpha> (eye T node)" "iota (on_values \<alpha> T) node = map_sum id \<alpha> (iota T node)"
  using assms by (simp_all add: eye_def iota_def Let_def cong: branches)

lemma lget_values [simp]: "lget (map (map_val \<alpha>) dyn) j = map_sum id (map_val \<alpha>) (lget dyn j)"
  by simp

lemma starts_values [simp]:
  assumes "value_based \<alpha> T"
  shows "read_start (on_values \<alpha> T) (map (map_val \<alpha>) dyn) spec = read_start T dyn spec"
    "slice_start (on_values \<alpha> T) (map (map_val \<alpha>) dyn) syms shape lengths axis spec = slice_start T dyn syms shape lengths axis spec"
    "put_start (on_values \<alpha> T) (map (map_val \<alpha>) dyn) syms shape lengths axis spec = put_start T dyn syms shape lengths axis spec"
proof -
  show r: "read_start (on_values \<alpha> T) (map (map_val \<alpha>) dyn) spec = read_start T dyn spec"
    using assms by (simp add: read_start_def)
  show "slice_start (on_values \<alpha> T) (map (map_val \<alpha>) dyn) syms shape lengths axis spec = slice_start T dyn syms shape lengths axis spec"
    "put_start (on_values \<alpha> T) (map (map_val \<alpha>) dyn) syms shape lengths axis spec = put_start T dyn syms shape lengths axis spec"
    by (simp_all add: slice_start_def put_start_def r)
qed

lemma slice_values [simp]:
  assumes "value_based \<alpha> T" and "agrees \<alpha> node env env'"
  shows "slice_op (on_values \<alpha> T) node env' = map_sum id \<alpha> (slice_op T node env)"
    "put_slice (on_values \<alpha> T) node env' = map_sum id \<alpha> (put_slice T node env)"
  using assms agrees_sym [OF assms(2)] by (simp_all add: slice_op_def put_slice_def Let_def case_prod_unfold cong: branches)

subsection \<open>Linear indices, windows, contractions\<close>

lemma column_values [simp]:
  assumes "value_based \<alpha> T"
  shows "column_term (on_values \<alpha> T) (\<alpha> idx) strides = (\<lambda>j. map_sum id \<alpha> (column_term T idx strides j))"
  using assms by (simp add: column_term_def column_def fun_eq_iff)

lemma linear_values [simp]:
  assumes "value_based \<alpha> T"
  shows "linear_index (on_values \<alpha> T) (\<alpha> idx) strides k = map_sum id \<alpha> (linear_index T idx strides k)"
  using assms by (simp add: linear_index_def) (intro rbind_cong refl rfold_hom, simp)

lemma gather_values [simp]:
  assumes "value_based \<alpha> T" and "agrees \<alpha> node env env'"
  shows "gather (on_values \<alpha> T) node env' = map_sum id \<alpha> (gather T node env)"
  using assms by (simp add: gather_def Let_def)

lemma indexed_values [simp]:
  assumes "value_based \<alpha> T" and "agrees \<alpha> node env env'"
  shows "indexed (on_values \<alpha> T) node env' = map_sum id \<alpha> (indexed T node env)"
  using assms by (simp add: indexed_def Let_def cong: branches)

lemma window_values [simp]:
  assumes "value_based \<alpha> T" and "agrees \<alpha> node env env'"
  shows "window (on_values \<alpha> T) node env' = map_sum id \<alpha> (window T node env)"
  using assms by (simp add: window_def Let_def cong: branches)

lemma window_term_values [simp]:
  assumes "value_based \<alpha> T"
  shows "window_term (on_values \<alpha> T) rank out_dims win_dims strides pstrides =
    (\<lambda>a. map_sum id \<alpha> (window_term T rank out_dims win_dims strides pstrides a))"
  using assms by (simp add: window_term_def axis_counter_def fun_eq_iff)

lemma window_linear_values [simp]:
  assumes "value_based \<alpha> T"
  shows "window_linear (on_values \<alpha> T) rank out_dims win_dims strides pstrides =
    map_sum id (map_option \<alpha>) (window_linear T rank out_dims win_dims strides pstrides)"
  using assms rfold_hom [where h = "map_option \<alpha>" and s = None and xs = "[0..<rank]",
      of "\<lambda>lin a. rbind (window_term (on_values \<alpha> T) rank out_dims win_dims strides pstrides a) (\<lambda>term.
       case lin of None \<Rightarrow> Inr (Some term) | Some l \<Rightarrow> rbind (bin (on_values \<alpha> T) ''+'' l term) (\<lambda>s. Inr (Some s)))"
       "\<lambda>lin a. rbind (window_term T rank out_dims win_dims strides pstrides a) (\<lambda>term.
       case lin of None \<Rightarrow> Inr (Some term) | Some l \<Rightarrow> rbind (bin T ''+'' l term) (\<lambda>s. Inr (Some s)))"]
  by (simp add: window_linear_def cong: branches)

lemma window_selected_values [simp]:
  assumes "value_based \<alpha> T"
  shows "window_selected (on_values \<alpha> T) m rank (\<alpha> t) n = map_sum id \<alpha> (window_selected T m rank t n)"
  using assms by (simp add: window_selected_def)

lemma window_scatter_values [simp]:
  assumes "value_based \<alpha> T" and "agrees \<alpha> node env env'"
  shows "window_scatter (on_values \<alpha> T) node env' = map_sum id \<alpha> (window_scatter T node env)"
  using assms by (simp add: window_scatter_def Let_def cong: branches)

lemma dilate_axis_values [simp]:
  assumes "value_based \<alpha> T"
  shows "dilate_axis (on_values \<alpha> T) (\<alpha> x) = (\<lambda>axis d. map_sum id \<alpha> (dilate_axis T x axis d))"
  using assms by (simp add: dilate_axis_def Let_def fun_eq_iff)

lemma dilate_values [simp]:
  assumes "value_based \<alpha> T"
  shows "dilate (on_values \<alpha> T) (\<alpha> x) = (\<lambda>ds. map_sum id \<alpha> (dilate T x ds))"
  using assms by (simp add: dilate_def fun_eq_iff) (intro allI rfold_hom, simp add: case_prod_unfold)

lemma conv_values [simp]:
  assumes "value_based \<alpha> T" and "agrees \<alpha> node env env'"
  shows "conv (on_values \<alpha> T) node env' = map_sum id \<alpha> (conv T node env)"
  using assms by (simp add: conv_def Let_def cong: branches)

abbreviation items_map :: "('t \<Rightarrow> 'v) \<Rightarrow> (nat \<times> 't) list \<Rightarrow> (nat \<times> 'v) list" where
  "items_map \<alpha> \<equiv> map (map_prod id \<alpha>)"

lemma solve_row_values:
  assumes "value_based \<alpha> T"
  shows "solve_row (on_values \<alpha> T) (\<alpha> a) (\<alpha> rhs) (items_map \<alpha> solved) i = map_sum id (items_map \<alpha>) (solve_row T a rhs solved i)"
proof -
  have "rfold (\<lambda>acc (j, xj). rbind (call (on_values \<alpha> T) (Index [At (int i), At (int j)]) [\<alpha> a]) (\<lambda>aij.
         rbind (bin (on_values \<alpha> T) ''*'' aij xj) (\<lambda>p. bin (on_values \<alpha> T) ''-'' acc p))) (\<alpha> acc0) (items_map \<alpha> solved) =
      map_sum id \<alpha> (rfold (\<lambda>acc (j, xj). rbind (call T (Index [At (int i), At (int j)]) [a]) (\<lambda>aij.
         rbind (bin T ''*'' aij xj) (\<lambda>p. bin T ''-'' acc p))) acc0 solved)" for acc0
    using assms by (induction solved arbitrary: acc0) auto
  with assms show ?thesis by (simp add: solve_row_def)
qed

lemma map_of_items: "map_of (items_map \<alpha> kvs) k = map_option \<alpha> (map_of kvs k)"
  by (induction kvs) auto

lemma stack_rows_values:
  assumes "value_based \<alpha> T"
  shows "stack_rows (on_values \<alpha> T) (items_map \<alpha> solved) n = map_sum id (map_option \<alpha>) (stack_rows T solved n)"
proof -
  have "rfold (\<lambda>stacked i. case map_of (items_map \<alpha> solved) i of None \<Rightarrow> Inl (key_error ''i'')
       | Some xi \<Rightarrow> rbind (reshape (on_values \<alpha> T) xi (1 # shp (on_values \<alpha> T) xi)) (\<lambda>row.
           case stacked of None \<Rightarrow> Inr (Some row)
           | Some s \<Rightarrow> rbind (call (on_values \<alpha> T) (Cat 0) [s, row]) (\<lambda>c. Inr (Some c)))) (map_option \<alpha> None) [0..<n] =
    map_sum id (map_option \<alpha>) (rfold (\<lambda>stacked i. case map_of solved i of None \<Rightarrow> Inl (key_error ''i'')
       | Some xi \<Rightarrow> rbind (reshape T xi (1 # shp T xi)) (\<lambda>row.
           case stacked of None \<Rightarrow> Inr (Some row)
           | Some s \<Rightarrow> rbind (call T (Cat 0) [s, row]) (\<lambda>c. Inr (Some c)))) None [0..<n])"
    using assms by (intro rfold_hom) (simp add: map_of_items cong: branches)
  then show ?thesis by (simp add: stack_rows_def)
qed

lemma bind_pair [simp]: "rbind (case p of (x, y) \<Rightarrow> h x y) g = (case p of (x, y) \<Rightarrow> rbind (h x y) g)"
  by (cases p) auto

lemma triangular_values [simp]:
  assumes "value_based \<alpha> T" and "agrees \<alpha> node env env'"
  shows "triangular_solve (on_values \<alpha> T) node env' = map_sum id \<alpha> (triangular_solve T node env)"
proof -
  have "rfold (solve_row (on_values \<alpha> T) (\<alpha> a) (\<alpha> rhs)) [] js = map_sum id (items_map \<alpha>) (rfold (solve_row T a rhs) [] js)" for a rhs js
    using rfold_hom [of "solve_row (on_values \<alpha> T) (\<alpha> a) (\<alpha> rhs)" "items_map \<alpha>" "solve_row T a rhs" "[]" js]
    by (simp add: solve_row_values [OF assms(1)])
  with assms show ?thesis by (simp add: triangular_solve_def stack_rows_values Let_def cong: branches)
qed

lemma einsum_dot_values [simp]:
  assumes "value_based \<alpha> T"
  shows "einsum_dot (on_values \<alpha> T) (\<alpha> a) (\<alpha> b) = (\<lambda>ca cb ba bb. map_sum id \<alpha> (einsum_dot T a b ca cb ba bb))"
  using assms by (simp add: einsum_dot_def case_prod_unfold fun_eq_iff)

lemma dot_values [simp]:
  assumes "value_based \<alpha> T" and "agrees \<alpha> node env env'"
  shows "dot (on_values \<alpha> T) node env' = map_sum id \<alpha> (dot T node env)"
  using assms by (simp add: dot_def)

lemma copy_values:
  assumes "value_based \<alpha> T" and "c \<in> {Clone, Realize, Contiguous}"
  obtains u where "call T c [t] = Inr u" "\<alpha> u = \<alpha> t"
proof -
  from assms have "map_sum id \<alpha> (call T c [t]) = Inr (\<alpha> t)" unfolding value_based_def by blast
  then show ?thesis using that by (cases "call T c [t]") auto
qed

lemma same_value_call: "value_based \<alpha> T \<Longrightarrow> \<alpha> u = \<alpha> t \<Longrightarrow> map_sum id \<alpha> (call T c [u]) = map_sum id \<alpha> (call T c [t])"
  by (metis call_some(2))

lemma select_values [simp]:
  assumes "value_based \<alpha> T" and "agrees \<alpha> node env env'"
  shows "select_op (on_values \<alpha> T) node env' = map_sum id \<alpha> (select_op T node env)"
  using assms by (simp add: select_op_def)

lemma bitcast_values [simp]:
  assumes "value_based \<alpha> T" and "agrees \<alpha> node env env'"
  shows "bitcast_op (on_values \<alpha> T) node env' = map_sum id \<alpha> (bitcast_op T node env)"
proof -
  have "rbind (call T Clone [t]) (\<lambda>src. rbind m (\<lambda>x. rbind (n x) (\<lambda>d. map_sum id \<alpha> (call T (Bitcast d) [src])))) =
      rbind m (\<lambda>x. rbind (n x) (\<lambda>d. map_sum id \<alpha> (call T (Bitcast d) [t])))" for t and m :: "exn + py" and n
  proof -
    from copy_values [OF assms(1), of Clone t] obtain u where "call T Clone [t] = Inr u" "\<alpha> u = \<alpha> t" by blast
    moreover have "map_sum id \<alpha> (call T (Bitcast d) [u]) = map_sum id \<alpha> (call T (Bitcast d) [t])" for d
      by (rule same_value_call [OF assms(1) \<open>\<alpha> u = \<alpha> t\<close>])
    ultimately show ?thesis by simp
  qed
  with assms show ?thesis by (simp add: bitcast_op_def cong: branches)
qed

subsection \<open>Complex operations\<close>

lemma parts_values [simp]:
  assumes "value_based \<alpha> T"
  shows "re_part (on_values \<alpha> T) (\<alpha> t) = map_sum id \<alpha> (re_part T t)" "im_part (on_values \<alpha> T) (\<alpha> t) = map_sum id \<alpha> (im_part T t)"
    "cxt (on_values \<alpha> T) (\<alpha> t) (\<alpha> u) = map_sum id \<alpha> (cxt T t u)"
    "parts (on_values \<alpha> T) (\<alpha> t) = map_sum id (map_prod \<alpha> \<alpha>) (parts T t)"
  using assms by (simp_all add: re_part_def im_part_def cxt_def parts_def)

lemma promote_values [simp]:
  assumes "value_based \<alpha> T"
  shows "promote (on_values \<alpha> T) (map_val \<alpha> v) = map_sum id \<alpha> (promote T v)"
  using assms by (cases v) (simp_all add: promote_def)

lemma promoted_values [simp]:
  assumes "value_based \<alpha> T"
  shows "promoted (on_values \<alpha> T) (map (map_val \<alpha>) ins) = (\<lambda>i. map_sum id \<alpha> (promoted T ins i))"
  using assms by (simp add: promoted_def fun_eq_iff)

lemma dft_values [simp]:
  assumes "value_based \<alpha> T"
  shows "dft (on_values \<alpha> T) (\<alpha> t) = (\<lambda>n axis i. map_sum id \<alpha> (dft T t n axis i))"
  using assms by (simp add: dft_def Let_def fun_eq_iff case_prod_unfold cong: branches)

lemma as_values [simp]:
  "as_cx (map_sum id \<alpha> m) = map_sum id (map_val \<alpha>) (as_cx m)" "as_tn (map_sum id \<alpha> m) = map_sum id (map_val \<alpha>) (as_tn m)"
  by (cases m; simp add: as_cx_def as_tn_def)+

lemma cx_pair_values:
  assumes "value_based \<alpha> T" and "arity (fst e) \<le> length vs" and "arity (snd e) \<le> length vs"
  shows "cx_pair (on_values \<alpha> T) (map \<alpha> vs) e = map_sum id (map_val \<alpha>) (cx_pair T vs e)"
  using assms by (simp add: cx_pair_def elementwise_values)

lemma cx_ops_values [simp]:
  assumes "value_based \<alpha> T"
  shows "e \<in> {cx_conjugate, cx_exp} \<Longrightarrow>
      cx_unary (on_values \<alpha> T) (map (map_val \<alpha>) ins) e = map_sum id (map_val \<alpha>) (cx_unary T ins e)"
    "e \<in> {cx_multiply, cx_divide} \<Longrightarrow>
      cx_binary (on_values \<alpha> T) (map (map_val \<alpha>) ins) e = map_sum id (map_val \<alpha>) (cx_binary T ins e)"
    "cx_broadcast (on_values \<alpha> T) node (map (map_val \<alpha>) ins) = map_sum id \<alpha> (cx_broadcast T node ins)"
    "cx_slice (on_values \<alpha> T) node (map (map_val \<alpha>) ins) = map_sum id \<alpha> (cx_slice T node ins)"
    "cx_sum (on_values \<alpha> T) node (map (map_val \<alpha>) ins) = map_sum id \<alpha> (cx_sum T node ins)"
    "cx_dot (on_values \<alpha> T) node (map (map_val \<alpha>) ins) = map_sum id \<alpha> (cx_dot T node ins)"
    "cx_select (on_values \<alpha> T) (map (map_val \<alpha>) ins) = map_sum id \<alpha> (cx_select T ins)"
proof -
  have pair: "cx_pair (on_values \<alpha> T) [\<alpha> a, \<alpha> b] e = map_sum id (map_val \<alpha>) (cx_pair T [a, b] e)"
    if "e \<in> {cx_conjugate, cx_exp}" for a b e
    using cx_pair_values [OF assms, of e "[a, b]"] that by (auto simp: cx_conjugate_def cx_exp_def Let_def)
  have quad: "cx_pair (on_values \<alpha> T) [\<alpha> a, \<alpha> b, \<alpha> c, \<alpha> d] e = map_sum id (map_val \<alpha>) (cx_pair T [a, b, c, d] e)"
    if "e \<in> {cx_multiply, cx_divide}" for a b c d e
    using cx_pair_values [OF assms, of e "[a, b, c, d]"] that by (auto simp: cx_multiply_def cx_divide_def Let_def)
  show "e \<in> {cx_conjugate, cx_exp} \<Longrightarrow>
      cx_unary (on_values \<alpha> T) (map (map_val \<alpha>) ins) e = map_sum id (map_val \<alpha>) (cx_unary T ins e)"
    using assms by (simp add: cx_unary_def pair)
  show "e \<in> {cx_multiply, cx_divide} \<Longrightarrow>
      cx_binary (on_values \<alpha> T) (map (map_val \<alpha>) ins) e = map_sum id (map_val \<alpha>) (cx_binary T ins e)"
    using assms by (simp add: cx_binary_def quad)
qed (use assms in \<open>simp_all add: cx_broadcast_def cx_slice_def cx_sum_def cx_dot_def cx_select_def case_prod_unfold\<close>)

lemma apply_complex_values:
  assumes "value_based \<alpha> T"
  shows "apply_complex (on_values \<alpha> T) node (map (map_val \<alpha>) ins) = map_sum id (map_val \<alpha>) (apply_complex T node ins)"
proof -
  have "rmap (promote (on_values \<alpha> T)) (map (map_val \<alpha>) ins) = map_sum id (map \<alpha>) (rmap (promote T) ins)"
    using assms by (intro rmap_hom) simp
  moreover have "(case map \<alpha> ps of [] \<Rightarrow> Inl (index_error ()) | _ \<Rightarrow> call (on_values \<alpha> T) (Cat axis) (map \<alpha> ps)) =
      map_sum id \<alpha> (case ps of [] \<Rightarrow> Inl (index_error ()) | _ \<Rightarrow> call T (Cat axis) ps)" for ps axis
    using call_values [OF assms, of "Cat axis" ps] by (cases ps) simp_all
  moreover have "promote (on_values \<alpha> T) (Tn (\<alpha> t)) = map_sum id \<alpha> (promote T (Tn t))" for t
    using promote_values [OF assms, of "Tn t"] by simp
  moreover have "elementwise (on_values \<alpha> T) [\<alpha> a, \<alpha> b] cx_abs = map_sum id \<alpha> (elementwise T [a, b] cx_abs)" for a b
    using elementwise_values [OF assms, of cx_abs "[a, b]"] by (simp add: cx_abs_def)
  moreover note assms
  ultimately show ?thesis unfolding apply_complex_def
    by (simp add: case_prod_unfold flip: as_values cong: branches)
qed

subsection \<open>The dispatch\<close>

lemma table_arity:
  "expr_of UNARY op = Some e \<Longrightarrow> arity e \<le> 1" "expr_of BINARY op = Some e \<Longrightarrow> arity e \<le> 2"
  "expr_of COMPARISON op = Some e \<Longrightarrow> arity e \<le> 2"
proof -
  have "\<forall>(k, e) \<in> set UNARY. arity e \<le> 1" "\<forall>(k, e) \<in> set BINARY. arity e \<le> 2" "\<forall>(k, e) \<in> set COMPARISON. arity e \<le> 2"
    by code_simp+
  then show "expr_of UNARY op = Some e \<Longrightarrow> arity e \<le> 1" "expr_of BINARY op = Some e \<Longrightarrow> arity e \<le> 2"
    "expr_of COMPARISON op = Some e \<Longrightarrow> arity e \<le> 2"
    by (auto simp: expr_of_def dest!: map_of_SomeD split: py.splits)
qed

lemma table_values:
  assumes "value_based \<alpha> T"
  shows "expr_of UNARY op = Some e \<Longrightarrow> elementwise (on_values \<alpha> T) [\<alpha> a] e = map_sum id \<alpha> (elementwise T [a] e)"
    "expr_of BINARY op = Some e \<Longrightarrow> elementwise (on_values \<alpha> T) [\<alpha> a, \<alpha> b] e = map_sum id \<alpha> (elementwise T [a, b] e)"
    "expr_of COMPARISON op = Some e \<Longrightarrow> elementwise (on_values \<alpha> T) [\<alpha> a, \<alpha> b] e = map_sum id \<alpha> (elementwise T [a, b] e)"
  using elementwise_values [OF assms, of e "[a]"] elementwise_values [OF assms, of e "[a, b]"] table_arity [of op e] by auto

lemma apply_real_values:
  assumes "value_based \<alpha> T" and "agrees \<alpha> node env env'"
  shows "apply_real (on_values \<alpha> T) node env' = map_sum id \<alpha> (apply_real T node env)"
proof (cases "node_op node")
  case (Inr op)
  show ?thesis
  proof (cases "expr_of UNARY op")
    case None
    show ?thesis
    proof (cases "expr_of BINARY op")
      case B: None
      show ?thesis
      proof (cases "expr_of COMPARISON op")
        case C: None
        show ?thesis using assms by (simp add: apply_real_def Inr None B C cong: branches)
      next
        case (Some e)
        with assms show ?thesis by (simp add: apply_real_def Inr None B table_values)
      qed
    next
      case (Some e)
      with assms show ?thesis by (simp add: apply_real_def Inr None table_values)
    qed
  next
    case (Some e)
    with assms show ?thesis by (simp add: apply_real_def Inr table_values)
  qed
qed (simp add: apply_real_def)

lemma is_cx_values [simp]: "is_cx (map_val \<alpha> v) = is_cx v"
  by (cases v) auto

lemma case_val_values [simp]:
  "(case map_val \<alpha> v of Tn t \<Rightarrow> g t | Cx t \<Rightarrow> f t) = (case v of Tn t \<Rightarrow> g (\<alpha> t) | Cx t \<Rightarrow> f (\<alpha> t))"
  by (cases v) auto

lemma push_val [simp]:
  "map_sum id h (case v of Tn t \<Rightarrow> q t | Cx t \<Rightarrow> p t) = (case v of Tn t \<Rightarrow> map_sum id h (q t) | Cx t \<Rightarrow> map_sum id h (p t))"
  by (cases v) auto

lemma any_complex_values:
  "\<forall>ref \<in> set refs. lookup env' ref = map_sum id (map_val \<alpha>) (lookup env ref) \<Longrightarrow> any_complex env' refs = any_complex env refs"
  by (induction refs) (simp_all cong: if_cong)

lemma complex_path_values:
  assumes "agrees \<alpha> node env env'"
  shows "complex_path node env' = complex_path node env"
  unfolding complex_path_def using assms
  by (auto simp: agrees_def intro!: rbind_cong any_complex_values)

lemma apply_node_values:
  assumes "value_based \<alpha> T" and "agrees \<alpha> node env env'"
  shows "apply_node (on_values \<alpha> T) node env' = map_sum id (map_val \<alpha>) (apply_node T node env)"
  using assms unfolding apply_node_def
  by (simp add: complex_path_values apply_real_values apply_complex_values cong: branches val.case_cong)

text \<open>An environment of values.\<close>

definition env_values :: "('t \<Rightarrow> 'v) \<Rightarrow> 't env \<Rightarrow> 'v env" where
  "env_values \<alpha> env = \<lparr>vals = (\<lambda>i. map_option (map_val \<alpha>) (vals env i)), sym = sym env\<rparr>"

lemma lookup_env_values: "lookup (env_values \<alpha> env) ref = map_sum id (map_val \<alpha>) (lookup env ref)"
  by (simp add: lookup_def env_values_def cong: branches)

lemma agrees_env_values: "agrees \<alpha> node env (env_values \<alpha> env)"
  by (simp add: agrees_def lookup_env_values) (simp add: env_values_def)


text \<open>Objects as pairs of an identity and a value, with the operations that give the first operand back.\<close>

definition pair_tg :: "(nat \<times> nat) tg" where
  "pair_tg = \<lparr>call = (\<lambda>c ts. case ts of [] \<Rightarrow> Inr (0, 0) | t # _ \<Rightarrow> Inr (Suc (fst t), snd t)), shp = (\<lambda>_. []), dt = (\<lambda>_. TgInt32),
     item = (\<lambda>t. Inr (PInt (int (snd t)))), realized = (\<lambda>_. True), base_id = fst, same_uop = (=)\<rparr>"

lemma pair_tg_values: "value_based snd pair_tg"
  by (auto simp: value_based_def pair_tg_def split: list.splits)


end
